(* ===== verification/Prelude.thy ===== *)
theory Prelude
  imports
    Main
    "HOL-Library.State_Monad"
    "HOL-Library.Finite_Map"
    "HOL-Library.List_Lexorder"
    "HOL-Library.Char_ord"
begin

text \<open>
  Shared vocabulary of the development: the parts of Go's standard library the program
  uses (string functions, decimal formatting, integers of fixed width), the state monad in
  which every handler is written, a weakest-precondition calculus for it and the
  \<open>emits\<close> judgement (which external calls a handler can make).

  Strings and byte slices are lists of bytes (Go compares them bytewise, which is the
  lexicographic order of \<open>List_Lexorder\<close> over \<open>Char_ord\<close>); Go's maps are
  finite maps.
\<close>

type_synonym bytes = string

named_theorems wp_simps "weakest preconditions of the monad's combinators"
named_theorems emits_intros "closure rules of the emits judgement"
named_theorems keeps_intros "closure rules of the keeps judgement"


section \<open>Integers of fixed width\<close>

text \<open>Two's complement wrap-around of Go's \<open>int32\<close> and \<open>int64\<close>, and Go's
  integer division, which truncates towards zero.\<close>

definition i32 :: "int \<Rightarrow> int" where
  "i32 x = (x + 2 ^ 31) mod 2 ^ 32 - 2 ^ 31"

definition i64 :: "int \<Rightarrow> int" where
  "i64 x = (x + 2 ^ 63) mod 2 ^ 64 - 2 ^ 63"

definition go_div :: "int \<Rightarrow> int \<Rightarrow> int" where
  "go_div a b = sgn a * sgn b * (\<bar>a\<bar> div \<bar>b\<bar>)"

lemma i32_id: "- (2 ^ 31) \<le> x \<Longrightarrow> x < 2 ^ 31 \<Longrightarrow> i32 x = x"
  by (simp add: i32_def)

lemma i64_id: "- (2 ^ 63) \<le> x \<Longrightarrow> x < 2 ^ 63 \<Longrightarrow> i64 x = x"
  by (simp add: i64_def)

lemma i32_range: "- (2 ^ 31) \<le> i32 x \<and> i32 x < 2 ^ 31"
  by (simp add: i32_def)

lemma i32_add_i32: "i32 (i32 x + y) = i32 (x + y)"
proof -
  have "(i32 x + y + 2 ^ 31) mod 2 ^ 32 = ((x + 2 ^ 31) mod 2 ^ 32 + y) mod 2 ^ 32"
    by (simp add: i32_def algebra_simps)
  also have "\<dots> = (x + 2 ^ 31 + y) mod 2 ^ 32"
    by (simp add: mod_add_left_eq)
  finally show ?thesis by (simp add: i32_def algebra_simps)
qed

lemma go_div_nonneg: "0 \<le> a \<Longrightarrow> 0 < b \<Longrightarrow> go_div a b = a div b"
  by (cases "a = 0") (auto simp: go_div_def sgn_if)


section \<open>Strings\<close>

definition has_prefix :: "string \<Rightarrow> string \<Rightarrow> bool" where
  "has_prefix pre s \<longleftrightarrow> take (length pre) s = pre"

definition has_suffix :: "string \<Rightarrow> string \<Rightarrow> bool" where
  "has_suffix suf s \<longleftrightarrow> has_prefix (rev suf) (rev s)"

definition trim_prefix :: "string \<Rightarrow> string \<Rightarrow> string" where
  "trim_prefix pre s = (if has_prefix pre s then drop (length pre) s else s)"

definition cut_before :: "char \<Rightarrow> string \<Rightarrow> string" where
  \<comment> \<open>first result of \<open>strings.Cut\<close> for a one-byte separator\<close>
  "cut_before sep s = takeWhile (\<lambda>c. c \<noteq> sep) s"

definition char_lower :: "char \<Rightarrow> char" where
  "char_lower c = (let n = (of_char c :: nat) in if 65 \<le> n \<and> n \<le> 90 then char_of (n + 32) else c)"

definition to_lower :: "string \<Rightarrow> string" where
  "to_lower s = map char_lower s"

definition equal_fold :: "string \<Rightarrow> string \<Rightarrow> bool" where
  "equal_fold a b \<longleftrightarrow> to_lower a = to_lower b"

definition is_space :: "char \<Rightarrow> bool" where
  "is_space c \<longleftrightarrow> (of_char c :: nat) \<in> {9, 10, 11, 12, 13, 32}"

definition trim_space :: "string \<Rightarrow> string" where
  "trim_space s = rev (dropWhile is_space (rev (dropWhile is_space s)))"

definition is_digit :: "char \<Rightarrow> bool" where
  "is_digit c \<longleftrightarrow> (let n = (of_char c :: nat) in 48 \<le> n \<and> n \<le> 57)"

lemma has_prefix_append [simp]: "has_prefix pre (pre @ s)"
  by (simp add: has_prefix_def)

lemma has_prefix_iff: "has_prefix pre s \<longleftrightarrow> (\<exists>t. s = pre @ t)"
  by (metis append_eq_conv_conj append_take_drop_id has_prefix_def)

lemma has_prefix_Nil [simp]: "has_prefix [] s"
  by (simp add: has_prefix_def)

lemma has_prefix_Cons [simp]: "has_prefix (c # cs) (d # ds) \<longleftrightarrow> c = d \<and> has_prefix cs ds"
  by (auto simp: has_prefix_def)

lemma has_prefix_Cons_Nil [simp]: "\<not> has_prefix (c # cs) []"
  by (simp add: has_prefix_def)

lemma has_suffix_append [simp]: "has_suffix suf (s @ suf)"
  by (simp add: has_suffix_def)

lemma has_suffix_iff: "has_suffix suf s \<longleftrightarrow> (\<exists>t. s = t @ suf)"
proof
  assume "has_suffix suf s"
  then obtain t where "rev s = rev suf @ t" by (auto simp: has_suffix_def has_prefix_iff)
  then have "s = rev t @ suf" by (metis rev_append rev_rev_ident)
  then show "\<exists>t. s = t @ suf" by blast
qed auto

lemma trim_space_no_edge:
  "trim_space s = [] \<or> \<not> is_space (last (trim_space s))"
proof (cases "dropWhile is_space (rev (dropWhile is_space s))")
  case Nil
  then show ?thesis by (simp add: trim_space_def)
next
  case (Cons c cs)
  then have "\<not> is_space c" by (metis dropWhile_eq_Cons_conv)
  with Cons show ?thesis by (simp add: trim_space_def)
qed


section \<open>Decimal formatting\<close>

definition digit_char :: "nat \<Rightarrow> char" where
  "digit_char d = char_of (48 + d)"

fun dec_nat :: "nat \<Rightarrow> string" where
  "dec_nat n = (if n < 10 then [digit_char n] else dec_nat (n div 10) @ [digit_char (n mod 10)])"

declare dec_nat.simps [simp del]

definition format_int :: "int \<Rightarrow> string" where
  \<comment> \<open>\<open>strconv.FormatInt(n, 10)\<close>, also \<open>%d\<close>\<close>
  "format_int n = (if n < 0 then ''-'' @ dec_nat (nat (- n)) else dec_nat (nat n))"

definition digit_val :: "char \<Rightarrow> nat" where
  "digit_val c = of_char c - 48"

definition parse_dec :: "string \<Rightarrow> nat" where
  "parse_dec s = foldl (\<lambda>acc c. acc * 10 + digit_val c) 0 s"

lemma digit_val_digit_char [simp]: "d < 10 \<Longrightarrow> digit_val (digit_char d) = d"
  by (simp add: digit_val_def digit_char_def)

lemma is_digit_digit_char: "d < 10 \<Longrightarrow> is_digit (digit_char d)"
  by (simp add: is_digit_def digit_char_def Let_def)

lemma parse_dec_nat [simp]: "parse_dec (dec_nat n) = n"
proof (induction n rule: dec_nat.induct)
  case (1 n)
  show ?case
  proof (cases "n < 10")
    case True
    then show ?thesis by (simp add: dec_nat.simps [of n] parse_dec_def)
  next
    case False
    with 1 have "parse_dec (dec_nat (n div 10)) = n div 10" by simp
    with False show ?thesis by (simp add: dec_nat.simps [of n] parse_dec_def)
  qed
qed

lemma dec_nat_inject [simp]: "dec_nat m = dec_nat n \<longleftrightarrow> m = n"
  by (metis parse_dec_nat)

lemma dec_nat_digits: "list_all is_digit (dec_nat n)"
proof (induction n rule: dec_nat.induct)
  case (1 n)
  then show ?case
    by (cases "n < 10") (auto simp: dec_nat.simps [of n] is_digit_digit_char)
qed

lemma dec_nat_nonempty [simp]: "dec_nat n \<noteq> []"
  by (subst dec_nat.simps) simp

lemma format_int_nonneg: "0 \<le> n \<Longrightarrow> format_int n = dec_nat (nat n)"
  by (simp add: format_int_def)


section \<open>Handlers: a state monad over an object and a call log\<close>

text \<open>
  A reconciler works on one object that it mutates through a pointer, and calls out to the
  Kubernetes API server and the Talos machine API. The state of a handler is the current
  value of that object (\<open>obj\<close>) and the log of the external calls made so far, oldest
  first (\<open>log\<close>). The answer of a call is a function of the log before it, so an
  environment that reacts to earlier calls (or changes on its own between two calls) is
  covered by quantifying over that function.
\<close>

record ('o, 'e) gst =
  obj :: 'o
  log :: "'e list"

type_synonym ('o, 'e, 'a) go = "(('o, 'e) gst, 'a) state"

definition ret :: "'a \<Rightarrow> ('s, 'a) state" where
  "ret = State_Monad.return"

definition ask :: "('e list \<Rightarrow> 'r) \<Rightarrow> ('r \<Rightarrow> 'e) \<Rightarrow> ('o, 'e, 'r) go" where
  "ask answer event = State (\<lambda>s. let r = answer (log s) in (r, s\<lparr>log := log s @ [event r]\<rparr>))"

definition get_obj :: "('o, 'e, 'o) go" where
  "get_obj = State (\<lambda>s. (obj s, s))"

definition modify_obj :: "('o \<Rightarrow> 'o) \<Rightarrow> ('o, 'e, unit) go" where
  "modify_obj f = State (\<lambda>s. ((), s\<lparr>obj := f (obj s)\<rparr>))"

text \<open>\<open>x, err := m(); if err != nil { return wrap(err) }; k(x)\<close>.\<close>

definition try_or :: "('s, 'err + 'a) state \<Rightarrow> ('err \<Rightarrow> 'err) \<Rightarrow> ('a \<Rightarrow> ('s, 'err + 'b) state)
    \<Rightarrow> ('s, 'err + 'b) state" where
  "try_or m wrap k = do { r \<leftarrow> m; (case r of Inl e \<Rightarrow> ret (Inl (wrap e)) | Inr x \<Rightarrow> k x) }"

text \<open>The same for a call that returns only an error.\<close>

definition check_or :: "('s, 'err option) state \<Rightarrow> ('err \<Rightarrow> 'err) \<Rightarrow> ('s, 'err + 'b) state
    \<Rightarrow> ('s, 'err + 'b) state" where
  "check_or m wrap k = do { r \<leftarrow> m; (case r of Some e \<Rightarrow> ret (Inl (wrap e)) | None \<Rightarrow> k) }"


subsection \<open>Weakest preconditions\<close>

definition wp :: "('s, 'a) state \<Rightarrow> ('a \<Rightarrow> 's \<Rightarrow> bool) \<Rightarrow> 's \<Rightarrow> bool" where
  "wp m Q s = (case run_state m s of (a, s') \<Rightarrow> Q a s')"

lemma wp_ret [wp_simps]: "wp (ret a) Q s = Q a s"
  by (simp add: wp_def ret_def)

lemma wp_bind [wp_simps]: "wp (State_Monad.bind m f) Q s = wp m (\<lambda>a. wp (f a) Q) s"
  by (simp add: wp_def split: prod.splits)

lemma wp_ask [wp_simps]:
  "wp (ask answer event) Q s =
     Q (answer (log s)) (s\<lparr>log := log s @ [event (answer (log s))]\<rparr>)"
  by (simp add: wp_def ask_def Let_def)

lemma wp_get_obj [wp_simps]: "wp get_obj Q s = Q (obj s) s"
  by (simp add: wp_def get_obj_def)

lemma wp_modify_obj [wp_simps]: "wp (modify_obj f) Q s = Q () (s\<lparr>obj := f (obj s)\<rparr>)"
  by (simp add: wp_def modify_obj_def)

lemma wp_if [wp_simps]: "wp (if b then m else n) Q s = (if b then wp m Q s else wp n Q s)"
  by simp

lemma wp_try_or [wp_simps]:
  "wp (try_or m wrap k) Q s =
     wp m (\<lambda>r. case r of Inl e \<Rightarrow> Q (Inl (wrap e)) | Inr x \<Rightarrow> wp (k x) Q) s"
proof -
  have "(\<lambda>r. wp (case r of Inl e \<Rightarrow> ret (Inl (wrap e)) | Inr x \<Rightarrow> k x) Q)
      = (\<lambda>r. case r of Inl e \<Rightarrow> Q (Inl (wrap e)) | Inr x \<Rightarrow> wp (k x) Q)"
    by (rule ext, rule ext) (simp add: wp_ret split: sum.split)
  then show ?thesis by (simp add: try_or_def wp_bind)
qed

lemma wp_check_or [wp_simps]:
  "wp (check_or m wrap k) Q s =
     wp m (\<lambda>r. case r of Some e \<Rightarrow> Q (Inl (wrap e)) | None \<Rightarrow> wp k Q) s"
proof -
  have "(\<lambda>r. wp (case r of Some e \<Rightarrow> ret (Inl (wrap e)) | None \<Rightarrow> k) Q)
      = (\<lambda>r. case r of Some e \<Rightarrow> Q (Inl (wrap e)) | None \<Rightarrow> wp k Q)"
    by (rule ext, rule ext) (simp add: wp_ret split: option.split)
  then show ?thesis by (simp add: check_or_def wp_bind)
qed

lemma wp_mono: "wp m Q s \<Longrightarrow> (\<And>a s'. Q a s' \<Longrightarrow> R a s') \<Longrightarrow> wp m R s"
  by (simp add: wp_def split: prod.splits)

lemma wp_conj: "wp m Q s \<Longrightarrow> wp m R s \<Longrightarrow> wp m (\<lambda>a s'. Q a s' \<and> R a s') s"
  by (simp add: wp_def split: prod.splits)

lemma wp_run: "wp m Q s \<Longrightarrow> run_state m s = (a, s') \<Longrightarrow> Q a s'"
  by (simp add: wp_def)

lemma wpI: "(\<And>a s'. run_state m s = (a, s') \<Longrightarrow> Q a s') \<Longrightarrow> wp m Q s"
  by (simp add: wp_def split: prod.splits)

lemma wp_case_sum:
  "wp (case r of Inl e \<Rightarrow> f e | Inr x \<Rightarrow> g x) Q s =
     (case r of Inl e \<Rightarrow> wp (f e) Q s | Inr x \<Rightarrow> wp (g x) Q s)"
  by (simp split: sum.split)

lemma wp_case_option:
  "wp (case r of None \<Rightarrow> f | Some x \<Rightarrow> g x) Q s =
     (case r of None \<Rightarrow> wp f Q s | Some x \<Rightarrow> wp (g x) Q s)"
  by (simp split: option.split)

lemma wp_case_prod:
  "wp (case r of (x, y) \<Rightarrow> f x y) Q s = (case r of (x, y) \<Rightarrow> wp (f x y) Q s)"
  by (simp split: prod.split)

lemmas wp_cases [wp_simps] = wp_case_sum wp_case_option wp_case_prod


lemma wp_case_sumI:
  "(\<And>e. r = Inl e \<Longrightarrow> wp (f e) Q s) \<Longrightarrow> (\<And>x. r = Inr x \<Longrightarrow> wp (g x) Q s) \<Longrightarrow>
     wp (case r of Inl e \<Rightarrow> f e | Inr x \<Rightarrow> g x) Q s"
  by (simp split: sum.split)

lemma wp_ifI: "(b \<Longrightarrow> wp m Q s) \<Longrightarrow> (\<not> b \<Longrightarrow> wp n Q s) \<Longrightarrow> wp (if b then m else n) Q s"
  by simp

lemma wp_get_objI: "wp (f (obj s)) Q s \<Longrightarrow> wp (State_Monad.bind get_obj f) Q s"
  by (simp add: wp_simps)


text \<open>Composition through an intermediate assertion.\<close>

lemma wp_bindI:
  "wp m R s \<Longrightarrow> (\<And>a t. R a t \<Longrightarrow> wp (f a) Q t) \<Longrightarrow> wp (State_Monad.bind m f) Q s"
  unfolding wp_bind by (rule wp_mono)

lemma wp_try_orI:
  "wp m R s \<Longrightarrow> (\<And>e t. R (Inl e) t \<Longrightarrow> Q (Inl (wrap e)) t) \<Longrightarrow>
    (\<And>x t. R (Inr x) t \<Longrightarrow> wp (k x) Q t) \<Longrightarrow> wp (try_or m wrap k) Q s"
  unfolding wp_try_or by (erule wp_mono) (auto split: sum.split)

lemma wp_check_orI:
  "wp m R s \<Longrightarrow> (\<And>e t. R (Some e) t \<Longrightarrow> Q (Inl (wrap e)) t) \<Longrightarrow>
    (\<And>t. R None t \<Longrightarrow> wp k Q t) \<Longrightarrow> wp (check_or m wrap k) Q s"
  unfolding wp_check_or by (erule wp_mono) (auto split: option.split)


subsection \<open>Which calls a handler makes\<close>

definition emits :: "('e \<Rightarrow> bool) \<Rightarrow> ('o, 'e, 'a) go \<Rightarrow> bool" where
  "emits E m \<longleftrightarrow> (\<forall>s. wp m (\<lambda>_ s'. \<exists>es. log s' = log s @ es \<and> list_all E es) s)"

lemma emits_ret [emits_intros]: "emits E (ret a)"
  by (simp add: emits_def wp_ret)

lemma emits_get_obj [emits_intros]: "emits E get_obj"
  by (simp add: emits_def wp_get_obj)

lemma emits_modify_obj [emits_intros]: "emits E (modify_obj f)"
  by (simp add: emits_def wp_modify_obj)

lemma emits_ask [emits_intros]: "(\<And>r. E (event r)) \<Longrightarrow> emits E (ask answer event)"
  by (simp add: emits_def wp_ask)

lemma emits_bind [emits_intros]:
  assumes "emits E m" and "\<And>a. emits E (f a)"
  shows "emits E (State_Monad.bind m f)"
  unfolding emits_def
proof (intro allI wpI)
  fix s :: "('b, 'a) gst" and a s'
  assume run: "run_state (State_Monad.bind m f) s = (a, s')"
  obtain b t where m: "run_state m s = (b, t)" by fastforce
  with run have f: "run_state (f b) t = (a, s')" by simp
  from assms(1) m obtain es where es: "log t = log s @ es" "list_all E es"
    by (auto simp: emits_def wp_def dest!: spec [of _ s])
  from assms(2) [of b] f obtain es' where es': "log s' = log t @ es'" "list_all E es'"
    by (auto simp: emits_def wp_def dest!: spec [of _ t])
  show "\<exists>es. log s' = log s @ es \<and> list_all E es"
    using es es' by (intro exI [of _ "es @ es'"]) simp
qed

lemma emits_if [emits_intros]:
  "(b \<Longrightarrow> emits E m) \<Longrightarrow> (\<not> b \<Longrightarrow> emits E n) \<Longrightarrow> emits E (if b then m else n)"
  by simp

lemma emits_case_sum [emits_intros]:
  "(\<And>x. r = Inl x \<Longrightarrow> emits E (f x)) \<Longrightarrow> (\<And>y. r = Inr y \<Longrightarrow> emits E (g y))
    \<Longrightarrow> emits E (case r of Inl x \<Rightarrow> f x | Inr y \<Rightarrow> g y)"
  by (simp split: sum.split)

lemma emits_case_option [emits_intros]:
  "(r = None \<Longrightarrow> emits E f) \<Longrightarrow> (\<And>y. r = Some y \<Longrightarrow> emits E (g y))
    \<Longrightarrow> emits E (case r of None \<Rightarrow> f | Some y \<Rightarrow> g y)"
  by (simp split: option.split)

lemma emits_case_prod [emits_intros]:
  "(\<And>x y. r = (x, y) \<Longrightarrow> emits E (f x y)) \<Longrightarrow> emits E (case r of (x, y) \<Rightarrow> f x y)"
  by (simp split: prod.split)

lemma emits_try_or [emits_intros]:
  "emits E m \<Longrightarrow> (\<And>x. emits E (k x)) \<Longrightarrow> emits E (try_or m wrap k)"
  unfolding try_or_def by (intro emits_intros) simp_all

lemma emits_check_or [emits_intros]:
  "emits E m \<Longrightarrow> emits E k \<Longrightarrow> emits E (check_or m wrap k)"
  unfolding check_or_def by (intro emits_intros) simp_all

lemma emits_mono: "emits E m \<Longrightarrow> (\<And>e. E e \<Longrightarrow> F e) \<Longrightarrow> emits F m"
  unfolding emits_def by (blast intro: wp_mono list.pred_mono_strong)

lemma emits_run:
  assumes "emits E m" and "run_state m s = (a, s')"
  obtains es where "log s' = log s @ es" and "list_all E es"
  using assms by (auto simp: emits_def wp_def dest!: spec [of _ s])

subsection \<open>Handlers that leave the object alone\<close>

definition keeps :: "('o, 'e, 'a) go \<Rightarrow> bool" where
  "keeps m \<longleftrightarrow> (\<forall>s. wp m (\<lambda>_ s'. obj s' = obj s) s)"

lemma keeps_ret [keeps_intros]: "keeps (ret a)"
  by (simp add: keeps_def wp_ret)

lemma keeps_get_obj [keeps_intros]: "keeps get_obj"
  by (simp add: keeps_def wp_get_obj)

lemma keeps_ask [keeps_intros]: "keeps (ask answer event)"
  by (simp add: keeps_def wp_ask)

lemma keeps_bind [keeps_intros]:
  fixes m :: "('o, 'e, 'a) go"
  assumes "keeps m" and "\<And>a. keeps (f a)"
  shows "keeps (State_Monad.bind m f)"
  unfolding keeps_def
proof
  fix s :: "('o, 'e) gst"
  have "wp m (\<lambda>_ t. obj t = obj s) s" using assms(1) by (simp add: keeps_def)
  then show "wp (State_Monad.bind m f) (\<lambda>_ s'. obj s' = obj s) s"
    unfolding wp_bind
  proof (rule wp_mono)
    fix a and t :: "('o, 'e) gst" assume "obj t = obj s"
    with assms(2) [of a] show "wp (f a) (\<lambda>_ s'. obj s' = obj s) t"
      by (auto simp: keeps_def dest: spec [of _ t])
  qed
qed

lemma keeps_if [keeps_intros]: "keeps m \<Longrightarrow> keeps n \<Longrightarrow> keeps (if b then m else n)"
  by simp

lemma keeps_case_sum [keeps_intros]:
  "(\<And>x. keeps (f x)) \<Longrightarrow> (\<And>y. keeps (g y)) \<Longrightarrow> keeps (case r of Inl x \<Rightarrow> f x | Inr y \<Rightarrow> g y)"
  by (simp split: sum.split)

lemma keeps_case_option [keeps_intros]:
  "keeps f \<Longrightarrow> (\<And>y. keeps (g y)) \<Longrightarrow> keeps (case r of None \<Rightarrow> f | Some y \<Rightarrow> g y)"
  by (simp split: option.split)

lemma keeps_case_prod [keeps_intros]:
  "(\<And>x y. keeps (f x y)) \<Longrightarrow> keeps (case r of (x, y) \<Rightarrow> f x y)"
  by (simp split: prod.split)

lemma keeps_try_or [keeps_intros]:
  "keeps m \<Longrightarrow> (\<And>x. keeps (k x)) \<Longrightarrow> keeps (try_or m wrap k)"
  unfolding try_or_def by (intro keeps_intros) simp_all

lemma keeps_check_or [keeps_intros]: "keeps m \<Longrightarrow> keeps k \<Longrightarrow> keeps (check_or m wrap k)"
  unfolding check_or_def by (intro keeps_intros) simp_all

lemma keeps_wp: "keeps m \<Longrightarrow> wp m (\<lambda>_ s'. obj s' = obj s) s"
  by (simp add: keeps_def)

lemma emits_wp: "emits E m \<Longrightarrow> wp m (\<lambda>_ s'. \<exists>es. log s' = log s @ es \<and> list_all E es) s"
  by (simp add: emits_def)

text \<open>A step that makes calls of one kind and leaves the object alone, seen from outside.\<close>

lemma wp_opaque:
  fixes m :: "('o, 'e, 'a) go"
  assumes "emits E m" and "keeps m"
    and "\<And>a es. list_all E es \<Longrightarrow> Q a (s\<lparr>log := log s @ es\<rparr>)"
  shows "wp m Q s"
proof (rule wpI)
  fix a s' assume run: "run_state m s = (a, s')"
  from assms(1) run obtain es where es: "log s' = log s @ es" "list_all E es"
    by (rule emits_run)
  from assms(2) run have "obj s' = obj s"
    by (auto simp: keeps_def wp_def dest: spec [of _ s])
  with es have "s' = s\<lparr>log := log s @ es\<rparr>" by simp
  with assms(3) [OF es(2), of a] show "Q a s'" by simp
qed

lemma wp_opaque_value:
  fixes m :: "('o, 'e, 'a) go"
  assumes "emits E m" and "keeps m" and "wp m (\<lambda>a _. P a) s"
    and "\<And>a es. P a \<Longrightarrow> list_all E es \<Longrightarrow> Q a (s\<lparr>log := log s @ es\<rparr>)"
  shows "wp m Q s"
proof -
  have "wp m (\<lambda>a s'. \<exists>es. s' = s\<lparr>log := log s @ es\<rparr> \<and> list_all E es) s"
    by (rule wp_opaque [OF assms(1,2)]) blast
  from wp_conj [OF assms(3) this] show ?thesis
    by (rule wp_mono) (auto intro: assms(4))
qed

subsection \<open>Handlers that return a value in every state\<close>

definition succeeds :: "('o, 'e, 'x + 'a) go \<Rightarrow> bool" where
  "succeeds m \<longleftrightarrow> (\<forall>s. wp m (\<lambda>r _. \<exists>x. r = Inr x) s)"

lemma succeeds_ret: "succeeds (ret (Inr x))"
  by (simp add: succeeds_def wp_ret)

lemma succeeds_bind: "(\<And>a. succeeds (f a)) \<Longrightarrow> succeeds (State_Monad.bind m f)"
  by (auto simp: succeeds_def wp_bind intro: wpI)

lemma succeeds_try_or:
  "succeeds m \<Longrightarrow> (\<And>x. succeeds (k x)) \<Longrightarrow> succeeds (try_or m wrap k)"
  unfolding succeeds_def wp_try_or
  by (intro allI, rule wp_mono, erule spec) auto

lemma succeeds_ask: "(\<And>l. \<exists>x. answer l = Inr x) \<Longrightarrow> succeeds (ask answer event)"
  by (simp add: succeeds_def wp_ask)


subsection \<open>Assertions about the end of a handler\<close>

text \<open>\<open>always Q m\<close>: whatever the state before, the result and the state after satisfy \<open>Q\<close>.
  Only the last step of a sequence matters.\<close>

definition always :: "('a \<Rightarrow> 's \<Rightarrow> bool) \<Rightarrow> ('s, 'a) state \<Rightarrow> bool" where
  "always Q m \<longleftrightarrow> (\<forall>s. wp m Q s)"

lemma always_wp: "always Q m \<Longrightarrow> wp m Q s"
  by (simp add: always_def)

lemma always_ret: "(\<And>s. Q a s) \<Longrightarrow> always Q (ret a)"
  by (simp add: always_def wp_ret)

lemma always_bind: "(\<And>a. always Q (f a)) \<Longrightarrow> always Q (State_Monad.bind m f)"
  by (auto simp: always_def wp_bind intro: wpI)

lemma always_try_or:
  "(\<And>e s. Q (Inl e) s) \<Longrightarrow> (\<And>x. always Q (k x)) \<Longrightarrow> always Q (try_or m wrap k)"
  unfolding try_or_def by (intro always_bind) (auto intro: always_ret split: sum.split)

lemma always_check_or:
  "(\<And>e s. Q (Inl e) s) \<Longrightarrow> always Q k \<Longrightarrow> always Q (check_or m wrap k)"
  unfolding check_or_def by (intro always_bind) (auto intro: always_ret split: option.split)

lemma always_if: "(b \<Longrightarrow> always Q m) \<Longrightarrow> (\<not> b \<Longrightarrow> always Q n) \<Longrightarrow> always Q (if b then m else n)"
  by simp

lemma always_case_sum:
  "(\<And>x. always Q (f x)) \<Longrightarrow> (\<And>y. always Q (g y)) \<Longrightarrow> always Q (case r of Inl x \<Rightarrow> f x | Inr y \<Rightarrow> g y)"
  by (simp split: sum.split)

lemma always_case_option:
  "always Q f \<Longrightarrow> (\<And>y. always Q (g y)) \<Longrightarrow> always Q (case r of None \<Rightarrow> f | Some y \<Rightarrow> g y)"
  by (simp split: option.split)

lemma always_case_prod: "(\<And>x y. always Q (f x y)) \<Longrightarrow> always Q (case r of (x, y) \<Rightarrow> f x y)"
  by (simp split: prod.split)

lemmas always_intros = always_bind always_try_or always_check_or always_if always_case_sum
  always_case_option always_case_prod always_ret

subsection \<open>Invariants of the object and of the calls\<close>

text \<open>\<open>under I E m\<close>: from an object that satisfies \<open>I\<close>, the handler ends in one and only makes calls
  that satisfy \<open>E\<close>.\<close>

definition under :: "('o \<Rightarrow> bool) \<Rightarrow> ('e \<Rightarrow> bool) \<Rightarrow> ('o, 'e, 'a) go \<Rightarrow> bool" where
  "under I E m \<longleftrightarrow> (\<forall>s. I (obj s) \<longrightarrow>
     wp m (\<lambda>_ s'. I (obj s') \<and> (\<exists>es. log s' = log s @ es \<and> list_all E es)) s)"

lemma under_ret: "under I E (ret a)"
  by (simp add: under_def wp_ret)

lemma under_modify: "(\<And>x. I x \<Longrightarrow> I (f x)) \<Longrightarrow> under I E (modify_obj f)"
  by (simp add: under_def wp_modify_obj)

lemma under_ask: "(\<And>r. E (event r)) \<Longrightarrow> under I E (ask answer event)"
  by (simp add: under_def wp_ask)

lemma under_bind:
  assumes "under I E m" and "\<And>a. under I E (f a)"
  shows "under I E (State_Monad.bind m f)"
  unfolding under_def
proof (intro allI impI)
  fix s :: "('a, 'b) gst" assume "I (obj s)"
  with assms(1) have "wp m (\<lambda>_ s'. I (obj s') \<and> (\<exists>es. log s' = log s @ es \<and> list_all E es)) s"
    by (simp add: under_def)
  then show "wp (State_Monad.bind m f) (\<lambda>_ s'. I (obj s') \<and> (\<exists>es. log s' = log s @ es \<and> list_all E es)) s"
  proof (rule wp_bindI, elim conjE exE)
    fix a es and t :: "('a, 'b) gst" assume t: "I (obj t)" "log t = log s @ es" "list_all E es"
    from assms(2) [of a] t(1)
    have "wp (f a) (\<lambda>_ s'. I (obj s') \<and> (\<exists>es. log s' = log t @ es \<and> list_all E es)) t"
      unfolding under_def by blast
    then show "wp (f a) (\<lambda>_ s'. I (obj s') \<and> (\<exists>es. log s' = log s @ es \<and> list_all E es)) t"
      by (rule wp_mono) (use t in auto)
  qed
qed

text \<open>What is read satisfies the invariant.\<close>

lemma under_get: "(\<And>x. I x \<Longrightarrow> under I E (f x)) \<Longrightarrow> under I E (State_Monad.bind get_obj f)"
  by (simp add: under_def wp_simps)

lemma under_if: "(b \<Longrightarrow> under I E m) \<Longrightarrow> (\<not> b \<Longrightarrow> under I E n) \<Longrightarrow> under I E (if b then m else n)"
  by simp

lemma under_case_sum:
  "(\<And>x. under I E (f x)) \<Longrightarrow> (\<And>y. under I E (g y)) \<Longrightarrow> under I E (case r of Inl x \<Rightarrow> f x | Inr y \<Rightarrow> g y)"
  by (simp split: sum.split)

lemma under_case_option:
  "under I E f \<Longrightarrow> (\<And>y. under I E (g y)) \<Longrightarrow> under I E (case r of None \<Rightarrow> f | Some y \<Rightarrow> g y)"
  by (simp split: option.split)

lemma under_case_prod: "(\<And>x y. under I E (f x y)) \<Longrightarrow> under I E (case r of (x, y) \<Rightarrow> f x y)"
  by (simp split: prod.split)

lemma under_try_or: "under I E m \<Longrightarrow> (\<And>x. under I E (k x)) \<Longrightarrow> under I E (try_or m wrap k)"
  unfolding try_or_def by (intro under_bind under_case_sum under_ret)

lemma under_check_or: "under I E m \<Longrightarrow> under I E k \<Longrightarrow> under I E (check_or m wrap k)"
  unfolding check_or_def by (intro under_bind under_case_option under_ret)

text \<open>A handler that leaves the object alone needs no invariant.\<close>

lemma under_kept:
  assumes "keeps m" and "emits E m"
  shows "under I E m"
  unfolding under_def
proof (intro allI impI)
  fix s :: "('a, 'b) gst" assume "I (obj s)"
  moreover have "wp m (\<lambda>_ s'. obj s' = obj s \<and> (\<exists>es. log s' = log s @ es \<and> list_all E es)) s"
    using assms by (intro wp_conj keeps_wp emits_wp)
  ultimately show "wp m (\<lambda>_ s'. I (obj s') \<and> (\<exists>es. log s' = log s @ es \<and> list_all E es)) s"
    by (elim wp_mono) auto
qed

lemma under_run:
  assumes "under I E m" and "I (obj s)" and "run_state m s = (a, s')"
  shows "I (obj s') \<and> (\<exists>es. log s' = log s @ es \<and> list_all E es)"
  using wp_run [OF _ assms(3)] assms(1,2) unfolding under_def by blast

lemmas under_intros = under_get under_ret under_ask under_bind under_if under_case_sum under_case_option
  under_case_prod under_try_or under_check_or

subsection \<open>From one invariant to another\<close>

definition moves :: "('o \<Rightarrow> bool) \<Rightarrow> ('o \<Rightarrow> bool) \<Rightarrow> ('e \<Rightarrow> bool) \<Rightarrow> ('o, 'e, 'a) go \<Rightarrow> bool" where
  "moves I I' E m \<longleftrightarrow> (\<forall>s. I (obj s) \<longrightarrow>
     wp m (\<lambda>_ s'. I' (obj s') \<and> (\<exists>es. log s' = log s @ es \<and> list_all E es)) s)"

lemma moves_under: "moves I I E m = under I E m"
  by (simp add: moves_def under_def)

lemma moves_ret: "(\<And>x. I x \<Longrightarrow> I' x) \<Longrightarrow> moves I I' E (ret a)"
  by (simp add: moves_def wp_ret)

lemma moves_modify: "(\<And>x. I x \<Longrightarrow> I' (f x)) \<Longrightarrow> moves I I' E (modify_obj f)"
  by (simp add: moves_def wp_modify_obj)

lemma moves_bind:
  assumes "moves I K E m" and "\<And>a. moves K I' E (f a)"
  shows "moves I I' E (State_Monad.bind m f)"
  unfolding moves_def
proof (intro allI impI)
  fix s :: "('a, 'b) gst" assume "I (obj s)"
  with assms(1) have "wp m (\<lambda>_ s'. K (obj s') \<and> (\<exists>es. log s' = log s @ es \<and> list_all E es)) s"
    by (simp add: moves_def)
  then show "wp (State_Monad.bind m f) (\<lambda>_ s'. I' (obj s') \<and> (\<exists>es. log s' = log s @ es \<and> list_all E es)) s"
  proof (rule wp_bindI, elim conjE exE)
    fix a es and t :: "('a, 'b) gst" assume t: "K (obj t)" "log t = log s @ es" "list_all E es"
    from assms(2) [of a] t(1)
    have "wp (f a) (\<lambda>_ s'. I' (obj s') \<and> (\<exists>es. log s' = log t @ es \<and> list_all E es)) t"
      unfolding moves_def by blast
    then show "wp (f a) (\<lambda>_ s'. I' (obj s') \<and> (\<exists>es. log s' = log s @ es \<and> list_all E es)) t"
      by (rule wp_mono) (use t in auto)
  qed
qed

lemma moves_first: "under I E m \<Longrightarrow> (\<And>a. moves I I' E (f a)) \<Longrightarrow> moves I I' E (State_Monad.bind m f)"
  by (rule moves_bind [of I I]) (simp_all add: moves_under)

lemma moves_get: "(\<And>x. I x \<Longrightarrow> moves (\<lambda>y. y = x \<and> I y) I' E (f x)) \<Longrightarrow> moves I I' E (State_Monad.bind get_obj f)"
  by (simp add: moves_def wp_simps)

lemma moves_if: "(b \<Longrightarrow> moves I I' E m) \<Longrightarrow> (\<not> b \<Longrightarrow> moves I I' E n) \<Longrightarrow> moves I I' E (if b then m else n)"
  by simp

lemma moves_case_sum:
  "(\<And>x. moves I I' E (f x)) \<Longrightarrow> (\<And>y. moves I I' E (g y)) \<Longrightarrow> moves I I' E (case r of Inl x \<Rightarrow> f x | Inr y \<Rightarrow> g y)"
  by (simp split: sum.split)

lemma moves_case_option:
  "moves I I' E f \<Longrightarrow> (\<And>y. moves I I' E (g y)) \<Longrightarrow> moves I I' E (case r of None \<Rightarrow> f | Some y \<Rightarrow> g y)"
  by (simp split: option.split)

lemma moves_pre: "moves I I' E m \<Longrightarrow> (\<And>x. K x \<Longrightarrow> I x) \<Longrightarrow> moves K I' E m"
  by (simp add: moves_def)

lemma moves_post: "moves I K E m \<Longrightarrow> (\<And>x. K x \<Longrightarrow> I' x) \<Longrightarrow> moves I I' E m"
  unfolding moves_def by (blast intro: wp_mono)

lemma moves_read: "(\<And>x. moves I I' E (f x)) \<Longrightarrow> moves I I' E (State_Monad.bind get_obj f)"
  by (simp add: moves_def wp_simps)

lemma moves_try_or:
  "under I E m \<Longrightarrow> (\<And>x. I x \<Longrightarrow> I' x) \<Longrightarrow> (\<And>x. moves I I' E (k x)) \<Longrightarrow> moves I I' E (try_or m wrap k)"
  unfolding try_or_def by (intro moves_first moves_case_sum moves_ret) auto

lemma moves_check_or:
  "under I E m \<Longrightarrow> (\<And>x. I x \<Longrightarrow> I' x) \<Longrightarrow> moves I I' E k \<Longrightarrow> moves I I' E (check_or m wrap k)"
  unfolding check_or_def by (intro moves_first moves_case_option moves_ret) auto

text \<open>A call whose answer is known to be success.\<close>

lemma moves_call_ok:
  fixes k :: "('o, 'e, 'err + 'a) go"
  assumes "\<And>l. answer l = None" and "\<And>r. E (event r)" and "moves I I' E k"
  shows "moves I I' E (check_or (ask answer event) wrap k)"
  unfolding moves_def
proof (intro allI impI)
  fix s :: "('o, 'e) gst" assume "I (obj s)"
  with assms(3) have "wp k (\<lambda>_ s'. I' (obj s') \<and> (\<exists>es. log s' = log s @ event None # es \<and> list_all E (event None # es)))
      (s\<lparr>log := log s @ [event None]\<rparr>)"
    unfolding moves_def using assms(2) by (auto elim!: allE [where x = "s\<lparr>log := log s @ [event None]\<rparr>"] wp_mono)
  then show "wp (check_or (ask answer event) wrap k) (\<lambda>_ s'. I' (obj s') \<and> (\<exists>es. log s' = log s @ es \<and> list_all E es)) s"
    unfolding wp_check_or wp_ask assms(1) by (auto elim!: wp_mono)
qed

lemma moves_wp: "moves I I' E m \<Longrightarrow> I (obj s) \<Longrightarrow> wp m (\<lambda>_ s'. I' (obj s')) s"
  unfolding moves_def by (blast intro: wp_mono)

subsection \<open>Calls that follow other calls\<close>

text \<open>\<open>guarded E G es\<close>: in the trace \<open>es\<close> every call of kind \<open>E\<close> comes after one of kind \<open>G\<close>.\<close>

definition guarded :: "('e \<Rightarrow> bool) \<Rightarrow> ('e \<Rightarrow> bool) \<Rightarrow> 'e list \<Rightarrow> bool" where
  "guarded E G es \<longleftrightarrow> (\<forall>pre e post. es = pre @ e # post \<longrightarrow> E e \<longrightarrow> (\<exists>g \<in> set pre. G g))"

lemma guarded_without: "list_all (\<lambda>e. \<not> E e) es \<Longrightarrow> guarded E G es"
  by (auto simp: guarded_def)

lemma guarded_never:
  assumes "guarded E (\<lambda>_. False) es"
  shows "list_all (\<lambda>e. \<not> E e) es"
proof (unfold list_all_iff, intro ballI notI)
  fix e assume "e \<in> set es" "E e"
  then obtain pre post where "es = pre @ e # post" by (meson split_list)
  with assms \<open>E e\<close> show False unfolding guarded_def by blast
qed

lemma guarded_append:
  assumes "guarded E G es" and "guarded E G es'"
  shows "guarded E G (es @ es')"
  unfolding guarded_def
proof (intro allI impI)
  fix pre e post
  assume eq: "es @ es' = pre @ e # post" and "E e"
  from eq consider us where "es = pre @ e # us" | us where "pre = es @ us" "es' = us @ e # post"
  proof -
    from eq obtain us where "es = pre @ us \<and> us @ es' = e # post \<or> es @ us = pre \<and> es' = us @ e # post"
      by (auto simp: append_eq_append_conv2)
    with that show thesis by (cases us) auto
  qed
  then show "\<exists>g \<in> set pre. G g"
    by cases (use assms \<open>E e\<close> in \<open>fastforce simp: guarded_def\<close>)+
qed

lemma guarded_after:
  assumes "\<not> E g" and "G g"
  shows "guarded E G (g # es)"
  unfolding guarded_def
proof (intro allI impI)
  fix pre e post
  assume "g # es = pre @ e # post" and "E e"
  with assms(1) have "g \<in> set pre" by (cases pre) auto
  with assms(2) show "\<exists>g \<in> set pre. G g" by blast
qed

lemma guarded_behind:
  assumes "list_all (\<lambda>e. \<not> E e) es" and "g \<in> set es" and "G g"
  shows "guarded E G (es @ es')"
  unfolding guarded_def
proof (intro allI impI)
  fix pre e post assume eq: "es @ es' = pre @ e # post" and "E e"
  with assms(1) have "length es \<le> length pre"
    by (metis (no_types, lifting) in_set_conv_nth linorder_not_less list_all_length nth_append nth_append_length)
  with eq have "es = take (length es) pre" by (metis append_eq_append_conv_if append_take_drop_id append_eq_conv_conj)
  with assms(2,3) show "\<exists>g \<in> set pre. G g" by (metis in_set_takeD)
qed

definition guards :: "('e \<Rightarrow> bool) \<Rightarrow> ('e \<Rightarrow> bool) \<Rightarrow> ('o, 'e, 'a) go \<Rightarrow> ('o, 'e) gst \<Rightarrow> bool" where
  "guards E G m s \<longleftrightarrow> wp m (\<lambda>_ s'. \<exists>es. log s' = log s @ es \<and> guarded E G es) s"

lemma guards_without: "emits (\<lambda>e. \<not> E e) m \<Longrightarrow> guards E G m s"
  unfolding guards_def emits_def by (blast intro: wp_mono guarded_without)

lemma guards_ret: "guards E G (ret a) s"
  by (simp add: guards_def wp_ret guarded_def)

lemma guards_if:
  "(b \<Longrightarrow> guards E G m s) \<Longrightarrow> (\<not> b \<Longrightarrow> guards E G n s) \<Longrightarrow> guards E G (if b then m else n) s"
  by simp

lemma guards_bind:
  assumes "guards E G m s" and "\<And>a t. guards E G (f a) t"
  shows "guards E G (State_Monad.bind m f) s"
  unfolding guards_def
proof (rule wp_bindI [OF assms(1) [unfolded guards_def]], elim exE conjE)
  fix a es and t :: "('b, 'a) gst"
  assume t: "log t = log s @ es" "guarded E G es"
  show "wp (f a) (\<lambda>_ s'. \<exists>es. log s' = log s @ es \<and> guarded E G es) t"
    by (rule wp_mono [OF assms(2) [unfolded guards_def]]) (use t guarded_append in fastforce)
qed

lemma guards_try_or:
  assumes "guards E G m s" and "\<And>x t. guards E G (k x) t"
  shows "guards E G (try_or m wrap k) s"
  unfolding try_or_def
  by (rule guards_bind [OF assms(1)])
     (auto split: sum.split intro: assms(2) guards_without emits_ret)

lemma guards_modify:
  "guards E G m (s\<lparr>obj := f (obj s)\<rparr>) \<Longrightarrow> guards E G (do { _ \<leftarrow> modify_obj f; m }) s"
  by (simp add: guards_def wp_simps)

lemma guards_get: "guards E G (f (obj s)) s \<Longrightarrow> guards E G (State_Monad.bind get_obj f) s"
  by (simp add: guards_def wp_simps)

lemma guards_check:
  fixes k :: "('o, 'e, 'x + 'a) go"
  assumes e: "\<And>r. \<not> E (event r)" and k: "\<And>r. guards E G k (s\<lparr>log := log s @ [event r]\<rparr>)"
  shows "guards E G (check_or (ask answer event) wrap k) s"
proof -
  let ?r = "answer (log s)"
  have "wp k (\<lambda>_ s'. \<exists>es. log s' = log s @ es \<and> guarded E G es) (s\<lparr>log := log s @ [event ?r]\<rparr>)"
    using k [of ?r] unfolding guards_def
  proof (rule wp_mono, elim exE conjE)
    fix a and s' :: "('o, 'e) gst" and es
    assume "log s' = log (s\<lparr>log := log s @ [event ?r]\<rparr>) @ es" "guarded E G es"
    moreover have "guarded E G [event ?r]" using e by (simp add: guarded_without)
    ultimately show "\<exists>es. log s' = log s @ es \<and> guarded E G es"
      by (intro exI [of _ "[event ?r] @ es"]) (simp add: guarded_append del: append_Cons append_Nil)
  qed
  then show ?thesis
    using e by (cases "answer (log s)") (simp_all add: guards_def wp_simps guarded_without)
qed

lemma guards_run:
  assumes "guards E G m s" and "run_state m s = (a, s')"
  obtains es where "log s' = log s @ es" and "guarded E G es"
  using assms by (auto simp: guards_def wp_def)


text \<open>A first step under an invariant, and what it returns.\<close>

lemma guards_under_bind:
  assumes "under I (\<lambda>e. \<not> E e) m" and "I (obj s)" and "always (\<lambda>a _. V a) m"
    and "\<And>a t. I (obj t) \<Longrightarrow> V a \<Longrightarrow> guards E G (f a) t"
  shows "guards E G (State_Monad.bind m f) s"
  unfolding guards_def
proof -
  have "wp m (\<lambda>a t. V a \<and> I (obj t) \<and> (\<exists>es. log t = log s @ es \<and> list_all (\<lambda>e. \<not> E e) es)) s"
    using assms(1) [unfolded under_def, THEN spec, THEN mp, OF assms(2)]
    by (rule wp_conj [OF always_wp [OF assms(3)]])
  then show "wp (State_Monad.bind m f) (\<lambda>_ s'. \<exists>es. log s' = log s @ es \<and> guarded E G es) s"
  proof (rule wp_bindI, elim conjE exE)
    fix a es and t :: "('a, 'b) gst"
    assume t: "V a" "I (obj t)" "log t = log s @ es" "list_all (\<lambda>e. \<not> E e) es"
    show "wp (f a) (\<lambda>_ s'. \<exists>es. log s' = log s @ es \<and> guarded E G es) t"
      using assms(4) [OF t(2,1)] unfolding guards_def
      by (rule wp_mono) (use t guarded_append [OF guarded_without [OF t(4)]] in auto)
  qed
qed

lemma always_true: "always (\<lambda>_ _. True) m"
  by (simp add: always_def wpI)

lemma guards_under_try_or:
  assumes "under I (\<lambda>e. \<not> E e) m" and "I (obj s)" and "always (\<lambda>a _. V a) m"
    and "\<And>x t. I (obj t) \<Longrightarrow> V (Inr x) \<Longrightarrow> guards E G (k x) t"
  shows "guards E G (try_or m wrap k) s"
  unfolding try_or_def
  by (rule guards_under_bind [OF assms(1-3)])
     (auto split: sum.split intro: assms(4) guards_without emits_ret)

lemma guards_under_check_or:
  assumes "under I (\<lambda>e. \<not> E e) m" and "I (obj s)" and "\<And>t. I (obj t) \<Longrightarrow> guards E G k t"
  shows "guards E G (check_or m wrap k) s"
  unfolding check_or_def
  by (rule guards_under_bind [OF assms(1,2) always_true])
     (auto split: option.split intro: assms(3) guards_without emits_ret)

lemma under_weaken: "under I E m \<Longrightarrow> (\<And>e. E e \<Longrightarrow> E' e) \<Longrightarrow> under I E' m"
  unfolding under_def by (blast intro: wp_mono list.pred_mono_strong)

lemma guards_under:
  assumes "under I (\<lambda>e. \<not> E e) m" and "I (obj s)"
  shows "guards E G m s"
  unfolding guards_def using assms(1) [unfolded under_def, THEN spec, THEN mp, OF assms(2)]
  by (rule wp_mono) (auto intro: guarded_without)

text \<open>A step whose success is the evidence: anything may follow.\<close>

lemma guards_evidence_bind:
  assumes "wp m (\<lambda>a s'. \<exists>es. log s' = log s @ es \<and> list_all (\<lambda>e. \<not> E e) es \<and> (V a \<longrightarrow> (\<exists>g \<in> set es. G g))) s"
    and "\<And>a. V a \<Longrightarrow> emits (\<lambda>_. True) (f a)" and "\<And>a t. \<not> V a \<Longrightarrow> guards E G (f a) t"
  shows "guards E G (State_Monad.bind m f) s"
  unfolding guards_def
proof (rule wp_bindI [OF assms(1)], elim exE conjE)
  fix a es and t :: "('a, 'b) gst"
  assume t: "log t = log s @ es" "list_all (\<lambda>e. \<not> E e) es" "V a \<longrightarrow> (\<exists>g \<in> set es. G g)"
  show "wp (f a) (\<lambda>_ s'. \<exists>es. log s' = log s @ es \<and> guarded E G es) t"
  proof (cases "V a")
    case True
    with t(3) obtain g where g: "g \<in> set es" "G g" by blast
    have "wp (f a) (\<lambda>_ s'. \<exists>es'. log s' = log t @ es' \<and> list_all (\<lambda>_. True) es') t"
      using assms(2) [OF True] by (simp add: emits_def)
    with t(1) guarded_behind [of E es g G, OF t(2) g] show ?thesis
      by (auto elim!: wp_mono)
  next
    case False
    from assms(3) [OF this, of t, unfolded guards_def] show ?thesis
      by (rule wp_mono) (use t guarded_append [OF guarded_without [OF t(2)]] in auto)
  qed
qed

lemma guards_evidence:
  assumes "wp m (\<lambda>a s'. \<exists>es. log s' = log s @ es \<and> list_all (\<lambda>e. \<not> E e) es \<and> (a = None \<longrightarrow> (\<exists>g \<in> set es. G g))) s"
    and "emits (\<lambda>_. True) k"
  shows "guards E G (check_or m wrap k) s"
  unfolding check_or_def
  by (rule guards_evidence_bind [where V = "\<lambda>a. a = None", OF assms(1)])
     (auto simp: assms(2) guards_ret split: option.split)

subsection \<open>Relations that every step of a handler respects\<close>

text \<open>A relation between the states before and after that is reflexive, transitive and blind to
  the log is respected by a handler as soon as each of its updates respects it.\<close>

locale stepwise =
  fixes R :: "('o, 'e) gst \<Rightarrow> ('o, 'e) gst \<Rightarrow> bool"
  assumes R_trans: "R s t \<Longrightarrow> R t u \<Longrightarrow> R s u"
    and R_call: "R s (s\<lparr>log := log s @ es\<rparr>)"
begin

definition steps :: "('o, 'e, 'a) go \<Rightarrow> bool" where
  "steps m \<longleftrightarrow> (\<forall>s. wp m (\<lambda>_. R s) s)"

lemma R_refl: "R s s"
  using R_call [of s "[]"] by simp

lemma steps_ret: "steps (ret a)"
  by (simp add: steps_def wp_ret R_refl)

lemma steps_get: "steps get_obj"
  by (simp add: steps_def wp_get_obj R_refl)

lemma steps_ask: "steps (ask answer event)"
  by (simp add: steps_def wp_ask R_call)

lemma steps_modify: "(\<And>s. R s (s\<lparr>obj := f (obj s)\<rparr>)) \<Longrightarrow> steps (modify_obj f)"
  by (simp add: steps_def wp_modify_obj)

lemma steps_bind:
  assumes "steps m" and "\<And>a. steps (f a)"
  shows "steps (State_Monad.bind m f)"
  unfolding steps_def
proof (intro allI, rule wp_bindI)
  fix s show "wp m (\<lambda>_. R s) s" using assms(1) by (simp add: steps_def)
next
  fix s a t assume "R s t"
  with assms(2) [of a] show "wp (f a) (\<lambda>_. R s) t"
    unfolding steps_def by (blast intro: wp_mono R_trans)
qed

lemma steps_if: "(b \<Longrightarrow> steps m) \<Longrightarrow> (\<not> b \<Longrightarrow> steps n) \<Longrightarrow> steps (if b then m else n)"
  by simp

lemma steps_case_sum:
  "(\<And>x. steps (f x)) \<Longrightarrow> (\<And>y. steps (g y)) \<Longrightarrow> steps (case r of Inl x \<Rightarrow> f x | Inr y \<Rightarrow> g y)"
  by (simp split: sum.split)

lemma steps_case_option:
  "steps f \<Longrightarrow> (\<And>y. steps (g y)) \<Longrightarrow> steps (case r of None \<Rightarrow> f | Some y \<Rightarrow> g y)"
  by (simp split: option.split)

lemma steps_case_prod: "(\<And>x y. steps (f x y)) \<Longrightarrow> steps (case r of (x, y) \<Rightarrow> f x y)"
  by (simp split: prod.split)

lemma steps_try_or: "steps m \<Longrightarrow> (\<And>x. steps (k x)) \<Longrightarrow> steps (try_or m wrap k)"
  unfolding try_or_def by (intro steps_bind steps_case_sum steps_ret)

lemma steps_check_or: "steps m \<Longrightarrow> steps k \<Longrightarrow> steps (check_or m wrap k)"
  unfolding check_or_def by (intro steps_bind steps_case_option steps_ret)

lemma steps_kept:
  assumes "keeps m" and "emits (\<lambda>_. True) m"
  shows "steps m"
  unfolding steps_def by (intro allI wp_opaque [OF assms(2,1)] R_call)

lemma steps_run: "steps m \<Longrightarrow> run_state m s = (a, s') \<Longrightarrow> R s s'"
  by (auto simp: steps_def dest: wp_run)

lemmas steps_intros = steps_ret steps_get steps_ask steps_bind steps_if steps_case_sum
  steps_case_option steps_case_prod steps_try_or steps_check_or

end


subsection \<open>Properties of the calls of a run\<close>

text \<open>A property of call sequences that holds of none and of two in a row holds of a run as soon as
  it holds of each call or of each part.\<close>

locale trace_law =
  fixes P :: "'e list \<Rightarrow> bool"
  assumes P_nil: "P []" and P_append: "P es \<Longrightarrow> P es' \<Longrightarrow> P (es @ es')"
begin

definition tracks :: "('o, 'e, 'a) go \<Rightarrow> bool" where
  "tracks m \<longleftrightarrow> (\<forall>s. wp m (\<lambda>_ s'. \<exists>es. log s' = log s @ es \<and> P es) s)"

lemma tracks_ret: "tracks (ret a)"
  by (simp add: tracks_def wp_ret P_nil)

lemma tracks_get: "tracks get_obj"
  by (simp add: tracks_def wp_get_obj P_nil)

lemma tracks_modify: "tracks (modify_obj f)"
  by (simp add: tracks_def wp_modify_obj P_nil)

lemma tracks_ask: "(\<And>r. P [event r]) \<Longrightarrow> tracks (ask answer event)"
  by (simp add: tracks_def wp_ask)

lemma tracks_bind:
  fixes m :: "('o, 'e, 'a) go"
  assumes "tracks m" and "\<And>a. tracks (f a)"
  shows "tracks (State_Monad.bind m f)"
  unfolding tracks_def
proof (intro allI, rule wp_bindI)
  fix s show "wp m (\<lambda>_ s'. \<exists>es. log s' = log s @ es \<and> P es) s" using assms(1) by (simp add: tracks_def)
next
  fix s a and t :: "('o, 'e) gst" assume "\<exists>es. log t = log s @ es \<and> P es"
  then obtain es where t: "log t = log s @ es" "P es" by blast
  have "wp (f a) (\<lambda>_ s'. \<exists>es'. log s' = log t @ es' \<and> P es') t"
    using assms(2) [of a] by (simp add: tracks_def)
  then show "wp (f a) (\<lambda>_ s'. \<exists>es. log s' = log s @ es \<and> P es) t"
    by (rule wp_mono) (use t P_append in auto)
qed

lemma tracks_if: "(b \<Longrightarrow> tracks m) \<Longrightarrow> (\<not> b \<Longrightarrow> tracks n) \<Longrightarrow> tracks (if b then m else n)"
  by simp

lemma tracks_case_sum:
  "(\<And>x. tracks (f x)) \<Longrightarrow> (\<And>y. tracks (g y)) \<Longrightarrow> tracks (case r of Inl x \<Rightarrow> f x | Inr y \<Rightarrow> g y)"
  by (simp split: sum.split)

lemma tracks_case_option:
  "tracks f \<Longrightarrow> (\<And>y. tracks (g y)) \<Longrightarrow> tracks (case r of None \<Rightarrow> f | Some y \<Rightarrow> g y)"
  by (simp split: option.split)

lemma tracks_case_prod: "(\<And>x y. tracks (f x y)) \<Longrightarrow> tracks (case r of (x, y) \<Rightarrow> f x y)"
  by (simp split: prod.split)

lemma tracks_try_or: "tracks m \<Longrightarrow> (\<And>x. tracks (k x)) \<Longrightarrow> tracks (try_or m wrap k)"
  unfolding try_or_def by (intro tracks_bind tracks_case_sum tracks_ret)

lemma tracks_check_or: "tracks m \<Longrightarrow> tracks k \<Longrightarrow> tracks (check_or m wrap k)"
  unfolding check_or_def by (intro tracks_bind tracks_case_option tracks_ret)

lemma P_all: "(\<And>e. e \<in> set es \<Longrightarrow> P [e]) \<Longrightarrow> P es"
proof (induction es)
  case (Cons e es)
  then have "P [e]" "P es" by auto
  from P_append [OF this] show ?case by simp
qed (rule P_nil)

lemma tracks_emits: "emits E m \<Longrightarrow> (\<And>e. E e \<Longrightarrow> P [e]) \<Longrightarrow> tracks m"
  unfolding tracks_def
  by (intro allI wp_mono [OF emits_wp], assumption) (auto simp: list_all_iff intro: P_all)

lemma tracks_run: "tracks m \<Longrightarrow> run_state m s = (a, s') \<Longrightarrow> \<exists>es. log s' = log s @ es \<and> P es"
  by (auto simp: tracks_def dest: wp_run)

lemmas tracks_intros = tracks_ret tracks_get tracks_modify tracks_bind tracks_if tracks_case_sum
  tracks_case_option tracks_case_prod tracks_try_or tracks_check_or

end

end
