(* ===== verification/Errors.thy ===== *)
theory Errors
  imports Prelude
begin

text \<open>
  The error values of the controllers: the sentinels of \<open>pkg/controller/errors.go\<close> and
  of the other files of the package, the error kinds that the Kubernetes and gRPC clients
  return and the program inspects, and wrapping by \<open>fmt.Errorf\<close> with \<open>%w\<close>.
  \<open>errors_is\<close> is \<open>errors.Is\<close>, \<open>error_text\<close> is \<open>Error()\<close>.
\<close>

text \<open>The reason of a Kubernetes API status error and the code of a gRPC error, as far as
  the program distinguishes them.\<close>

datatype api_reason = NotFound | Conflict | OtherReason string

datatype grpc_code = PermissionDenied | OtherCode string

datatype sentinel =
    BootstrapDataNotReady
  | BootstrapDataEmpty
  | ClusterTalosConfigNotReady
  | NoResetCredentials
  | JoinBundleMismatch
  | JoinNoCredentials
  | VersionProbeEmpty
  | VersionProbeNoInfo
  | NoHostAvailable
  | NoSystemDisk
  | BootIDUnauthorized
  | WorkloadNodePending
  | RequeueKubeconfigPending

datatype goerr =
    Sentinel sentinel
  | UpgradeExitCodeError int string
  | ErrClusterNotConnected
  | ApiError api_reason string
  | GrpcError grpc_code string
  | ExtError string
  | Wrapf string goerr string

abbreviation ErrBootstrapDataNotReady :: goerr where
  "ErrBootstrapDataNotReady \<equiv> Sentinel BootstrapDataNotReady"

abbreviation ErrBootstrapDataEmpty :: goerr where
  "ErrBootstrapDataEmpty \<equiv> Sentinel BootstrapDataEmpty"

abbreviation ErrClusterTalosConfigNotReady :: goerr where
  "ErrClusterTalosConfigNotReady \<equiv> Sentinel ClusterTalosConfigNotReady"

abbreviation ErrNoResetCredentials :: goerr where
  "ErrNoResetCredentials \<equiv> Sentinel NoResetCredentials"

abbreviation ErrJoinBundleMismatch :: goerr where
  "ErrJoinBundleMismatch \<equiv> Sentinel JoinBundleMismatch"

abbreviation ErrJoinNoCredentials :: goerr where
  "ErrJoinNoCredentials \<equiv> Sentinel JoinNoCredentials"

abbreviation ErrVersionProbeEmpty :: goerr where
  "ErrVersionProbeEmpty \<equiv> Sentinel VersionProbeEmpty"

abbreviation ErrVersionProbeNoInfo :: goerr where
  "ErrVersionProbeNoInfo \<equiv> Sentinel VersionProbeNoInfo"

abbreviation ErrNoHostAvailable :: goerr where
  "ErrNoHostAvailable \<equiv> Sentinel NoHostAvailable"

abbreviation ErrNoSystemDisk :: goerr where
  "ErrNoSystemDisk \<equiv> Sentinel NoSystemDisk"

abbreviation ErrBootIDUnauthorized :: goerr where
  "ErrBootIDUnauthorized \<equiv> Sentinel BootIDUnauthorized"

abbreviation ErrWorkloadNodePending :: goerr where
  "ErrWorkloadNodePending \<equiv> Sentinel WorkloadNodePending"

abbreviation ErrRequeueKubeconfigPending :: goerr where
  "ErrRequeueKubeconfigPending \<equiv> Sentinel RequeueKubeconfigPending"

type_synonym 'a res = "goerr + 'a"

primrec sentinel_text :: "sentinel \<Rightarrow> string" where
  "sentinel_text BootstrapDataNotReady = ''bootstrap data not ready''"
| "sentinel_text BootstrapDataEmpty = ''bootstrap data secret is empty''"
| "sentinel_text ClusterTalosConfigNotReady = ''talosconfig secret not ready''"
| "sentinel_text NoResetCredentials = ''no credential candidates available to reset machine''"
| "sentinel_text JoinBundleMismatch =
     ''machine carries a different cluster bundle: set '' @
     ''spec.joinPolicy=Reset to wipe it before adoption, or pre-clean it manually''"
| "sentinel_text JoinNoCredentials =
     ''machine is already configured and no usable talosconfig '' @
     ''is available: provide a talosconfig via spec.talosConfigSecretRef to '' @
     ''authenticate the machine, or manually put it back in maintenance mode''"
| "sentinel_text VersionProbeEmpty = ''version probe returned no messages''"
| "sentinel_text VersionProbeNoInfo = ''version probe returned no version info''"
| "sentinel_text NoHostAvailable = ''no available ByotHost matches the claim criteria''"
| "sentinel_text NoSystemDisk = ''no system disk found''"
| "sentinel_text BootIDUnauthorized = ''boot-id read permission denied''"
| "sentinel_text WorkloadNodePending = ''workload node not registered''"
| "sentinel_text RequeueKubeconfigPending = ''kubeconfig secret not yet available''"

primrec error_text :: "goerr \<Rightarrow> string" where
  "error_text (Sentinel x) = sentinel_text x"
| "error_text (UpgradeExitCodeError code msg) =
     ''upgrade stream exited with code '' @ format_int code @ '': '' @ msg"
| "error_text ErrClusterNotConnected = ''connection to the workload cluster is down''"
| "error_text (ApiError r txt) = txt"
| "error_text (GrpcError c txt) = txt"
| "error_text (ExtError txt) = txt"
| "error_text (Wrapf pre e suf) = pre @ error_text e @ suf"

text \<open>\<open>fmt.Errorf(prefix + ": %w", err)\<close>.\<close>

definition errorf :: "string \<Rightarrow> goerr \<Rightarrow> goerr" where
  "errorf pre e = Wrapf (pre @ '': '') e []"

text \<open>The error below all wrappings, and the comparison with every error of the chain.\<close>

primrec unwrap_all :: "goerr \<Rightarrow> goerr" where
  "unwrap_all (Wrapf pre e suf) = unwrap_all e"
| "unwrap_all (Sentinel x) = Sentinel x"
| "unwrap_all (UpgradeExitCodeError c m) = UpgradeExitCodeError c m"
| "unwrap_all ErrClusterNotConnected = ErrClusterNotConnected"
| "unwrap_all (ApiError r t) = ApiError r t"
| "unwrap_all (GrpcError c t) = GrpcError c t"
| "unwrap_all (ExtError t) = ExtError t"

primrec error_chain :: "goerr \<Rightarrow> goerr list" where
  "error_chain (Wrapf pre e suf) = Wrapf pre e suf # error_chain e"
| "error_chain (Sentinel x) = [Sentinel x]"
| "error_chain (UpgradeExitCodeError c m) = [UpgradeExitCodeError c m]"
| "error_chain ErrClusterNotConnected = [ErrClusterNotConnected]"
| "error_chain (ApiError r t) = [ApiError r t]"
| "error_chain (GrpcError c t) = [GrpcError c t]"
| "error_chain (ExtError t) = [ExtError t]"

definition errors_is :: "goerr \<Rightarrow> goerr \<Rightarrow> bool" where
  "errors_is e target \<longleftrightarrow> target \<in> set (error_chain e)"

text \<open>
  \<open>apierrors.IsNotFound\<close> and \<open>apierrors.IsConflict\<close> look through the wrapping for
  the API status and compare its reason; \<open>status.Code\<close> reads the code of the gRPC
  error likewise.
\<close>

definition api_reason_of :: "goerr \<Rightarrow> api_reason option" where
  "api_reason_of e = (case unwrap_all e of ApiError r _ \<Rightarrow> Some r | _ \<Rightarrow> None)"

definition is_not_found :: "goerr \<Rightarrow> bool" where
  "is_not_found e \<longleftrightarrow> api_reason_of e = Some NotFound"

definition is_conflict :: "goerr \<Rightarrow> bool" where
  "is_conflict e \<longleftrightarrow> api_reason_of e = Some Conflict"

definition is_permission_denied :: "goerr \<Rightarrow> bool" where
  "is_permission_denied e = (case unwrap_all e of GrpcError c _ \<Rightarrow> c = PermissionDenied | _ \<Rightarrow> False)"

lemma errors_is_refl [simp]: "errors_is e e"
  by (cases e) (auto simp: errors_is_def)

lemma errors_is_errorf: "errors_is e target \<Longrightarrow> errors_is (errorf pre e) target"
  by (simp add: errorf_def errors_is_def)

lemma unwrap_all_errorf [simp]: "unwrap_all (errorf pre e) = unwrap_all e"
  by (simp add: errorf_def)

lemma is_not_found_errorf [simp]: "is_not_found (errorf pre e) = is_not_found e"
  by (simp add: is_not_found_def api_reason_of_def)

lemma is_conflict_errorf [simp]: "is_conflict (errorf pre e) = is_conflict e"
  by (simp add: is_conflict_def api_reason_of_def)

lemma errors_is_sentinel:
  assumes "\<And>pre e' suf. target \<noteq> Wrapf pre e' suf"
  shows "errors_is e target \<longleftrightarrow> unwrap_all e = target"
  using assms by (induction e) (auto simp: errors_is_def)

lemma error_text_errorf: "error_text (errorf pre e) = pre @ '': '' @ error_text e"
  by (simp add: errorf_def)

text \<open>A sentinel is recognised through any number of wrappings, and only where it is the
  innermost error; it is never mistaken for an API status.\<close>

lemma not_found_not_sentinel:
  "is_not_found e \<Longrightarrow> \<not> errors_is e ErrClusterTalosConfigNotReady"
  by (auto simp: is_not_found_def api_reason_of_def errors_is_sentinel)

end
