(* ===== verification/Types.thy ===== *)
theory Types
  imports Errors
begin

text \<open>
  The API types of \<open>api/v1alpha1\<close> (ByotHost, ByotMachine, ByotCluster), and the
  fields the controllers read or write of the Kubernetes, Cluster API and Talos objects.
  Pointers to optional values are options, Go maps are finite maps. Resource quantities
  are kept as their canonical text and read through the library record of theory World.
\<close>

type_synonym string_map = "(string, string) fmap"
type_synonym quantity = string
type_synonym endpoints = "string list"

section \<open>Object metadata and conditions\<close>

record object_meta =
  oName :: string
  oNamespace :: string
  oUID :: string
  oGeneration :: int
  oResourceVersion :: string
  oLabels :: string_map
  oAnnotations :: string_map
  oFinalizers :: "string list"
  oDeletionTimestamp :: "int option"

type_synonym object_key = "string \<times> string" \<comment> \<open>namespace and name\<close>

definition key_of :: "object_meta \<Rightarrow> object_key" where
  "key_of m = (oNamespace m, oName m)"

datatype cond_status = CondTrue | CondFalse | CondUnknown

datatype severity = SevNone | SevInfo | SevWarning | SevError

record condition =
  cType :: string
  cStatus :: cond_status
  cReason :: string
  cSeverity :: severity
  cMessage :: string

type_synonym conditions = "condition list"

section \<open>ByotHost\<close>

datatype host_phase =
    PhaseUnset | Probing | Available | Claimed | Releasing | Unavailable | OtherPhase string

record host_claim_ref =
  crKind :: string
  crName :: string
  crNamespace :: string
  crUID :: string

record host_cpu =
  cores :: int
  packages :: int
  numaNodes :: int

record host_disk =
  dName :: string
  dSize :: quantity
  dType :: string
  dModel :: string
  dSystemDisk :: bool
  dBusPath :: string

record host_identity =
  systemUUID :: string
  serialNumber :: string
  manufacturer :: string
  productName :: string
  hardwareAddr :: string

record host_gpu =
  gVendor :: string
  gModel :: string
  gDeviceID :: string
  gMemoryPerGPU :: quantity
  gCount :: int
  gTotalMemory :: quantity
  gMixed :: bool

record host_hardware =
  hwCPU :: host_cpu
  hwMemory :: quantity
  hwDisks :: "host_disk list"
  hwNetworkInterfaces :: "string list"
  hwExternalIP :: string
  hwInternalIP :: string
  hwGPUs :: "host_gpu option"

record byot_host_spec =
  hPublicIP :: string
  hFailureDomain :: "string option"

record byot_host_status =
  hPhase :: host_phase
  hTalosVersion :: string
  hArch :: string
  hPlatform :: string
  hHardware :: "host_hardware option"
  hIdentity :: "host_identity option"
  hMaintenanceMode :: bool
  hClaimRef :: "host_claim_ref option"
  hProbeFailureCount :: int
  hLastProbedAt :: "int option"
  hConditions :: conditions

record byot_host =
  hMeta :: object_meta
  hSpec :: byot_host_spec
  hStatus :: byot_host_status

definition HostDiscoveredCondition :: string where
  "HostDiscoveredCondition = ''Discovered''"

definition HostMaintenanceProbeCondition :: string where
  "HostMaintenanceProbeCondition = ''MaintenanceProbe''"

definition HostDiscoveredReasonMixedGPUModels :: string where
  "HostDiscoveredReasonMixedGPUModels = ''MixedGPUModels''"

section \<open>ByotMachine\<close>

definition ProviderIDPrefix :: string where
  "ProviderIDPrefix = ''byot://''"

datatype upgrade_state = NoUpgrade | InFlight | UpgradeFailed | OtherUpgradeState string

datatype machine_address_type = MachineExternalIP | MachineInternalIP

type_synonym label_selector = string \<comment> \<open>the serialized selector; interpreted by the API machinery\<close>

record byot_machine_spec =
  mHostRef :: "string option"
  mHostSelector :: "label_selector option"
  mTalosConfigSecretRef :: "string option"
  mProviderID :: "string option"
  mFailureDomain :: "string option"
  mDesiredTalosVersion :: "string option"
  mInstallDisk :: "string option"

record byot_machine_status =
  mReady :: bool
  mResolvedHost :: string
  mResolvedPublicIP :: string
  mResolvedInternalIP :: string
  mLastAppliedConfigSHA :: string
  mNodeUpdated :: bool
  mAddresses :: "(machine_address_type \<times> string) list"
  mConditions :: conditions
  mCurrentTalosVersion :: string
  mUpgradeState :: upgrade_state
  mUpgradeProbeFailures :: int
  mUpgradeAttemptGeneration :: int
  mUpgradeAppliedImageRef :: string
  mUpgradePreRebootBootID :: string

record byot_machine =
  mMeta :: object_meta
  mSpec :: byot_machine_spec
  mStatus :: byot_machine_status

section \<open>ByotCluster\<close>

record byot_cluster =
  bcMeta :: object_meta
  bcReady :: bool
  bcConditions :: conditions

section \<open>Objects of other API groups\<close>

text \<open>Cluster API's Machine and Cluster, core Secrets and Nodes: only what is used.\<close>

record capi_machine =
  cmMeta :: object_meta
  cmClusterName :: string
  cmDataSecretName :: "string option"
  cmNodeRef :: "string option"

record capi_cluster =
  ccConditions :: conditions

type_synonym secret_data = "(string, bytes) fmap"

record taint =
  tKey :: string
  tValue :: string
  tEffect :: string

record node =
  nName :: string
  nLabels :: string_map
  nProviderID :: string
  nTaints :: "taint list"

section \<open>Talos messages\<close>

record talos_disk =
  tdDeviceName :: string
  tdName :: string
  tdSize :: int \<comment> \<open>uint64\<close>
  tdType :: string
  tdModel :: string
  tdSystemDisk :: bool
  tdBusPath :: string

record version_info =
  viTag :: string
  viArch :: string

section \<open>Reconcile results\<close>

record ctrl_result =
  requeue :: bool
  requeueAfter :: int

definition no_result :: ctrl_result where
  "no_result = \<lparr>requeue = False, requeueAfter = 0\<rparr>"

definition requeue_after :: "int \<Rightarrow> ctrl_result" where
  "requeue_after d = \<lparr>requeue = False, requeueAfter = d\<rparr>"

definition requeue_now :: ctrl_result where
  "requeue_now = \<lparr>requeue = True, requeueAfter = 0\<rparr>"

definition wants_requeue :: "ctrl_result \<Rightarrow> bool" where
  "wants_requeue r \<longleftrightarrow> requeue r \<or> 0 < requeueAfter r"

lemma wants_requeue_simps [simp]:
  "\<not> wants_requeue no_result"
  "wants_requeue (requeue_after d) \<longleftrightarrow> 0 < d"
  "wants_requeue requeue_now"
  by (simp_all add: wants_requeue_def no_result_def requeue_after_def requeue_now_def)

lemma result_distinct [simp]:
  "requeue_now \<noteq> no_result" "no_result \<noteq> requeue_now"
  "requeue_after d = no_result \<longleftrightarrow> d = 0" "no_result = requeue_after d \<longleftrightarrow> d = 0"
  "requeue_now \<noteq> requeue_after d" "requeue_after d \<noteq> requeue_now"
  "requeue_after d = requeue_after d' \<longleftrightarrow> d = d'"
  by (auto simp: no_result_def requeue_after_def requeue_now_def)

text \<open>Durations are nanoseconds.\<close>

definition seconds :: "int \<Rightarrow> int" where
  "seconds n = n * 1000000000"

section \<open>Field updates used throughout\<close>

abbreviation upd_hstatus :: "(byot_host_status \<Rightarrow> byot_host_status) \<Rightarrow> byot_host \<Rightarrow> byot_host" where
  "upd_hstatus \<equiv> hStatus_update"

abbreviation upd_mstatus ::
  "(byot_machine_status \<Rightarrow> byot_machine_status) \<Rightarrow> byot_machine \<Rightarrow> byot_machine" where
  "upd_mstatus \<equiv> mStatus_update"

definition claimed_by :: "string \<Rightarrow> byot_host \<Rightarrow> bool" where
  "claimed_by uid h \<longleftrightarrow> (\<exists>c. hClaimRef (hStatus h) = Some c \<and> crUID c = uid)"

lemma claimed_by_code [code]:
  "claimed_by uid h = (case hClaimRef (hStatus h) of None \<Rightarrow> False | Some c \<Rightarrow> crUID c = uid)"
  by (simp add: claimed_by_def split: option.split)

text \<open>\<open>claimRef != nil && claimRef.UID != uid\<close>: the host is held by another machine.\<close>

definition claimed_elsewhere :: "string \<Rightarrow> byot_host \<Rightarrow> bool" where
  "claimed_elsewhere uid h =
     (case hClaimRef (hStatus h) of None \<Rightarrow> False | Some c \<Rightarrow> crUID c \<noteq> uid)"

lemma claimed_elsewhere_iff:
  "claimed_elsewhere uid h \<longleftrightarrow> hClaimRef (hStatus h) \<noteq> None \<and> \<not> claimed_by uid h"
  by (auto simp: claimed_elsewhere_def claimed_by_def split: option.split)

end
