(* ===== verification/World.thy ===== *)
theory World
  imports Types
begin

text \<open>
  Everything outside the repository, as parameters of the model: the pure library functions
  the program calls (record \<open>lib\<close>: Cluster API's condition and finalizer helpers,
  resource quantities, label validation, YAML decoding, SHA-256), the Kubernetes API
  (record \<open>kube\<close>) and the Talos machine API (record \<open>env\<close>). A remote call's answer
  is a function of the log of the calls before it; performing it (\<open>ask\<close>) appends an
  event that carries the arguments and the answer.

  Hypotheses on these parameters, where a property needs any, are the predicates
  \<open>cond_laws\<close>, \<open>finalizer_laws\<close> and \<open>quantity_laws\<close> below, which state the
  documented behaviour of the Cluster API and apimachinery helpers.
\<close>

section \<open>Library functions\<close>

text \<open>Decoded YAML values: \<open>map[string]any\<close>, \<open>[]any\<close> and scalars. A YAML document is
  decoded into a map variable, which stays nil (\<open>None\<close>) for an empty document.\<close>

datatype yany =
    YNull
  | YStr string
  | YInt int
  | YBool bool
  | YFloat string
  | YSeq "yany list"
  | YMap "(string, yany) fmap"

type_synonym ydoc = "(string, yany) fmap option"

text \<open>A server stream: the messages received, then io.EOF (\<open>None\<close>) or a receive error.
  Every stream of the program is opened under a context with a deadline, so it ends.\<close>

record 'm stream =
  msgs :: "'m list"
  finish :: "goerr option"

record lib =
  l_mark_true :: "conditions \<Rightarrow> string \<Rightarrow> conditions"
  l_mark_false :: "conditions \<Rightarrow> string \<Rightarrow> string \<Rightarrow> severity \<Rightarrow> string \<Rightarrow> conditions"
  l_cond_set :: "conditions \<Rightarrow> condition \<Rightarrow> conditions"
  l_cond_is_true :: "conditions \<Rightarrow> string \<Rightarrow> bool"
  l_contains_finalizer :: "string list \<Rightarrow> string \<Rightarrow> bool"
  l_add_finalizer :: "string list \<Rightarrow> string \<Rightarrow> string list \<times> bool"
  l_remove_finalizer :: "string list \<Rightarrow> string \<Rightarrow> string list \<times> bool"
  l_quantity_value :: "quantity \<Rightarrow> int"
  l_quantity_is_zero :: "quantity \<Rightarrow> bool"
  l_new_quantity :: "int \<Rightarrow> quantity" \<comment> \<open>\<open>NewQuantity(_, BinarySI)\<close>\<close>
  l_parse_quantity :: "string \<Rightarrow> quantity" \<comment> \<open>\<open>MustParse\<close>\<close>
  l_zero_quantity :: quantity \<comment> \<open>the zero value of \<open>resource.Quantity\<close>\<close>
  l_qualified_name_errors :: "string \<Rightarrow> string list"
  l_label_value_errors :: "string \<Rightarrow> string list"
  l_yaml_stream :: "bytes \<Rightarrow> ydoc stream"
  l_yaml_encode_doc :: "ydoc \<Rightarrow> bytes res"
  l_yaml_join :: "bytes list \<Rightarrow> bytes res" \<comment> \<open>\<open>Encoder.Close\<close> over the encoded documents\<close>
  l_selector_valid :: "label_selector option \<Rightarrow> goerr option"
  l_parse_talosconfig :: "bytes \<Rightarrow> goerr option"
  l_rest_config_host :: "bytes \<Rightarrow> string res"
  l_sha256 :: "bytes \<Rightarrow> bytes"

definition cond_laws :: "'z lib_scheme \<Rightarrow> bool" where
  "cond_laws L \<longleftrightarrow>
     (\<forall>cs t. l_cond_is_true L (l_mark_true L cs t) t) \<and>
     (\<forall>cs t r sv m. \<not> l_cond_is_true L (l_mark_false L cs t r sv m) t) \<and>
     (\<forall>cs t t'. t \<noteq> t' \<longrightarrow>
        l_cond_is_true L (l_mark_true L cs t) t' = l_cond_is_true L cs t') \<and>
     (\<forall>cs t t' r sv m. t \<noteq> t' \<longrightarrow>
        l_cond_is_true L (l_mark_false L cs t r sv m) t' = l_cond_is_true L cs t')"

definition finalizer_laws :: "'z lib_scheme \<Rightarrow> bool" where
  "finalizer_laws L \<longleftrightarrow>
     (\<forall>fs f. l_contains_finalizer L fs f = (f \<in> set fs)) \<and>
     (\<forall>fs f. set (fst (l_add_finalizer L fs f)) = insert f (set fs)) \<and>
     (\<forall>fs f. snd (l_add_finalizer L fs f) = (f \<notin> set fs)) \<and>
     (\<forall>fs f. set (fst (l_remove_finalizer L fs f)) = set fs - {f}) \<and>
     (\<forall>fs f. snd (l_remove_finalizer L fs f) = (f \<in> set fs))"

definition quantity_laws :: "'z lib_scheme \<Rightarrow> bool" where
  "quantity_laws L \<longleftrightarrow>
     (\<forall>n. l_quantity_value L (l_new_quantity L n) = n) \<and>
     (\<forall>q. l_quantity_is_zero L q = (l_quantity_value L q = 0)) \<and>
     l_quantity_value L (l_zero_quantity L) = 0"

lemma cond_laws_rules:
  assumes "cond_laws L"
  shows cond_true_marked: "l_cond_is_true L (l_mark_true L cs t) t"
    and cond_false_marked: "\<not> l_cond_is_true L (l_mark_false L cs t r sv m) t"
    and cond_true_other: "t \<noteq> t' \<Longrightarrow>
          l_cond_is_true L (l_mark_true L cs t) t' = l_cond_is_true L cs t'"
    and cond_false_other: "t \<noteq> t' \<Longrightarrow>
          l_cond_is_true L (l_mark_false L cs t r sv m) t' = l_cond_is_true L cs t'"
  using assms by (simp_all add: cond_laws_def)

lemma finalizer_laws_rules:
  assumes "finalizer_laws L"
  shows contains_finalizer_iff: "l_contains_finalizer L fs f \<longleftrightarrow> f \<in> set fs"
    and set_add_finalizer: "set (fst (l_add_finalizer L fs f)) = insert f (set fs)"
    and added_finalizer_iff: "snd (l_add_finalizer L fs f) \<longleftrightarrow> f \<notin> set fs"
    and set_remove_finalizer: "set (fst (l_remove_finalizer L fs f)) = set fs - {f}"
    and removed_finalizer_iff: "snd (l_remove_finalizer L fs f) \<longleftrightarrow> f \<in> set fs"
  using assms by (simp_all add: finalizer_laws_def)


section \<open>Clients and messages\<close>

text \<open>A Talos client: insecure (maintenance mode) or authenticated with a talosconfig.\<close>

record talos_client =
  tcTalosConfig :: "bytes option"
  tcEndpoints :: endpoints

text \<open>A client of the workload cluster: from the ClusterCache, or built for a server URL.\<close>

datatype workload_client = CachedClient object_key | DirectClient string

datatype install_progress = NoProgress | ProgressMessage string | ProgressExitCode int

record service_info =
  siState :: "string option" \<comment> \<open>\<open>None\<close>: \<open>svc.Service == nil\<close>\<close>

record dir_entry =
  deRelativeName :: string
  deName :: string

record processor =
  prSocket :: string
  prCoreCount :: int \<comment> \<open>uint32\<close>

record pci_device =
  pciClassID :: string
  pciVendorID :: string
  pciProductID :: string

datatype ip_family = FamilyInet4 | OtherFamily
datatype addr_scope = ScopeLink | OtherScope

record address_status =
  asFamily :: ip_family
  asScope :: addr_scope
  asLinkName :: string
  asAddress :: string \<comment> \<open>\<open>Address.Addr().String()\<close>\<close>

record system_information =
  siUUID :: string
  siSerialNumber :: string
  siManufacturer :: string
  siProductName :: string


section \<open>Events\<close>

datatype kube_event =
    EvGetHost object_key "byot_host res"
  | EvGetMachine object_key "byot_machine res"
  | EvGetByotCluster object_key "byot_cluster res"
  | EvGetSecret object_key "secret_data res"
  | EvGetCapiMachine object_key "capi_machine res"
  | EvGetCapiCluster object_key "capi_cluster res"
  | EvGetOwnerMachine object_meta "capi_machine option res"
  | EvListHosts string "label_selector option" "byot_host list res"
  | EvStatusUpdateHost byot_host "byot_host res"
  | EvUpdateHost byot_host "byot_host res"
  | EvUpdateMachine byot_machine "byot_machine res"
  | EvNewHelper "goerr option"
  | EvPatchHost byot_host byot_host "goerr option"
  | EvPatchMachine byot_machine byot_machine "string list" "goerr option"
  | EvPatchByotCluster byot_cluster byot_cluster "goerr option"
  | EvEnsureFinalizerHost byot_host string "byot_host res"
  | EvEnsureFinalizerMachine byot_machine string "byot_machine res"

datatype workload_event =
    EvWorkloadClient object_key "goerr option"
  | EvKubeconfig object_key "bytes res"
  | EvNewClient string "goerr option"
  | EvGetNode workload_client string "node res"
  | EvPatchNode workload_client node node "goerr option"

datatype talos_event =
    EvDial talos_client "goerr option"
  | EvVersion talos_client "version_info option list res"
  | EvDisks talos_client "talos_disk list list res"
  | EvApplyConfiguration talos_client bytes "goerr option"
  | EvImagePull talos_client string "unit stream res"
  | EvLifecycleUpgrade talos_client string "install_progress stream res"
  | EvReadFile talos_client string "bytes res"
  | EvReboot talos_client "goerr option"
  | EvServiceRestart talos_client string "goerr option"
  | EvServiceInfo talos_client string "service_info list res"
  | EvReset talos_client "goerr option"
  | EvDiscovery talos_client string

datatype event =
    Kube kube_event
  | Workload workload_event
  | Talos talos_event
  | Clock int

type_synonym ('o, 'a) act = "('o, event, 'a) go"
type_synonym history = "event list"


section \<open>The remote interfaces\<close>

record kube = lib +
  k_get_host :: "history \<Rightarrow> object_key \<Rightarrow> byot_host res"
  k_get_machine :: "history \<Rightarrow> object_key \<Rightarrow> byot_machine res"
  k_get_byot_cluster :: "history \<Rightarrow> object_key \<Rightarrow> byot_cluster res"
  k_get_secret :: "history \<Rightarrow> object_key \<Rightarrow> secret_data res"
  k_get_capi_machine :: "history \<Rightarrow> object_key \<Rightarrow> capi_machine res"
  k_get_capi_cluster :: "history \<Rightarrow> object_key \<Rightarrow> capi_cluster res"
  k_get_owner_machine :: "history \<Rightarrow> object_meta \<Rightarrow> capi_machine option res"
  k_list_hosts :: "history \<Rightarrow> string \<Rightarrow> label_selector option \<Rightarrow> byot_host list res"
  k_status_update_host :: "history \<Rightarrow> byot_host \<Rightarrow> byot_host res"
  k_update_host :: "history \<Rightarrow> byot_host \<Rightarrow> byot_host res"
  k_update_machine :: "history \<Rightarrow> byot_machine \<Rightarrow> byot_machine res"
  k_new_helper :: "history \<Rightarrow> goerr option"
  k_patch_host :: "history \<Rightarrow> byot_host \<Rightarrow> byot_host \<Rightarrow> goerr option"
  k_patch_machine :: "history \<Rightarrow> byot_machine \<Rightarrow> byot_machine \<Rightarrow> string list \<Rightarrow> goerr option"
  k_patch_byot_cluster :: "history \<Rightarrow> byot_cluster \<Rightarrow> byot_cluster \<Rightarrow> goerr option"
  k_ensure_finalizer_host :: "history \<Rightarrow> byot_host \<Rightarrow> string \<Rightarrow> byot_host res"
  k_ensure_finalizer_machine :: "history \<Rightarrow> byot_machine \<Rightarrow> string \<Rightarrow> byot_machine res"

record wkube = kube +
  w_client :: "history \<Rightarrow> object_key \<Rightarrow> goerr option"
  w_kubeconfig :: "history \<Rightarrow> object_key \<Rightarrow> bytes res"
  w_new_client :: "history \<Rightarrow> string \<Rightarrow> goerr option"
  w_get_node :: "history \<Rightarrow> workload_client \<Rightarrow> string \<Rightarrow> node res"
  w_patch_node :: "history \<Rightarrow> workload_client \<Rightarrow> node \<Rightarrow> node \<Rightarrow> goerr option"

record talos_env = wkube +
  t_dial :: "history \<Rightarrow> talos_client \<Rightarrow> goerr option"
  t_version :: "history \<Rightarrow> talos_client \<Rightarrow> version_info option list res"
  t_memory :: "history \<Rightarrow> talos_client \<Rightarrow> int option list res"
  t_disks :: "history \<Rightarrow> talos_client \<Rightarrow> talos_disk list list res"
  t_ls :: "history \<Rightarrow> talos_client \<Rightarrow> string \<Rightarrow> dir_entry option stream res"
  t_processors :: "history \<Rightarrow> talos_client \<Rightarrow> processor list res"
  t_pci_devices :: "history \<Rightarrow> talos_client \<Rightarrow> pci_device list res"
  t_kernel_cmdline :: "history \<Rightarrow> talos_client \<Rightarrow> string res"
  t_addresses :: "history \<Rightarrow> talos_client \<Rightarrow> address_status list res"
  t_system_information :: "history \<Rightarrow> talos_client \<Rightarrow> system_information option res"
  t_hardware_addr :: "history \<Rightarrow> talos_client \<Rightarrow> int list option res"
  t_mac_string :: "int list \<Rightarrow> string" \<comment> \<open>\<open>nethelpers.HardwareAddr.String\<close>\<close>

record env = talos_env +
  t_apply_configuration :: "history \<Rightarrow> talos_client \<Rightarrow> bytes \<Rightarrow> goerr option"
  t_image_pull :: "history \<Rightarrow> talos_client \<Rightarrow> string \<Rightarrow> unit stream res"
  t_lifecycle_upgrade :: "history \<Rightarrow> talos_client \<Rightarrow> string \<Rightarrow> install_progress stream res"
  t_read_open :: "history \<Rightarrow> talos_client \<Rightarrow> string \<Rightarrow> goerr option"
  t_read_all :: "history \<Rightarrow> talos_client \<Rightarrow> string \<Rightarrow> bytes res"
  t_read_close :: "history \<Rightarrow> talos_client \<Rightarrow> string \<Rightarrow> goerr option"
  t_reboot :: "history \<Rightarrow> talos_client \<Rightarrow> goerr option"
  t_service_restart :: "history \<Rightarrow> talos_client \<Rightarrow> string \<Rightarrow> goerr option"
  t_service_info :: "history \<Rightarrow> talos_client \<Rightarrow> string \<Rightarrow> service_info list res"
  t_reset :: "history \<Rightarrow> talos_client \<Rightarrow> goerr option"
  t_now :: "history \<Rightarrow> int"

section \<open>Remote calls\<close>

text \<open>
  Performing a call: ask the interface, log the call. These are abbreviations, so the calculus
  of theory Prelude treats every one of them as \<open>ask\<close>.
\<close>

abbreviation kGetHost :: "env \<Rightarrow> object_key \<Rightarrow> ('o, byot_host res) act" where
  "kGetHost env k \<equiv> ask (\<lambda>h. k_get_host env h k) (\<lambda>r. Kube (EvGetHost k r))"

abbreviation kGetMachine :: "env \<Rightarrow> object_key \<Rightarrow> ('o, byot_machine res) act" where
  "kGetMachine env k \<equiv> ask (\<lambda>h. k_get_machine env h k) (\<lambda>r. Kube (EvGetMachine k r))"

abbreviation kGetByotCluster :: "env \<Rightarrow> object_key \<Rightarrow> ('o, byot_cluster res) act" where
  "kGetByotCluster env k \<equiv> ask (\<lambda>h. k_get_byot_cluster env h k) (\<lambda>r. Kube (EvGetByotCluster k r))"

abbreviation kGetSecret :: "env \<Rightarrow> object_key \<Rightarrow> ('o, secret_data res) act" where
  "kGetSecret env k \<equiv> ask (\<lambda>h. k_get_secret env h k) (\<lambda>r. Kube (EvGetSecret k r))"

abbreviation kGetCapiMachine :: "env \<Rightarrow> object_key \<Rightarrow> ('o, capi_machine res) act" where
  "kGetCapiMachine env k \<equiv> ask (\<lambda>h. k_get_capi_machine env h k) (\<lambda>r. Kube (EvGetCapiMachine k r))"

abbreviation kGetCapiCluster :: "env \<Rightarrow> object_key \<Rightarrow> ('o, capi_cluster res) act" where
  "kGetCapiCluster env k \<equiv> ask (\<lambda>h. k_get_capi_cluster env h k) (\<lambda>r. Kube (EvGetCapiCluster k r))"

abbreviation kGetOwnerMachine :: "env \<Rightarrow> object_meta \<Rightarrow> ('o, capi_machine option res) act" where
  "kGetOwnerMachine env m \<equiv> ask (\<lambda>h. k_get_owner_machine env h m) (\<lambda>r. Kube (EvGetOwnerMachine m r))"

abbreviation kListHosts :: "env \<Rightarrow> string \<Rightarrow> label_selector option \<Rightarrow> ('o, byot_host list res) act" where
  "kListHosts env ns sel \<equiv> ask (\<lambda>h. k_list_hosts env h ns sel) (\<lambda>r. Kube (EvListHosts ns sel r))"

abbreviation kStatusUpdateHost :: "env \<Rightarrow> byot_host \<Rightarrow> ('o, byot_host res) act" where
  "kStatusUpdateHost env x \<equiv> ask (\<lambda>h. k_status_update_host env h x) (\<lambda>r. Kube (EvStatusUpdateHost x r))"

abbreviation kUpdateHost :: "env \<Rightarrow> byot_host \<Rightarrow> ('o, byot_host res) act" where
  "kUpdateHost env x \<equiv> ask (\<lambda>h. k_update_host env h x) (\<lambda>r. Kube (EvUpdateHost x r))"

abbreviation kUpdateMachine :: "env \<Rightarrow> byot_machine \<Rightarrow> ('o, byot_machine res) act" where
  "kUpdateMachine env x \<equiv> ask (\<lambda>h. k_update_machine env h x) (\<lambda>r. Kube (EvUpdateMachine x r))"

abbreviation kNewHelper :: "env \<Rightarrow> ('o, goerr option) act" where
  "kNewHelper env \<equiv> ask (\<lambda>h. k_new_helper env h) (\<lambda>r. Kube (EvNewHelper r))"

abbreviation kPatchHost :: "env \<Rightarrow> byot_host \<Rightarrow> byot_host \<Rightarrow> ('o, goerr option) act" where
  "kPatchHost env b x \<equiv> ask (\<lambda>h. k_patch_host env h b x) (\<lambda>r. Kube (EvPatchHost b x r))"

abbreviation kPatchMachine :: "env \<Rightarrow> byot_machine \<Rightarrow> byot_machine \<Rightarrow> string list \<Rightarrow> ('o, goerr option) act" where
  "kPatchMachine env b x own \<equiv> ask (\<lambda>h. k_patch_machine env h b x own) (\<lambda>r. Kube (EvPatchMachine b x own r))"

abbreviation kPatchByotCluster :: "env \<Rightarrow> byot_cluster \<Rightarrow> byot_cluster \<Rightarrow> ('o, goerr option) act" where
  "kPatchByotCluster env b x \<equiv> ask (\<lambda>h. k_patch_byot_cluster env h b x) (\<lambda>r. Kube (EvPatchByotCluster b x r))"

abbreviation kEnsureFinalizerHost :: "env \<Rightarrow> byot_host \<Rightarrow> string \<Rightarrow> ('o, byot_host res) act" where
  "kEnsureFinalizerHost env x f \<equiv> ask (\<lambda>h. k_ensure_finalizer_host env h x f) (\<lambda>r. Kube (EvEnsureFinalizerHost x f r))"

abbreviation kEnsureFinalizerMachine :: "env \<Rightarrow> byot_machine \<Rightarrow> string \<Rightarrow> ('o, byot_machine res) act" where
  "kEnsureFinalizerMachine env x f \<equiv> ask (\<lambda>h. k_ensure_finalizer_machine env h x f) (\<lambda>r. Kube (EvEnsureFinalizerMachine x f r))"

abbreviation wClient :: "env \<Rightarrow> object_key \<Rightarrow> ('o, goerr option) act" where
  "wClient env k \<equiv> ask (\<lambda>h. w_client env h k) (\<lambda>r. Workload (EvWorkloadClient k r))"

abbreviation wKubeconfig :: "env \<Rightarrow> object_key \<Rightarrow> ('o, bytes res) act" where
  "wKubeconfig env k \<equiv> ask (\<lambda>h. w_kubeconfig env h k) (\<lambda>r. Workload (EvKubeconfig k r))"

abbreviation wNewClient :: "env \<Rightarrow> string \<Rightarrow> ('o, goerr option) act" where
  "wNewClient env u \<equiv> ask (\<lambda>h. w_new_client env h u) (\<lambda>r. Workload (EvNewClient u r))"

abbreviation wGetNode :: "env \<Rightarrow> workload_client \<Rightarrow> string \<Rightarrow> ('o, node res) act" where
  "wGetNode env c n \<equiv> ask (\<lambda>h. w_get_node env h c n) (\<lambda>r. Workload (EvGetNode c n r))"

abbreviation wPatchNode :: "env \<Rightarrow> workload_client \<Rightarrow> node \<Rightarrow> node \<Rightarrow> ('o, goerr option) act" where
  "wPatchNode env c b x \<equiv> ask (\<lambda>h. w_patch_node env h c b x) (\<lambda>r. Workload (EvPatchNode c b x r))"

abbreviation tDial :: "env \<Rightarrow> talos_client \<Rightarrow> ('o, goerr option) act" where
  "tDial env c \<equiv> ask (\<lambda>h. t_dial env h c) (\<lambda>r. Talos (EvDial c r))"

abbreviation tVersion :: "env \<Rightarrow> talos_client \<Rightarrow> ('o, version_info option list res) act" where
  "tVersion env c \<equiv> ask (\<lambda>h. t_version env h c) (\<lambda>r. Talos (EvVersion c r))"

abbreviation tDisks :: "env \<Rightarrow> talos_client \<Rightarrow> ('o, talos_disk list list res) act" where
  "tDisks env c \<equiv> ask (\<lambda>h. t_disks env h c) (\<lambda>r. Talos (EvDisks c r))"

abbreviation tApplyConfiguration :: "env \<Rightarrow> talos_client \<Rightarrow> bytes \<Rightarrow> ('o, goerr option) act" where
  "tApplyConfiguration env c d \<equiv> ask (\<lambda>h. t_apply_configuration env h c d) (\<lambda>r. Talos (EvApplyConfiguration c d r))"

abbreviation tImagePull :: "env \<Rightarrow> talos_client \<Rightarrow> string \<Rightarrow> ('o, unit stream res) act" where
  "tImagePull env c i \<equiv> ask (\<lambda>h. t_image_pull env h c i) (\<lambda>r. Talos (EvImagePull c i r))"

abbreviation tLifecycleUpgrade :: "env \<Rightarrow> talos_client \<Rightarrow> string \<Rightarrow> ('o, install_progress stream res) act" where
  "tLifecycleUpgrade env c i \<equiv> ask (\<lambda>h. t_lifecycle_upgrade env h c i) (\<lambda>r. Talos (EvLifecycleUpgrade c i r))"

abbreviation tReboot :: "env \<Rightarrow> talos_client \<Rightarrow> ('o, goerr option) act" where
  "tReboot env c \<equiv> ask (\<lambda>h. t_reboot env h c) (\<lambda>r. Talos (EvReboot c r))"

abbreviation tServiceRestart :: "env \<Rightarrow> talos_client \<Rightarrow> string \<Rightarrow> ('o, goerr option) act" where
  "tServiceRestart env c n \<equiv> ask (\<lambda>h. t_service_restart env h c n) (\<lambda>r. Talos (EvServiceRestart c n r))"

abbreviation tServiceInfo :: "env \<Rightarrow> talos_client \<Rightarrow> string \<Rightarrow> ('o, service_info list res) act" where
  "tServiceInfo env c n \<equiv> ask (\<lambda>h. t_service_info env h c n) (\<lambda>r. Talos (EvServiceInfo c n r))"

abbreviation tReset :: "env \<Rightarrow> talos_client \<Rightarrow> ('o, goerr option) act" where
  "tReset env c \<equiv> ask (\<lambda>h. t_reset env h c) (\<lambda>r. Talos (EvReset c r))"

abbreviation tMemory :: "env \<Rightarrow> talos_client \<Rightarrow> ('o, int option list res) act" where
  "tMemory env c \<equiv> ask (\<lambda>h. t_memory env h c) (\<lambda>r. Talos (EvDiscovery c ''Memory''))"

abbreviation tLS :: "env \<Rightarrow> talos_client \<Rightarrow> string \<Rightarrow> ('o, dir_entry option stream res) act" where
  "tLS env c p \<equiv> ask (\<lambda>h. t_ls env h c p) (\<lambda>r. Talos (EvDiscovery c p))"

abbreviation tProcessors :: "env \<Rightarrow> talos_client \<Rightarrow> ('o, processor list res) act" where
  "tProcessors env c \<equiv> ask (\<lambda>h. t_processors env h c) (\<lambda>r. Talos (EvDiscovery c ''Processors''))"

abbreviation tPCIDevices :: "env \<Rightarrow> talos_client \<Rightarrow> ('o, pci_device list res) act" where
  "tPCIDevices env c \<equiv> ask (\<lambda>h. t_pci_devices env h c) (\<lambda>r. Talos (EvDiscovery c ''PCIDevices''))"

abbreviation tKernelCmdline :: "env \<Rightarrow> talos_client \<Rightarrow> ('o, string res) act" where
  "tKernelCmdline env c \<equiv> ask (\<lambda>h. t_kernel_cmdline env h c) (\<lambda>r. Talos (EvDiscovery c ''KernelCmdline''))"

abbreviation tAddresses :: "env \<Rightarrow> talos_client \<Rightarrow> ('o, address_status list res) act" where
  "tAddresses env c \<equiv> ask (\<lambda>h. t_addresses env h c) (\<lambda>r. Talos (EvDiscovery c ''AddressStatus''))"

abbreviation tSystemInformation :: "env \<Rightarrow> talos_client \<Rightarrow> ('o, system_information option res) act" where
  "tSystemInformation env c \<equiv> ask (\<lambda>h. t_system_information env h c) (\<lambda>r. Talos (EvDiscovery c ''SystemInformation''))"

abbreviation tHardwareAddr :: "env \<Rightarrow> talos_client \<Rightarrow> ('o, int list option res) act" where
  "tHardwareAddr env c \<equiv> ask (\<lambda>h. t_hardware_addr env h c) (\<lambda>r. Talos (EvDiscovery c ''HardwareAddr''))"

abbreviation tReadOpen :: "env \<Rightarrow> talos_client \<Rightarrow> string \<Rightarrow> ('o, goerr option) act" where
  "tReadOpen env c p \<equiv> ask (\<lambda>h. t_read_open env h c p) (\<lambda>r. Talos (EvReadFile c p (case r of Some e \<Rightarrow> Inl e | None \<Rightarrow> Inr [])))"

abbreviation tReadAll :: "env \<Rightarrow> talos_client \<Rightarrow> string \<Rightarrow> ('o, bytes res) act" where
  "tReadAll env c p \<equiv> ask (\<lambda>h. t_read_all env h c p) (\<lambda>r. Talos (EvReadFile c p r))"

abbreviation tReadClose :: "env \<Rightarrow> talos_client \<Rightarrow> string \<Rightarrow> ('o, goerr option) act" where
  "tReadClose env c p \<equiv> ask (\<lambda>h. t_read_close env h c p) (\<lambda>r. Talos (EvReadFile c p (case r of Some e \<Rightarrow> Inl e | None \<Rightarrow> Inr [])))"

abbreviation tNow :: "env \<Rightarrow> ('o, int) act" where
  "tNow env \<equiv> ask (\<lambda>h. t_now env h) (\<lambda>r. Clock r)"

text \<open>Events that change something: the cluster's objects or a machine.\<close>

definition writes_host :: "event \<Rightarrow> bool" where
  "writes_host e = (case e of
     Kube (EvStatusUpdateHost _ _) \<Rightarrow> True
   | Kube (EvUpdateHost _ _) \<Rightarrow> True
   | Kube (EvPatchHost _ _ _) \<Rightarrow> True
   | Kube (EvEnsureFinalizerHost _ _ _) \<Rightarrow> True
   | _ \<Rightarrow> False)"

definition is_reset :: "event \<Rightarrow> bool" where
  "is_reset e = (case e of Talos (EvReset _ _) \<Rightarrow> True | _ \<Rightarrow> False)"

definition is_apply :: "event \<Rightarrow> bool" where
  "is_apply e = (case e of Talos (EvApplyConfiguration _ _ _) \<Rightarrow> True | _ \<Rightarrow> False)"

definition is_install :: "event \<Rightarrow> bool" where
  "is_install e = (case e of Talos (EvLifecycleUpgrade _ _ _) \<Rightarrow> True | _ \<Rightarrow> False)"

definition is_reboot :: "event \<Rightarrow> bool" where
  "is_reboot e = (case e of Talos (EvReboot _ _) \<Rightarrow> True | _ \<Rightarrow> False)"

text \<open>Calls that disturb the machine itself.\<close>

definition is_disruptive :: "event \<Rightarrow> bool" where
  "is_disruptive e \<longleftrightarrow> is_reset e \<or> is_apply e \<or> is_install e \<or> is_reboot e"

lemma event_kind_simps [simp]:
  "is_reset (Talos (EvReset c r))" "\<not> is_reset (Kube k)" "\<not> is_reset (Workload w)"
  "is_apply (Talos (EvApplyConfiguration c d r'))" "\<not> is_apply (Kube k)" "\<not> is_apply (Workload w)"
  "is_install (Talos (EvLifecycleUpgrade c i r''))" "\<not> is_install (Kube k)"
  "\<not> is_install (Workload w)"
  "is_reboot (Talos (EvReboot c r))" "\<not> is_reboot (Kube k)" "\<not> is_reboot (Workload w)"
  "\<not> is_reset (Clock n)" "\<not> is_apply (Clock n)" "\<not> is_install (Clock n)" "\<not> is_reboot (Clock n)"
  by (simp_all add: is_reset_def is_apply_def is_install_def is_reboot_def)

lemma talos_kind_simps [simp]:
  "is_reset (Talos t) \<longleftrightarrow> (\<exists>c r. t = EvReset c r)"
  "is_apply (Talos t) \<longleftrightarrow> (\<exists>c d r. t = EvApplyConfiguration c d r)"
  "is_install (Talos t) \<longleftrightarrow> (\<exists>c i r. t = EvLifecycleUpgrade c i r)"
  "is_reboot (Talos t) \<longleftrightarrow> (\<exists>c r. t = EvReboot c r)"
  by (auto simp: is_reset_def is_apply_def is_install_def is_reboot_def split: talos_event.splits)

lemma disruptive_simps [simp]:
  "\<not> is_disruptive (Kube k)" "\<not> is_disruptive (Workload w)" "\<not> is_disruptive (Clock n)"
  "is_disruptive (Talos (EvReset c r))" "is_disruptive (Talos (EvApplyConfiguration c d r))"
  "is_disruptive (Talos (EvLifecycleUpgrade c i p))" "is_disruptive (Talos (EvReboot c r))"
  by (simp_all add: is_disruptive_def)

end
