(* ===== verification/Sample.thy ===== *)
theory Sample
  imports World
begin

text \<open>
  One concrete environment: conditions, finalizers and quantities implemented as their
  documentation describes (so that the laws of theory World hold of them), an API server that
  answers NotFound to reads and accepts writes, and a machine that answers. The theorems of
  the other theories are applied to it, or to variants of it, to show that their hypotheses
  can hold. It models no code of the repository.
\<close>

definition sample_condition :: "string \<Rightarrow> cond_status \<Rightarrow> string \<Rightarrow> severity \<Rightarrow> string \<Rightarrow> condition" where
  "sample_condition t st reason sv msg =
     \<lparr>cType = t, cStatus = st, cReason = reason, cSeverity = sv, cMessage = msg\<rparr>"

definition sample_cond_set :: "conditions \<Rightarrow> condition \<Rightarrow> conditions" where
  "sample_cond_set cs c = c # filter (\<lambda>d. cType d \<noteq> cType c) cs"

definition sample_is_true :: "conditions \<Rightarrow> string \<Rightarrow> bool" where
  "sample_is_true cs t = list_ex (\<lambda>d. cType d = t \<and> cStatus d = CondTrue) cs"

definition sample_quantity_value :: "string \<Rightarrow> int" where
  "sample_quantity_value q =
     (case q of [] \<Rightarrow> 0
      | c # cs \<Rightarrow> (if c = CHR ''-'' then - int (parse_dec cs) else int (parse_dec q)))"

definition sample_lib :: lib where
  "sample_lib = \<lparr>
     l_mark_true = (\<lambda>cs t. sample_cond_set cs (sample_condition t CondTrue '''' SevNone '''')),
     l_mark_false = (\<lambda>cs t r sv m. sample_cond_set cs (sample_condition t CondFalse r sv m)),
     l_cond_set = sample_cond_set,
     l_cond_is_true = sample_is_true,
     l_contains_finalizer = (\<lambda>fs f. f \<in> set fs),
     l_add_finalizer = (\<lambda>fs f. if f \<in> set fs then (fs, False) else (fs @ [f], True)),
     l_remove_finalizer = (\<lambda>fs f. (filter (\<lambda>g. g \<noteq> f) fs, f \<in> set fs)),
     l_quantity_value = sample_quantity_value,
     l_quantity_is_zero = (\<lambda>q. sample_quantity_value q = 0),
     l_new_quantity = format_int,
     l_parse_quantity = (\<lambda>q. takeWhile is_digit q),
     l_zero_quantity = ''0'',
     l_qualified_name_errors = (\<lambda>k. if k = '''' then [''empty''] else []),
     l_label_value_errors = (\<lambda>v. if 63 < length v then [''too long''] else []),
     l_yaml_stream = (\<lambda>b. \<lparr>msgs = [], finish = None\<rparr>),
     l_yaml_encode_doc = (\<lambda>d. Inr ''doc''),
     l_yaml_join = (\<lambda>ds. Inr (concat ds)),
     l_selector_valid = (\<lambda>sel. None),
     l_parse_talosconfig = (\<lambda>b. if b = [] then Some (ExtError ''empty talosconfig'') else None),
     l_rest_config_host = (\<lambda>b. Inr b),
     l_sha256 = (\<lambda>b. b)\<rparr>"

definition not_found :: goerr where
  "not_found = ApiError NotFound ''not found''"

definition sample_env :: env where
  "sample_env = \<lparr>
     l_mark_true = l_mark_true sample_lib,
     l_mark_false = l_mark_false sample_lib,
     l_cond_set = l_cond_set sample_lib,
     l_cond_is_true = l_cond_is_true sample_lib,
     l_contains_finalizer = l_contains_finalizer sample_lib,
     l_add_finalizer = l_add_finalizer sample_lib,
     l_remove_finalizer = l_remove_finalizer sample_lib,
     l_quantity_value = l_quantity_value sample_lib,
     l_quantity_is_zero = l_quantity_is_zero sample_lib,
     l_new_quantity = l_new_quantity sample_lib,
     l_parse_quantity = l_parse_quantity sample_lib,
     l_zero_quantity = l_zero_quantity sample_lib,
     l_qualified_name_errors = l_qualified_name_errors sample_lib,
     l_label_value_errors = l_label_value_errors sample_lib,
     l_yaml_stream = l_yaml_stream sample_lib,
     l_yaml_encode_doc = l_yaml_encode_doc sample_lib,
     l_yaml_join = l_yaml_join sample_lib,
     l_selector_valid = l_selector_valid sample_lib,
     l_parse_talosconfig = l_parse_talosconfig sample_lib,
     l_rest_config_host = l_rest_config_host sample_lib,
     l_sha256 = l_sha256 sample_lib,
     k_get_host = (\<lambda>h k. Inl not_found),
     k_get_machine = (\<lambda>h k. Inl not_found),
     k_get_byot_cluster = (\<lambda>h k. Inl not_found),
     k_get_secret = (\<lambda>h k. Inl not_found),
     k_get_capi_machine = (\<lambda>h k. Inl not_found),
     k_get_capi_cluster = (\<lambda>h k. Inl not_found),
     k_get_owner_machine = (\<lambda>h m. Inr None),
     k_list_hosts = (\<lambda>h ns sel. Inr []),
     k_status_update_host = (\<lambda>h x. Inr x),
     k_update_host = (\<lambda>h x. Inr x),
     k_update_machine = (\<lambda>h x. Inr x),
     k_new_helper = (\<lambda>h. None),
     k_patch_host = (\<lambda>h b x. None),
     k_patch_machine = (\<lambda>h b x own. None),
     k_patch_byot_cluster = (\<lambda>h b x. None),
     k_ensure_finalizer_host = (\<lambda>h x f. Inr x),
     k_ensure_finalizer_machine = (\<lambda>h x f. Inr x),
     w_client = (\<lambda>h k. None),
     w_kubeconfig = (\<lambda>h k. Inl not_found),
     w_new_client = (\<lambda>h u. None),
     w_get_node = (\<lambda>h c n. Inl not_found),
     w_patch_node = (\<lambda>h c b x. None),
     t_dial = (\<lambda>h c. None),
     t_version = (\<lambda>h c. Inr [Some \<lparr>viTag = ''v1.9.0'', viArch = ''amd64''\<rparr>]),
     t_memory = (\<lambda>h c. Inr [Some 16]),
     t_disks = (\<lambda>h c. Inr []),
     t_ls = (\<lambda>h c p. Inr \<lparr>msgs = [], finish = None\<rparr>),
     t_processors = (\<lambda>h c. Inr []),
     t_pci_devices = (\<lambda>h c. Inr []),
     t_kernel_cmdline = (\<lambda>h c. Inr ''talos.platform=metal''),
     t_addresses = (\<lambda>h c. Inr []),
     t_system_information = (\<lambda>h c. Inr None),
     t_hardware_addr = (\<lambda>h c. Inr None),
     t_mac_string = (\<lambda>m. ''mac''),
     t_apply_configuration = (\<lambda>h c b. None),
     t_image_pull = (\<lambda>h c i. Inr \<lparr>msgs = [()], finish = None\<rparr>),
     t_lifecycle_upgrade = (\<lambda>h c i. Inr \<lparr>msgs = [ProgressExitCode 0], finish = None\<rparr>),
     t_read_open = (\<lambda>h c p. None),
     t_read_all = (\<lambda>h c p. Inr ''boot-1''),
     t_read_close = (\<lambda>h c p. None),
     t_reboot = (\<lambda>h c. None),
     t_service_restart = (\<lambda>h c n. None),
     t_service_info = (\<lambda>h c n. Inr [\<lparr>siState = Some ''Running''\<rparr>]),
     t_reset = (\<lambda>h c. None),
     t_now = (\<lambda>h. int (length h))\<rparr>"

text \<open>The same cluster with a machine that does not answer.\<close>

definition silent_env :: env where
  "silent_env = sample_env\<lparr>t_dial := \<lambda>h c. Some (ExtError ''connection refused'')\<rparr>"

lemma sample_is_true_set:
  "sample_is_true (sample_cond_set cs c) t =
     (if cType c = t then cStatus c = CondTrue else sample_is_true cs t)"
  by (auto simp: sample_is_true_def sample_cond_set_def list_ex_iff)

lemma sample_cond_laws: "cond_laws sample_env"
  by (simp add: cond_laws_def sample_env_def sample_lib_def sample_is_true_set sample_condition_def)

lemma silent_cond_laws: "cond_laws silent_env"
  using sample_cond_laws by (simp add: cond_laws_def silent_env_def)

lemma sample_finalizer_laws: "finalizer_laws sample_env"
  by (auto simp: finalizer_laws_def sample_env_def sample_lib_def)

lemma dec_nat_no_minus: "CHR ''-'' \<notin> set (dec_nat n)"
  using dec_nat_digits [of n] by (auto simp: list_all_iff is_digit_def)

lemma sample_value_format: "sample_quantity_value (format_int n) = n"
proof (cases "n < 0")
  case True
  then show ?thesis by (simp add: sample_quantity_value_def format_int_def)
next
  case False
  obtain c cs where d: "dec_nat (nat n) = c # cs" by (metis dec_nat_nonempty neq_Nil_conv)
  with dec_nat_no_minus [of "nat n"] have "c \<noteq> CHR ''-''" by auto
  with False d parse_dec_nat [of "nat n"] show ?thesis
    by (simp add: sample_quantity_value_def format_int_def)
qed

lemma sample_quantity_laws: "quantity_laws sample_env"
  by (simp add: quantity_laws_def sample_env_def sample_lib_def sample_value_format)
     (simp add: sample_quantity_value_def parse_dec_def digit_val_def)

section \<open>Objects\<close>

definition sample_meta :: "string \<Rightarrow> string \<Rightarrow> object_meta" where
  "sample_meta name uid =
     \<lparr>oName = name, oNamespace = ''default'', oUID = uid, oGeneration = 1, oResourceVersion = ''1'',
      oLabels = fmempty, oAnnotations = fmempty, oFinalizers = [], oDeletionTimestamp = None\<rparr>"

definition sample_host :: "string \<Rightarrow> host_phase \<Rightarrow> host_claim_ref option \<Rightarrow> byot_host" where
  "sample_host name phase ref =
     \<lparr>hMeta = sample_meta name (''host-'' @ name),
      hSpec = \<lparr>hPublicIP = ''203.0.113.7'', hFailureDomain = None\<rparr>,
      hStatus =
        \<lparr>hPhase = phase, hTalosVersion = '''', hArch = '''', hPlatform = '''', hHardware = None,
         hIdentity = None, hMaintenanceMode = False, hClaimRef = ref, hProbeFailureCount = 0,
         hLastProbedAt = None, hConditions = []\<rparr>\<rparr>"

definition sample_machine :: byot_machine where
  "sample_machine =
     \<lparr>mMeta = sample_meta ''m1'' ''uid-1'',
      mSpec = \<lparr>mHostRef = None, mHostSelector = None, mTalosConfigSecretRef = None,
               mProviderID = None, mFailureDomain = None, mDesiredTalosVersion = None,
               mInstallDisk = None\<rparr>,
      mStatus = \<lparr>mReady = False, mResolvedHost = '''', mResolvedPublicIP = '''',
                 mResolvedInternalIP = '''', mLastAppliedConfigSHA = '''', mNodeUpdated = False,
                 mAddresses = [], mConditions = [], mCurrentTalosVersion = '''',
                 mUpgradeState = NoUpgrade, mUpgradeProbeFailures = 0,
                 mUpgradeAttemptGeneration = 0, mUpgradeAppliedImageRef = '''',
                 mUpgradePreRebootBootID = ''''\<rparr>\<rparr>"

abbreviation start :: "'o \<Rightarrow> ('o, event) gst" where
  "start x \<equiv> \<lparr>obj = x, log = []\<rparr>"

end
