(* ===== verification/Hardware.thy ===== *)
theory Hardware
  imports Sample
begin

text \<open>
  The hardware summaries of \<open>pkg/controller/discovery.go\<close> and the system-disk choices of
  \<open>discovery.go\<close> and \<open>talos_apply.go\<close>, as pure functions of the answers of the Talos
  API: disk records, CPU topology, GPU summary, NUMA count, interface names.

  The two system-disk routines (\<open>systemDisk\<close> over discovered disks, for the labels;
  \<open>selectSystemDisk\<close> over the Talos answer, for the install disk) are both instances of the
  locale \<open>disk_chooser\<close>.
\<close>

section \<open>Disks\<close>

definition isRAIDDevice :: "string \<Rightarrow> bool" where
  "isRAIDDevice name \<longleftrightarrow> has_prefix ''/dev/md'' name \<or> has_prefix ''md'' name"

definition diskDeviceName :: "talos_disk \<Rightarrow> string" where
  "diskDeviceName disk =
     (let name = tdDeviceName disk in
      if name \<noteq> '''' then
        (if has_prefix ''/dev/'' name then name else ''/dev/'' @ name)
      else tdName disk)"

definition diskToHostDisk :: "'z lib_scheme \<Rightarrow> talos_disk \<Rightarrow> host_disk" where
  "diskToHostDisk L disk =
     \<lparr>dName = diskDeviceName disk,
      dSize = l_new_quantity L (i64 (tdSize disk)),
      dType = tdType disk,
      dModel = tdModel disk,
      dSystemDisk = tdSystemDisk disk,
      dBusPath = tdBusPath disk\<rparr>"

fun systemDisk_loop :: "host_disk list \<Rightarrow> host_disk option \<Rightarrow> host_disk option" where
  "systemDisk_loop [] fallback = fallback"
| "systemDisk_loop (d # ds) fallback =
     (if \<not> dSystemDisk d then systemDisk_loop ds fallback
      else if isRAIDDevice (dName d) then Some d
      else systemDisk_loop ds (case fallback of None \<Rightarrow> Some d | Some f \<Rightarrow> Some f))"

definition systemDisk :: "host_disk list \<Rightarrow> host_disk option" where
  "systemDisk ds = systemDisk_loop ds None"

definition normalisedDeviceName :: "talos_disk \<Rightarrow> string" where
  "normalisedDeviceName disk =
     (let name = tdDeviceName disk in
      if \<not> has_prefix ''/dev/'' name then ''/dev/'' @ name else name)"

fun selectSystemDisk_loop :: "talos_disk list \<Rightarrow> string \<Rightarrow> string option" where
  "selectSystemDisk_loop [] fallback = (if fallback \<noteq> '''' then Some fallback else None)"
| "selectSystemDisk_loop (d # ds) fallback =
     (if \<not> tdSystemDisk d then selectSystemDisk_loop ds fallback
      else (let name = normalisedDeviceName d in
        if isRAIDDevice name then Some name
        else selectSystemDisk_loop ds (if fallback = '''' then name else fallback)))"

definition selectSystemDisk :: "talos_disk list \<Rightarrow> string option" where
  "selectSystemDisk ds = selectSystemDisk_loop ds ''''"


subsection \<open>The contract of a system-disk choice\<close>

text \<open>The path of the first RAID system disk, else the path of the first system disk.\<close>

locale disk_chooser =
  fixes is_system :: "'d \<Rightarrow> bool"
    and path :: "'d \<Rightarrow> string"
    and pick :: "'d list \<Rightarrow> string option"
  assumes pick_raid:
      "find (\<lambda>d. is_system d \<and> isRAIDDevice (path d)) ds = Some d \<Longrightarrow> pick ds = Some (path d)"
    and pick_fallback:
      "find (\<lambda>d. is_system d \<and> isRAIDDevice (path d)) ds = None \<Longrightarrow>
        pick ds = map_option path (find is_system ds)"
begin

lemma pick_eq:
  "pick ds = map_option path
     (case find (\<lambda>d. is_system d \<and> isRAIDDevice (path d)) ds of
        Some d \<Rightarrow> Some d | None \<Rightarrow> find is_system ds)"
  by (auto split: option.split dest: pick_raid pick_fallback)

lemma pick_sound: "pick ds = Some p \<Longrightarrow> \<exists>d \<in> set ds. is_system d \<and> path d = p"
  by (auto simp: pick_eq find_Some_iff split: option.splits)

lemma pick_None_iff: "pick ds = None \<longleftrightarrow> (\<forall>d \<in> set ds. \<not> is_system d)"
  by (auto simp: pick_eq find_None_iff find_Some_iff split: option.splits)

lemma pick_prefers_raid:
  "d \<in> set ds \<Longrightarrow> is_system d \<Longrightarrow> isRAIDDevice (path d) \<Longrightarrow>
    \<exists>p. pick ds = Some p \<and> isRAIDDevice p"
  by (auto simp: pick_eq find_None_iff find_Some_iff split: option.splits)

end

lemma systemDisk_loop_eq:
  "systemDisk_loop ds fb =
     (case find (\<lambda>d. dSystemDisk d \<and> isRAIDDevice (dName d)) ds of
        Some d \<Rightarrow> Some d
      | None \<Rightarrow> (case fb of Some f \<Rightarrow> Some f | None \<Rightarrow> find dSystemDisk ds))"
  by (induction ds arbitrary: fb) (auto split: option.splits)

lemma systemDisk_eq:
  "systemDisk ds =
     (case find (\<lambda>d. dSystemDisk d \<and> isRAIDDevice (dName d)) ds of
        Some d \<Rightarrow> Some d | None \<Rightarrow> find dSystemDisk ds)"
  by (simp add: systemDisk_def systemDisk_loop_eq split: option.split)

lemma normalisedDeviceName_nonempty [simp]: "normalisedDeviceName d \<noteq> []"
  by (auto simp: normalisedDeviceName_def Let_def has_prefix_def)

lemma selectSystemDisk_loop_eq:
  "selectSystemDisk_loop ds fb =
     (case find (\<lambda>d. tdSystemDisk d \<and> isRAIDDevice (normalisedDeviceName d)) ds of
        Some d \<Rightarrow> Some (normalisedDeviceName d)
      | None \<Rightarrow> (if fb \<noteq> [] then Some fb
                 else map_option normalisedDeviceName (find tdSystemDisk ds)))"
  by (induction ds arbitrary: fb) (auto simp: Let_def split: option.splits)

interpretation label_disk: disk_chooser dSystemDisk dName "\<lambda>ds. map_option dName (systemDisk ds)"
  by unfold_locales (simp_all add: systemDisk_eq)

interpretation install_disk: disk_chooser tdSystemDisk normalisedDeviceName selectSystemDisk
  by unfold_locales (simp_all add: selectSystemDisk_def selectSystemDisk_loop_eq)

lemma diskDeviceName_normalised:
  "tdDeviceName d \<noteq> [] \<Longrightarrow> diskDeviceName d = normalisedDeviceName d"
  by (simp add: diskDeviceName_def normalisedDeviceName_def Let_def)

lemma find_map: "find P (map f xs) = map_option f (find (P \<circ> f) xs)"
  by (induction xs) auto

lemma find_cong_on: "(\<And>x. x \<in> set xs \<Longrightarrow> P x = Q x) \<Longrightarrow> find P xs = find Q xs"
  by (induction xs) auto


section \<open>CPU\<close>

text \<open>The loop over the Processor resources: total cores (an int32 accumulator) and the
  distinct non-empty socket names seen.\<close>

fun cpu_loop :: "processor list \<Rightarrow> int \<Rightarrow> string list \<Rightarrow> int \<times> string list" where
  "cpu_loop [] acc sockets = (acc, sockets)"
| "cpu_loop (p # ps) acc sockets =
     (if prSocket p = '''' then cpu_loop ps acc sockets
      else cpu_loop ps (i32 (acc + i32 (prCoreCount p))) (List.insert (prSocket p) sockets))"

definition default_cpu :: host_cpu where
  "default_cpu = \<lparr>cores = 1, packages = 1, numaNodes = 1\<rparr>"

definition cpu_of_processors :: "processor list \<Rightarrow> host_cpu" where
  "cpu_of_processors procs =
     (let (totalCores, sockets) = cpu_loop procs 0 [];
          cpu = default_cpu;
          cpu = (if 0 < length sockets then cpu\<lparr>packages := i32 (int (length sockets))\<rparr> else cpu)
      in if 0 < totalCores then cpu\<lparr>cores := totalCores\<rparr> else cpu)"

lemma cpu_loop_total:
  "i32 (fst (cpu_loop ps acc sockets)) =
     i32 (acc + (\<Sum>p \<leftarrow> filter (\<lambda>p. prSocket p \<noteq> []) ps. prCoreCount p))"
proof (induction ps arbitrary: acc sockets)
  case Nil
  then show ?case by simp
next
  case (Cons p ps)
  have "i32 (i32 (acc + i32 c) + r) = i32 (acc + (c + r))" for c r
    using i32_add_i32 [of "acc + i32 c" r] i32_add_i32 [of c "acc + r"]
    by (simp add: algebra_simps)
  with Cons show ?case by simp
qed

lemma cpu_loop_sockets:
  "set (snd (cpu_loop ps acc sockets)) =
     set sockets \<union> {prSocket p | p. p \<in> set ps \<and> prSocket p \<noteq> []}"
  by (induction ps arbitrary: acc sockets) auto

lemma cpu_loop_distinct: "distinct sockets \<Longrightarrow> distinct (snd (cpu_loop ps acc sockets))"
  by (induction ps arbitrary: acc sockets) auto

lemma cpu_loop_total_range:
  "- (2 ^ 31) \<le> acc \<Longrightarrow> acc < 2 ^ 31 \<Longrightarrow>
     - (2 ^ 31) \<le> fst (cpu_loop ps acc sockets) \<and> fst (cpu_loop ps acc sockets) < 2 ^ 31"
  using i32_range by (induction ps arbitrary: acc sockets) auto


section \<open>GPUs\<close>

definition gpuVendorNames :: "(string \<times> string) list" where
  "gpuVendorNames = [(''10de'', ''nvidia''), (''1002'', ''amd''), (''8086'', ''intel'')]"

definition pciDisplayClassID :: string where
  "pciDisplayClassID = ''0x03''"

definition gib :: "int \<Rightarrow> int" where
  "gib n = n * 2 ^ 30"

definition gpuModelTable :: "(string \<times> (string \<times> int)) list" where
  "gpuModelTable =
    [(''10de:2330'', (''h100-sxm5'', gib 80)),
     (''10de:2331'', (''h100-pcie'', gib 80)),
     (''10de:2336'', (''h100'', gib 80)),
     (''10de:2337'', (''h100-sxm5-64g'', gib 64)),
     (''10de:2338'', (''h100-sxm5-96g'', gib 96)),
     (''10de:2339'', (''h100-sxm5-94g'', gib 94)),
     (''10de:233a'', (''h800l-94g'', gib 94)),
     (''10de:233b'', (''h200-nvl'', gib 141)),
     (''10de:233d'', (''h100-96g'', gib 96)),
     (''10de:2321'', (''h100l-94g'', gib 94)),
     (''10de:2322'', (''h800-pcie'', gib 80)),
     (''10de:2324'', (''h800'', gib 80)),
     (''10de:2342'', (''gh200-120g'', gib 96)),
     (''10de:2348'', (''gh200-144g'', gib 144)),
     (''10de:2901'', (''b200'', gib 192)),
     (''10de:2909'', (''hgx-b200-168g'', gib 168)),
     (''10de:2941'', (''hgx-gb200'', gib 192)),
     (''10de:3182'', (''b300-sxm6'', gib 288)),
     (''10de:31a1'', (''gb300-maxq'', gib 288)),
     (''10de:31c2'', (''gb300'', gib 288)),
     (''10de:31c3'', (''gb300'', gib 288)),
     (''10de:20b0'', (''a100-sxm4-40g'', gib 40)),
     (''10de:20b1'', (''a100-pcie-40g'', gib 40)),
     (''10de:20b2'', (''a100-sxm4-80g'', gib 80)),
     (''10de:20b3'', (''a100-sxm-64g'', gib 64)),
     (''10de:20b5'', (''a100-pcie-80g'', gib 80)),
     (''10de:20b7'', (''a30-pcie'', gib 24)),
     (''10de:20bd'', (''a800-sxm4-40g'', gib 40)),
     (''10de:20f3'', (''a800-sxm4-80g'', gib 80)),
     (''10de:20f5'', (''a800-pcie-80g'', gib 80)),
     (''10de:20f6'', (''a800-pcie-40g'', gib 40)),
     (''1002:6860'', (''mi25'', gib 16)),
     (''1002:66a1'', (''mi50'', gib 16)),
     (''1002:738c'', (''mi100'', gib 32)),
     (''1002:738e'', (''mi100'', gib 32)),
     (''1002:740f'', (''mi210'', gib 64)),
     (''1002:740c'', (''mi250'', gib 128)),
     (''1002:7408'', (''mi250x'', gib 128)),
     (''1002:74a0'', (''mi300a'', gib 128)),
     (''1002:74a1'', (''mi300x'', gib 192)),
     (''1002:74a2'', (''mi308x'', gib 128)),
     (''1002:74a5'', (''mi325x'', gib 288)),
     (''1002:75a0'', (''mi350x'', gib 288)),
     (''1002:75a3'', (''mi355x'', gib 288))]"

type_synonym pair_key = "string \<times> string" \<comment> \<open>vendor id and device id\<close>

text \<open>The filter and key of the counting loop: \<open>None\<close> where the loop continues early.\<close>

definition gpu_pair :: "pci_device \<Rightarrow> pair_key option" where
  "gpu_pair d =
     (if \<not> equal_fold (pciClassID d) pciDisplayClassID then None
      else (let vendor = trim_prefix ''0x'' (to_lower (pciVendorID d)) in
        if map_of gpuVendorNames vendor = None then None
        else Some (vendor, trim_prefix ''0x'' (to_lower (pciProductID d)))))"

text \<open>\<open>counts[key]++\<close>; the map is an association list in order of first appearance.\<close>

fun bump :: "'k \<Rightarrow> ('k \<times> int) list \<Rightarrow> ('k \<times> int) list" where
  "bump k [] = [(k, i32 1)]"
| "bump k ((k', c) # rest) = (if k = k' then (k', i32 (c + 1)) # rest else (k', c) # bump k rest)"

fun gpu_counts :: "pci_device list \<Rightarrow> (pair_key \<times> int) list \<Rightarrow> (pair_key \<times> int) list" where
  "gpu_counts [] counts = counts"
| "gpu_counts (d # ds) counts =
     gpu_counts ds (case gpu_pair d of None \<Rightarrow> counts | Some k \<Rightarrow> bump k counts)"

definition vendor_name :: "string \<Rightarrow> string" where
  "vendor_name v = (case map_of gpuVendorNames v of Some n \<Rightarrow> n | None \<Rightarrow> '''')"

definition zero_gpu :: "'z lib_scheme \<Rightarrow> host_gpu" where
  "zero_gpu L =
     \<lparr>gVendor = '''', gModel = '''', gDeviceID = '''', gMemoryPerGPU = l_zero_quantity L,
      gCount = 0, gTotalMemory = l_zero_quantity L, gMixed = False\<rparr>"

fun populateHomogeneousGPU :: "'z lib_scheme \<Rightarrow> host_gpu \<Rightarrow> (pair_key \<times> int) list \<Rightarrow> host_gpu" where
  "populateHomogeneousGPU L gpu [] = gpu"
| "populateHomogeneousGPU L gpu (((vendor, device), pairCount) # rest) =
     (let gpu = gpu\<lparr>gVendor := vendor_name vendor, gDeviceID := device\<rparr>;
          gpu = (case map_of gpuModelTable (vendor @ '':'' @ device) of
                   None \<Rightarrow> gpu
                 | Some (model, hbmBytes) \<Rightarrow>
                     gpu\<lparr>gModel := model,
                         gMemoryPerGPU := l_new_quantity L hbmBytes,
                         gTotalMemory := l_new_quantity L (i64 (pairCount * hbmBytes))\<rparr>)
      in populateHomogeneousGPU L gpu rest)"

definition populateMixedGPU :: "host_gpu \<Rightarrow> (pair_key \<times> int) list \<Rightarrow> host_gpu" where
  "populateMixedGPU gpu counts =
     (let vendors = remdups (map (fst \<circ> fst) counts);
          gpu = (if length vendors = 1 then gpu\<lparr>gVendor := vendor_name (hd vendors)\<rparr> else gpu)
      in gpu\<lparr>gMixed := True\<rparr>)"

definition gpu_summary :: "'z lib_scheme \<Rightarrow> pci_device list \<Rightarrow> host_gpu option" where
  "gpu_summary L devs =
     (let counts = gpu_counts devs [] in
      if length counts = 0 then None
      else (let gpu = (zero_gpu L)\<lparr>gCount := foldl (\<lambda>acc kc. i32 (acc + snd kc)) 0 counts\<rparr> in
        if length counts = 1 then Some (populateHomogeneousGPU L gpu counts)
        else Some (populateMixedGPU gpu counts)))"


subsection \<open>The counting loop\<close>

lemma bump_keys: "set (map fst (bump k m)) = insert k (set (map fst m))"
  by (induction k m rule: bump.induct) auto

lemma bump_distinct: "distinct (map fst m) \<Longrightarrow> distinct (map fst (bump k m))"
  by (induction k m rule: bump.induct) (auto simp: bump_keys [simplified])

lemma bump_sum: "i32 (sum_list (map snd (bump k m)) + x) = i32 (sum_list (map snd m) + 1 + x)"
proof (induction k m arbitrary: x rule: bump.induct)
  case (1 k)
  show ?case using i32_add_i32 [of 1 x] by (simp add: algebra_simps)
next
  case (2 k k' c rest)
  show ?case
  proof (cases "k = k'")
    case True
    then show ?thesis using i32_add_i32 [of "c + 1" "sum_list (map snd rest) + x"]
      by (simp add: algebra_simps)
  next
    case False
    with "2" [of "c + x"] show ?thesis by (simp add: algebra_simps)
  qed
qed

abbreviation gpu_pairs :: "pci_device list \<Rightarrow> pair_key list" where
  "gpu_pairs devs \<equiv> List.map_filter gpu_pair devs"

lemma map_filter_Cons:
  "List.map_filter f (x # xs) =
     (case f x of None \<Rightarrow> List.map_filter f xs | Some y \<Rightarrow> y # List.map_filter f xs)"
  by (simp add: List.map_filter_def split: option.split)

lemma gpu_counts_keys:
  "set (map fst (gpu_counts ds m)) = set (map fst m) \<union> set (gpu_pairs ds)"
proof (induction ds m rule: gpu_counts.induct)
  case (1 m)
  then show ?case by (simp add: List.map_filter_def)
next
  case (2 d ds m)
  then show ?case using bump_keys [of _ m] by (auto simp: map_filter_Cons split: option.splits)
qed

lemma gpu_counts_distinct: "distinct (map fst m) \<Longrightarrow> distinct (map fst (gpu_counts ds m))"
  by (induction ds m rule: gpu_counts.induct) (simp_all add: bump_distinct split: option.split)

lemma gpu_counts_sum:
  "i32 (sum_list (map snd (gpu_counts ds m)) + x)
     = i32 (sum_list (map snd m) + int (length (gpu_pairs ds)) + x)"
proof (induction ds m arbitrary: x rule: gpu_counts.induct)
  case (1 m)
  then show ?case by (simp add: List.map_filter_def)
next
  case (2 d ds m)
  show ?case
  proof (cases "gpu_pair d")
    case None
    with 2 show ?thesis by (simp add: map_filter_Cons)
  next
    case (Some k)
    with 2 have "i32 (sum_list (map snd (gpu_counts (d # ds) m)) + x)
        = i32 (sum_list (map snd (bump k m)) + (int (length (gpu_pairs ds)) + x))"
      by (simp add: add.assoc)
    also have "\<dots> = i32 (sum_list (map snd m) + 1 + (int (length (gpu_pairs ds)) + x))"
      by (rule bump_sum)
    finally show ?thesis using Some by (simp add: map_filter_Cons algebra_simps)
  qed
qed

lemma foldl_i32_sum: "i32 (foldl (\<lambda>acc kc. i32 (acc + snd kc)) a m) = i32 (a + sum_list (map snd m))"
proof (induction m arbitrary: a)
  case Nil
  then show ?case by simp
next
  case (Cons kc m)
  then show ?case using i32_add_i32 [of "a + snd kc"] by (simp add: algebra_simps)
qed

lemma foldl_i32_idem:
  "m \<noteq> [] \<Longrightarrow> i32 (foldl (\<lambda>acc kc. i32 (acc + snd kc)) a m)
     = foldl (\<lambda>acc kc. i32 (acc + snd kc)) a m"
  by (induction m rule: rev_induct) (simp_all add: i32_add_i32 [where y = 0, simplified])

lemma length_keys: "distinct (map fst m) \<Longrightarrow> length m = card (set (map fst m))"
  by (metis distinct_card length_map)

text \<open>The number of counted pairs and the total count, from the devices alone.\<close>

lemma gpu_counts_length: "length (gpu_counts ds []) = card (set (gpu_pairs ds))"
  using gpu_counts_keys [of ds "[]"] gpu_counts_distinct [of "[]" ds]
  by (simp add: length_keys)

lemma gpu_counts_total:
  assumes "gpu_counts ds [] \<noteq> []"
  shows "foldl (\<lambda>acc kc. i32 (acc + snd kc)) 0 (gpu_counts ds []) = i32 (int (length (gpu_pairs ds)))"
proof -
  have "foldl (\<lambda>acc kc. i32 (acc + snd kc)) 0 (gpu_counts ds [])
      = i32 (sum_list (map snd (gpu_counts ds [])))"
    using foldl_i32_idem [OF assms, of 0] foldl_i32_sum [of 0 "gpu_counts ds []"] by simp
  then show ?thesis using gpu_counts_sum [of ds "[]" 0] by simp
qed

lemma populateHomogeneousGPU_frame:
  "gCount (populateHomogeneousGPU L gpu m) = gCount gpu \<and>
   gMixed (populateHomogeneousGPU L gpu m) = gMixed gpu"
proof (induction L gpu m rule: populateHomogeneousGPU.induct)
  case (2 L gpu vendor device pairCount rest)
  then show ?case
    by (cases "map_of gpuModelTable (vendor @ '':'' @ device)") (auto simp: Let_def)
qed simp

lemma populateMixedGPU_frame:
  "gCount (populateMixedGPU gpu m) = gCount gpu" "gMixed (populateMixedGPU gpu m)"
  "gModel (populateMixedGPU gpu m) = gModel gpu" "gDeviceID (populateMixedGPU gpu m) = gDeviceID gpu"
  by (simp_all add: populateMixedGPU_def Let_def)

lemma gpu_summary_None_iff: "gpu_summary L devs = None \<longleftrightarrow> gpu_pairs devs = []"
proof -
  have "gpu_counts devs [] = [] \<longleftrightarrow> gpu_pairs devs = []"
    using gpu_counts_length [of devs] by (metis card_0_eq length_0_conv List.finite_set set_empty)
  then show ?thesis by (simp add: gpu_summary_def Let_def)
qed

lemma gpu_summary_mixed_count:
  assumes "gpu_summary L devs = Some g"
  shows "gMixed g \<longleftrightarrow> 1 < card (set (gpu_pairs devs))"
    and "gCount g = i32 (int (length (gpu_pairs devs)))"
proof -
  have ne: "gpu_counts devs [] \<noteq> []"
    using assms by (auto simp: gpu_summary_def Let_def split: if_splits)
  then have len: "0 < card (set (gpu_pairs devs))"
    using gpu_counts_length [of devs] by (metis length_greater_0_conv)
  note total = gpu_counts_total [OF ne]
  show "gMixed g \<longleftrightarrow> 1 < card (set (gpu_pairs devs))"
    using assms len
    by (auto simp: gpu_summary_def Let_def gpu_counts_length populateHomogeneousGPU_frame
        populateMixedGPU_frame zero_gpu_def split: if_splits)
  show "gCount g = i32 (int (length (gpu_pairs devs)))"
    using assms ne
    by (auto simp: gpu_summary_def Let_def total populateHomogeneousGPU_frame
        populateMixedGPU_frame split: if_splits)
qed

section \<open>Properties\<close>

lemma normalised_label_path:
  "find (\<lambda>d. tdSystemDisk d \<and> isRAIDDevice (diskDeviceName d)) ds =
     find (\<lambda>d. tdSystemDisk d \<and> isRAIDDevice (normalisedDeviceName d)) ds"
  if "\<forall>d \<in> set ds. tdSystemDisk d \<longrightarrow> tdDeviceName d \<noteq> []"
  by (rule find_cong_on) (use that diskDeviceName_normalised in auto)


definition raid_disks :: "talos_disk list" where
  "raid_disks =
     [\<lparr>tdDeviceName = ''sda'', tdName = '''', tdSize = 5, tdType = ''SSD'', tdModel = ''m'', tdSystemDisk = True, tdBusPath = ''''\<rparr>,
      \<lparr>tdDeviceName = ''/dev/md0'', tdName = '''', tdSize = 5, tdType = ''SSD'', tdModel = ''m'', tdSystemDisk = True, tdBusPath = ''''\<rparr>]"


text \<open>Without a device name the two differ: the adoption takes \<open>/dev/\<close> for a path.\<close>

lemma nameless_disk_differs:
  "selectSystemDisk [\<lparr>tdDeviceName = '''', tdName = ''/dev/vda'', tdSize = 5, tdType = t, tdModel = m,
     tdSystemDisk = True, tdBusPath = b\<rparr>] = Some ''/dev/''"
  by (simp add: selectSystemDisk_def normalisedDeviceName_def isRAIDDevice_def)

lemma i32_i32 [simp]: "i32 (i32 x) = i32 x"
  using i32_add_i32 [of x 0] by simp

lemma bump_range:
  "list_all (\<lambda>kc. i32 (snd kc) = snd kc) m \<Longrightarrow> list_all (\<lambda>kc. i32 (snd kc) = snd kc) (bump k m)"
  by (induction k m rule: bump.induct) auto

lemma gpu_counts_range:
  "list_all (\<lambda>kc. i32 (snd kc) = snd kc) m \<Longrightarrow> list_all (\<lambda>kc. i32 (snd kc) = snd kc) (gpu_counts ds m)"
  by (induction ds m rule: gpu_counts.induct) (simp_all add: bump_range split: option.split)

lemma gpu_counts_single:
  assumes "gpu_counts devs [] = [(k, c)]"
  shows "set (gpu_pairs devs) = {k}" and "c = i32 (int (length (gpu_pairs devs)))"
  using gpu_counts_keys [of devs "[]"] gpu_counts_total [of devs] gpu_counts_range [of "[]" devs] assms
  by simp_all

lemma gpu_counts_vendors:
  "set (map (fst \<circ> fst) (gpu_counts devs [])) = fst ` set (gpu_pairs devs)"
proof -
  have "set (map (fst \<circ> fst) (gpu_counts devs [])) = fst ` set (map fst (gpu_counts devs []))"
    by (simp add: image_comp)
  then show ?thesis using gpu_counts_keys [of devs "[]"] by simp
qed

lemma populateMixedGPU_vendor:
  assumes "gVendor gpu = []"
  shows "gVendor (populateMixedGPU gpu (gpu_counts devs [])) =
     (if card (fst ` set (gpu_pairs devs)) = 1 then vendor_name (the_elem (fst ` set (gpu_pairs devs))) else [])"
proof -
  let ?vs = "remdups (map (fst \<circ> fst) (gpu_counts devs []))"
  have len: "length ?vs = card (fst ` set (gpu_pairs devs))"
    using gpu_counts_vendors [of devs] by (metis length_remdups_card_conv)
  have "hd ?vs = the_elem (fst ` set (gpu_pairs devs))" if "length ?vs = 1"
  proof -
    from that obtain v where v: "?vs = [v]" by (metis One_nat_def length_0_conv length_Suc_conv)
    then have "fst ` set (gpu_pairs devs) = {v}"
      using gpu_counts_vendors [of devs] by (metis set_remdups list.set(1,2))
    with v show ?thesis by simp
  qed
  with assms len show ?thesis by (simp add: populateMixedGPU_def Let_def)
qed


end
