(* ===== verification/TalosClient.thy ===== *)
theory TalosClient
  imports Hardware
begin

text \<open>
  The Talos machine API helpers of \<open>pkg/controller/talos_apply.go\<close> (all but the YAML
  editing, which is theory MachineConfig) and \<open>attemptReset\<close>: building a client, the
  probes, apply, reset, service restart, the lifecycle upgrade with its stream drains, and
  the boot-id read. Timeouts are the environment's: a call that runs into its deadline
  answers an error. Closing a client is not logged.
\<close>

section \<open>Clients\<close>

text \<open>\<open>%v\<close> of a string slice.\<close>

fun join_words :: "string list \<Rightarrow> string" where
  "join_words [] = []"
| "join_words [w] = w"
| "join_words (w # ws) = w @ '' '' @ join_words ws"

definition endpoints_text :: "endpoints \<Rightarrow> string" where
  "endpoints_text e = ''['' @ join_words e @ '']''"

definition dial :: "env \<Rightarrow> talos_client \<Rightarrow> string \<Rightarrow> ('o, talos_client res) act" where
  "dial env c what =
     check_or (tDial env c) (errorf (what @ endpoints_text (tcEndpoints c))) (ret (Inr c))"

definition maintenanceClient :: "env \<Rightarrow> endpoints \<Rightarrow> ('o, talos_client res) act" where
  "maintenanceClient env endpoints =
     dial env \<lparr>tcTalosConfig = None, tcEndpoints = endpoints\<rparr>
       ''failed to create Talos maintenance client for ''"

definition authenticatedClient :: "env \<Rightarrow> endpoints \<Rightarrow> bytes \<Rightarrow> ('o, talos_client res) act" where
  "authenticatedClient env endpoints talosConfig =
     (case l_parse_talosconfig env talosConfig of
        Some e \<Rightarrow> ret (Inl (errorf ''failed to parse talosconfig'' e))
      | None \<Rightarrow> dial env \<lparr>tcTalosConfig = Some talosConfig, tcEndpoints = endpoints\<rparr>
                  ''failed to create authenticated Talos client for '')"

text \<open>The choice shared by apply, reset and disk detection: a nil talosconfig selects the
  maintenance client.\<close>

definition clientFor :: "env \<Rightarrow> endpoints \<Rightarrow> bytes option \<Rightarrow> ('o, talos_client res) act" where
  "clientFor env endpoints talosConfig =
     (case talosConfig of
        Some cfg \<Rightarrow> authenticatedClient env endpoints cfg
      | None \<Rightarrow> maintenanceClient env endpoints)"


section \<open>Apply, reset, probes, services\<close>

definition applyMachineConfig ::
  "env \<Rightarrow> endpoints \<Rightarrow> bytes \<Rightarrow> bytes option \<Rightarrow> ('o, unit res) act" where
  "applyMachineConfig env endpoints machineConfig talosConfig =
     try_or (clientFor env endpoints talosConfig) id (\<lambda>client.
       check_or (tApplyConfiguration env client machineConfig)
         (errorf (''failed to apply machine configuration on '' @ endpoints_text endpoints))
         (ret (Inr ())))"

definition resetMachine :: "env \<Rightarrow> endpoints \<Rightarrow> bytes option \<Rightarrow> ('o, unit res) act" where
  "resetMachine env endpoints talosConfig =
     try_or (clientFor env endpoints talosConfig) id (\<lambda>client.
       check_or (tReset env client) (errorf ''failed to reset machine'') (ret (Inr ())))"

fun attemptReset_loop ::
  "env \<Rightarrow> bytes option list \<Rightarrow> endpoints \<Rightarrow> goerr option \<Rightarrow> ('o, unit res) act" where
  "attemptReset_loop env [] endpoints lastErr =
     ret (Inl (case lastErr of
         Some e \<Rightarrow> errorf (''failed to reset machine '' @ endpoints_text endpoints @
                     '' with any available credentials'') e
       | None \<Rightarrow> Wrapf [] ErrNoResetCredentials ('': '' @ endpoints_text endpoints)))"
| "attemptReset_loop env (candidate # candidates) endpoints lastErr =
     do { r \<leftarrow> resetMachine env endpoints candidate;
          (case r of
             Inr _ \<Rightarrow> ret (Inr ())
           | Inl e \<Rightarrow> attemptReset_loop env candidates endpoints (Some e)) }"

definition attemptReset :: "env \<Rightarrow> bytes option list \<Rightarrow> endpoints \<Rightarrow> ('o, unit res) act" where
  "attemptReset env candidates endpoints = attemptReset_loop env candidates endpoints None"

definition version_ok :: "env \<Rightarrow> ('o, talos_client res) act \<Rightarrow> ('o, bool) act" where
  "version_ok env build =
     do { c \<leftarrow> build;
          (case c of
             Inl _ \<Rightarrow> ret False
           | Inr client \<Rightarrow>
               do { v \<leftarrow> tVersion env client;
                    ret (case v of Inl _ \<Rightarrow> False | Inr _ \<Rightarrow> True) }) }"

definition probeMaintenance :: "env \<Rightarrow> endpoints \<Rightarrow> ('o, bool) act" where
  "probeMaintenance env endpoints = version_ok env (maintenanceClient env endpoints)"

definition probeAuthenticated :: "env \<Rightarrow> endpoints \<Rightarrow> bytes \<Rightarrow> ('o, bool) act" where
  "probeAuthenticated env endpoints talosConfig =
     version_ok env (authenticatedClient env endpoints talosConfig)"

definition restartService :: "env \<Rightarrow> endpoints \<Rightarrow> bytes \<Rightarrow> string \<Rightarrow> ('o, unit res) act" where
  "restartService env endpoints talosConfig serviceID =
     try_or (authenticatedClient env endpoints talosConfig) id (\<lambda>client.
       check_or (tServiceRestart env client serviceID)
         (errorf (''failed to restart service '' @ serviceID)) (ret (Inr ())))"

definition talosServiceRunning :: string where
  "talosServiceRunning = ''Running''"

definition serviceRunning :: "env \<Rightarrow> endpoints \<Rightarrow> bytes \<Rightarrow> string \<Rightarrow> ('o, bool res) act" where
  "serviceRunning env endpoints talosConfig serviceID =
     try_or (authenticatedClient env endpoints talosConfig) id (\<lambda>client.
       try_or (tServiceInfo env client serviceID)
         (errorf (''failed to inspect service '' @ serviceID)) (\<lambda>services.
           ret (Inr (list_ex (\<lambda>svc. siState svc = Some talosServiceRunning) services))))"

fun detect_loop :: "talos_disk list list \<Rightarrow> string res" where
  "detect_loop [] = Inl ErrNoSystemDisk"
| "detect_loop (disks # rest) =
     (case selectSystemDisk disks of Some selected \<Rightarrow> Inr selected | None \<Rightarrow> detect_loop rest)"

definition detectSystemDisk :: "env \<Rightarrow> endpoints \<Rightarrow> bytes option \<Rightarrow> ('o, string res) act" where
  "detectSystemDisk env endpoints talosConfig =
     try_or (clientFor env endpoints talosConfig) id (\<lambda>client.
       try_or (tDisks env client) (errorf ''failed to query disks'') (\<lambda>messages.
         ret (detect_loop messages)))"


section \<open>Version and boot-id\<close>

definition versionProbeWithClient :: "env \<Rightarrow> ('o, talos_client res) act \<Rightarrow> ('o, string res) act" where
  "versionProbeWithClient env buildClient =
     try_or buildClient id (\<lambda>client.
       try_or (tVersion env client) (errorf ''version probe failed'') (\<lambda>messages.
         ret (case messages of
            [] \<Rightarrow> Inl (errorf ''version probe returned no messages'' ErrVersionProbeEmpty)
          | None # _ \<Rightarrow> Inl (errorf ''version probe returned no version info'' ErrVersionProbeNoInfo)
          | Some info # _ \<Rightarrow> Inr (viTag info))))"

definition versionProbeAuthenticated :: "env \<Rightarrow> endpoints \<Rightarrow> bytes \<Rightarrow> ('o, string res) act" where
  "versionProbeAuthenticated env endpoints talosConfig =
     versionProbeWithClient env (authenticatedClient env endpoints talosConfig)"

definition bootIDPath :: string where
  "bootIDPath = ''/proc/sys/kernel/random/boot_id''"

definition boot_read_error :: "goerr \<Rightarrow> goerr" where
  "boot_read_error e = (if is_permission_denied e then ErrBootIDUnauthorized else e)"

text \<open>The boot-id and the error are both results: a failing \<open>Close\<close> is returned together
  with the id.\<close>

definition readBootID :: "env \<Rightarrow> talos_client \<Rightarrow> ('o, string \<times> goerr option) act" where
  "readBootID env client =
     do { opened \<leftarrow> tReadOpen env client bootIDPath;
          (case opened of
             Some e \<Rightarrow> ret ('''', Some (boot_read_error e))
           | None \<Rightarrow>
               do { body \<leftarrow> tReadAll env client bootIDPath;
                    (case body of
                       Inl e \<Rightarrow> ret ('''', Some (boot_read_error e))
                     | Inr txt \<Rightarrow>
                         do { closed \<leftarrow> tReadClose env client bootIDPath;
                              ret (trim_space txt, closed) }) }) }"

definition bootIDAuthenticated ::
  "env \<Rightarrow> endpoints \<Rightarrow> bytes \<Rightarrow> ('o, string \<times> goerr option) act" where
  "bootIDAuthenticated env endpoints talosConfig =
     do { c \<leftarrow> authenticatedClient env endpoints talosConfig;
          (case c of Inl e \<Rightarrow> ret ('''', Some e) | Inr client \<Rightarrow> readBootID env client) }"


section \<open>Lifecycle upgrade\<close>

fun drain_pull :: "unit list \<Rightarrow> goerr option \<Rightarrow> unit res" where
  "drain_pull [] None = Inr ()"
| "drain_pull [] (Some e) = Inl e"
| "drain_pull (_ # rest) end = drain_pull rest end"

definition pullInstallerImage :: "env \<Rightarrow> talos_client \<Rightarrow> string \<Rightarrow> ('o, unit res) act" where
  "pullInstallerImage env client img =
     try_or (tImagePull env client img) id (\<lambda>stream.
       ret (drain_pull (msgs stream) (finish stream)))"

text \<open>The stream is drained to the first exit-code message; the last text message is kept for
  the error. A stream that ends without one is the sentinel code -1.\<close>

fun drain_upgrade :: "install_progress list \<Rightarrow> goerr option \<Rightarrow> string \<Rightarrow> unit res" where
  "drain_upgrade [] None lastMsg = Inl (UpgradeExitCodeError (- 1) lastMsg)"
| "drain_upgrade [] (Some e) lastMsg = Inl e"
| "drain_upgrade (NoProgress # rest) end lastMsg = drain_upgrade rest end lastMsg"
| "drain_upgrade (ProgressMessage m # rest) end lastMsg = drain_upgrade rest end m"
| "drain_upgrade (ProgressExitCode code # rest) end lastMsg =
     (if code = 0 then Inr () else Inl (UpgradeExitCodeError code lastMsg))"

definition runLifecycleUpgrade :: "env \<Rightarrow> talos_client \<Rightarrow> string \<Rightarrow> ('o, unit res) act" where
  "runLifecycleUpgrade env client img =
     try_or (tLifecycleUpgrade env client img) id (\<lambda>stream.
       ret (drain_upgrade (msgs stream) (finish stream) ''''))"

definition rebootMachine :: "env \<Rightarrow> talos_client \<Rightarrow> ('o, goerr option) act" where
  "rebootMachine env client = tReboot env client"

definition upgradeMachine ::
  "env \<Rightarrow> endpoints \<Rightarrow> bytes \<Rightarrow> string \<Rightarrow> ('o, string res) act" where
  "upgradeMachine env endpoints talosConfig img =
     try_or (authenticatedClient env endpoints talosConfig) id (\<lambda>client.
       try_or (pullInstallerImage env client img)
         (errorf (''failed to pull installer image '' @ img)) (\<lambda>_.
         try_or (runLifecycleUpgrade env client img)
           (errorf (''failed to upgrade machine to '' @ img)) (\<lambda>_.
           do { b \<leftarrow> readBootID env client;
                let bootID = (case b of
                    (bid, Some e) \<Rightarrow> (if \<not> errors_is e ErrBootIDUnauthorized then '''' else bid)
                  | (bid, None) \<Rightarrow> bid);
                _ \<leftarrow> rebootMachine env client;
                ret (Inr bootID) })))"


section \<open>What the helpers call\<close>

text \<open>The only calls of a client set-up are dials; the probes add Version calls; and so on.
  \<open>talos_only\<close> says that a step calls the Talos API (or reads nothing at all).\<close>

definition talos_only :: "event \<Rightarrow> bool" where
  "talos_only e = (case e of Talos _ \<Rightarrow> True | _ \<Rightarrow> False)"

definition harmless :: "event \<Rightarrow> bool" where
  "harmless e \<longleftrightarrow> talos_only e \<and> \<not> is_disruptive e"

lemma talos_only_simps [simp]:
  "talos_only (Talos t)" "\<not> talos_only (Kube k)" "\<not> talos_only (Workload w)" "\<not> talos_only (Clock n)"
  by (simp_all add: talos_only_def)

lemma harmless_simps [simp]:
  "harmless (Talos (EvDial c r))" "harmless (Talos (EvVersion c v))" "harmless (Talos (EvDisks c d))"
  "harmless (Talos (EvReadFile c p b))" "harmless (Talos (EvServiceInfo c n i))"
  "harmless (Talos (EvImagePull c g s))" "harmless (Talos (EvServiceRestart c n r))"
  "harmless (Talos (EvDiscovery c p))"
  "\<not> harmless (Talos (EvReset c r))" "\<not> harmless (Kube k)" "\<not> harmless (Workload w)"
  "\<not> harmless (Clock t)"
  by (simp_all add: harmless_def is_disruptive_def)

lemma emits_dial [emits_intros]: "(\<And>r. E (Talos (EvDial c r))) \<Longrightarrow> emits E (dial env c what)"
  unfolding dial_def by (intro emits_intros)

lemma emits_maintenanceClient [emits_intros]:
  "(\<And>c r. E (Talos (EvDial c r))) \<Longrightarrow> emits E (maintenanceClient env eps)"
  unfolding maintenanceClient_def by (intro emits_intros)

lemma emits_authenticatedClient [emits_intros]:
  "(\<And>c r. E (Talos (EvDial c r))) \<Longrightarrow> emits E (authenticatedClient env eps cfg)"
  unfolding authenticatedClient_def by (intro emits_intros)

lemma emits_clientFor [emits_intros]:
  "(\<And>c r. E (Talos (EvDial c r))) \<Longrightarrow> emits E (clientFor env eps cfg)"
  unfolding clientFor_def by (intro emits_intros)

lemma emits_version_ok [emits_intros]:
  "emits E m \<Longrightarrow> (\<And>c r. E (Talos (EvVersion c r))) \<Longrightarrow> emits E (version_ok env m)"
  unfolding version_ok_def by (intro emits_intros)

lemma harmless_probes [emits_intros]:
  "emits harmless (probeMaintenance env eps)"
  "emits harmless (probeAuthenticated env eps cfg)"
  "emits harmless (restartService env eps cfg svc)"
  "emits harmless (serviceRunning env eps cfg svc)"
  "emits harmless (detectSystemDisk env eps tc)"
  "emits harmless (versionProbeAuthenticated env eps cfg)"
  "emits harmless (readBootID env client)"
  "emits harmless (bootIDAuthenticated env eps cfg)"
  "emits harmless (pullInstallerImage env client img)"
  unfolding probeMaintenance_def probeAuthenticated_def restartService_def serviceRunning_def
    detectSystemDisk_def versionProbeAuthenticated_def versionProbeWithClient_def
    bootIDAuthenticated_def readBootID_def pullInstallerImage_def
  by (intro emits_intros; simp)+

lemma keeps_clients [keeps_intros]:
  "keeps (dial env c what)" "keeps (maintenanceClient env eps)"
  "keeps (authenticatedClient env eps cfg)" "keeps (clientFor env eps tc)"
  unfolding clientFor_def authenticatedClient_def maintenanceClient_def dial_def
  by (intro keeps_intros)+

lemma keeps_version_ok [keeps_intros]: "keeps m \<Longrightarrow> keeps (version_ok env m)"
  unfolding version_ok_def by (intro keeps_intros)

lemma keeps_probes [keeps_intros]:
  "keeps (applyMachineConfig env eps mc tc)"
  "keeps (resetMachine env eps tc)"
  "keeps (probeMaintenance env eps)"
  "keeps (probeAuthenticated env eps cfg)"
  "keeps (restartService env eps cfg svc)"
  "keeps (serviceRunning env eps cfg svc)"
  "keeps (detectSystemDisk env eps tc)"
  "keeps (versionProbeAuthenticated env eps cfg)"
  "keeps (readBootID env client)"
  "keeps (bootIDAuthenticated env eps cfg)"
  "keeps (pullInstallerImage env client img)"
  "keeps (runLifecycleUpgrade env client img)"
  "keeps (rebootMachine env client)"
  unfolding probeMaintenance_def probeAuthenticated_def restartService_def serviceRunning_def
    detectSystemDisk_def versionProbeAuthenticated_def versionProbeWithClient_def
    bootIDAuthenticated_def readBootID_def pullInstallerImage_def applyMachineConfig_def
    resetMachine_def runLifecycleUpgrade_def rebootMachine_def
  by (intro keeps_intros)+

lemma keeps_upgradeMachine [keeps_intros]: "keeps (upgradeMachine env eps cfg img)"
  unfolding upgradeMachine_def Let_def by (intro keeps_intros)

lemma keeps_attemptReset_loop: "keeps (attemptReset_loop env cs eps e)"
  by (induction cs arbitrary: e) (auto intro!: keeps_intros split: sum.split)

lemma keeps_attemptReset [keeps_intros]: "keeps (attemptReset env cs eps)"
  unfolding attemptReset_def by (rule keeps_attemptReset_loop)

end
