(* ===== verification/NetAddr.thy ===== *)
theory NetAddr
  imports Types
begin

text \<open>
  Go's \<open>net.ParseIP\<close> and \<open>IP.IsPrivate\<close> as used by \<open>isRFC1918\<close> of
  \<open>pkg/controller/discovery.go\<close>: dotted-decimal IPv4 and colon-hexadecimal IPv6 text (with
  \<open>::\<close> and an embedded IPv4 tail), no zones.
\<close>

section \<open>IPv4\<close>

fun split_on :: "char \<Rightarrow> string \<Rightarrow> string list" where
  "split_on sep [] = [[]]"
| "split_on sep (c # cs) =
     (if c = sep then [] # split_on sep cs
      else (case split_on sep cs of [] \<Rightarrow> [[c]] | w # ws \<Rightarrow> (c # w) # ws))"

definition parse_octet :: "string \<Rightarrow> int option" where
  "parse_octet s =
     (if s \<noteq> [] \<and> list_all is_digit s \<and> (hd s = CHR ''0'' \<longrightarrow> length s = 1) \<and> parse_dec s \<le> 255
      then Some (int (parse_dec s)) else None)"

definition parse_ipv4 :: "string \<Rightarrow> int list option" where
  "parse_ipv4 s =
     (let parts = map parse_octet (split_on CHR ''.'' s) in
      if length parts = 4 \<and> None \<notin> set parts then Some (map the parts) else None)"

section \<open>IPv6\<close>

definition hex_val :: "char \<Rightarrow> int option" where
  "hex_val c = (let n = (of_char c :: nat) in
     if 48 \<le> n \<and> n \<le> 57 then Some (int n - 48)
     else if 97 \<le> n \<and> n \<le> 102 then Some (int n - 87)
     else if 65 \<le> n \<and> n \<le> 70 then Some (int n - 55)
     else None)"

definition is_hex :: "char \<Rightarrow> bool" where
  "is_hex c \<longleftrightarrow> hex_val c \<noteq> None"

definition parse_hex :: "string \<Rightarrow> int" where
  "parse_hex s = foldl (\<lambda>acc c. acc * 16 + the (hex_val c)) 0 s"

text \<open>The group loop: bytes read so far and the position of the ellipsis. It returns the text
  left over, the bytes and the ellipsis; \<open>None\<close> is a parse error.\<close>

function ipv6_loop :: "string \<Rightarrow> int list \<Rightarrow> nat option \<Rightarrow> (string \<times> int list \<times> nat option) option"
where
  "ipv6_loop s ip ellipsis =
     (if 16 \<le> length ip then Some (s, ip, ellipsis)
      else
       (let digits = takeWhile is_hex s; rest = drop (length digits) s in
        if digits = [] \<or> 4 < length digits then None
        else if rest \<noteq> [] \<and> hd rest = CHR ''.'' then
          (if ellipsis = None \<and> length ip \<noteq> 12 then None
           else if 16 < length ip + 4 then None
           else (case parse_ipv4 s of None \<Rightarrow> None | Some quad \<Rightarrow> Some ([], ip @ quad, ellipsis)))
        else
          (let ip = ip @ [parse_hex digits div 256, parse_hex digits mod 256] in
           case rest of
             [] \<Rightarrow> Some ([], ip, ellipsis)
           | c # s \<Rightarrow>
               if c \<noteq> CHR '':'' \<or> s = [] then None
               else if hd s = CHR '':'' then
                 (if ellipsis \<noteq> None then None
                  else if tl s = [] then Some ([], ip, Some (length ip))
                  else ipv6_loop (tl s) ip (Some (length ip)))
               else ipv6_loop s ip ellipsis)))"
  by pat_completeness auto
termination
proof (relation "measure (\<lambda>(s, ip, ellipsis). length s)", goal_cases)
  case 1
  show ?case by simp
next
  case (2 s ip ellipsis digits rest ip' c cs)
  then have "length (c # cs) \<le> length s" by (metis diff_le_self length_drop)
  then show ?case by simp
next
  case (3 s ip ellipsis digits rest ip' c cs)
  then have "length (c # cs) \<le> length s" by (metis diff_le_self length_drop)
  then show ?case by simp
qed

declare ipv6_loop.simps [simp del]

definition parse_ipv6 :: "string \<Rightarrow> int list option" where
  "parse_ipv6 s =
     (if CHR ''%'' \<in> set s then None
      else
       (let leading = has_prefix ''::'' s;
            s' = (if leading then drop 2 s else s);
            ellipsis = (if leading then Some 0 else None) in
        if leading \<and> s' = [] then Some (replicate 16 0)
        else (case ipv6_loop s' [] ellipsis of
            None \<Rightarrow> None
          | Some (rest, ip, ell) \<Rightarrow>
              if rest \<noteq> [] then None
              else if length ip < 16 then
                (case ell of
                   None \<Rightarrow> None
                 | Some e \<Rightarrow> Some (take e ip @ replicate (16 - length ip) 0 @ drop e ip))
              else if ell \<noteq> None then None
              else Some ip)))"

section \<open>ParseIP, IsPrivate\<close>

text \<open>An IPv4 address is kept as its 4 bytes; a 16-byte address with the prefix
  \<open>::ffff:0:0/96\<close> reads as IPv4 (\<open>To4\<close>).\<close>

definition parse_ip :: "string \<Rightarrow> int list option" where
  "parse_ip s =
     (case find (\<lambda>c. c \<in> {CHR ''.'', CHR '':'', CHR ''%''}) s of
        Some c \<Rightarrow>
          (if c = CHR ''.'' then parse_ipv4 s
           else if c = CHR '':'' then parse_ipv6 s
           else None)
      | None \<Rightarrow> None)"

definition to4 :: "int list \<Rightarrow> int list option" where
  "to4 ip =
     (if length ip = 4 then Some ip
      else if length ip = 16 \<and> take 10 ip = replicate 10 0 \<and> ip ! 10 = 255 \<and> ip ! 11 = 255
      then Some (drop 12 ip) else None)"

definition is_private :: "int list \<Rightarrow> bool" where
  "is_private ip =
     (case to4 ip of
        Some ip4 \<Rightarrow>
          ip4 ! 0 = 10
          \<or> (ip4 ! 0 = 172 \<and> ip4 ! 1 div 16 = 1)
          \<or> (ip4 ! 0 = 192 \<and> ip4 ! 1 = 168)
      | None \<Rightarrow> length ip = 16 \<and> ip ! 0 div 2 = 126)"

definition isRFC1918 :: "string \<Rightarrow> bool" where
  "isRFC1918 ipStr = (case parse_ip ipStr of None \<Rightarrow> False | Some ip \<Rightarrow> is_private ip)"

section \<open>Round trip of dotted-decimal text\<close>

definition dotted :: "nat \<Rightarrow> nat \<Rightarrow> nat \<Rightarrow> nat \<Rightarrow> string" where
  "dotted a b c d = dec_nat a @ ''.'' @ dec_nat b @ ''.'' @ dec_nat c @ ''.'' @ dec_nat d"

lemma split_on_no_sep: "sep \<notin> set s \<Longrightarrow> split_on sep s = [s]"
  by (induction s) auto

lemma split_on_append: "sep \<notin> set s \<Longrightarrow> split_on sep (s @ sep # t) = s # split_on sep t"
  by (induction s) auto

lemma dot_not_in_dec: "CHR ''.'' \<notin> set (dec_nat n)"
  using dec_nat_digits [of n] by (auto simp: list_all_iff is_digit_def)

lemma dec_nat_small: "n < 10 \<Longrightarrow> dec_nat n = [digit_char n]"
  by (simp add: dec_nat.simps [of n])

lemma hd_dec_nat: "0 < n \<Longrightarrow> hd (dec_nat n) \<noteq> CHR ''0''"
proof (induction n rule: dec_nat.induct)
  case (1 n)
  show ?case
  proof (cases "n < 10")
    case True
    have "digit_val (hd (dec_nat n)) = n" using True by (simp add: dec_nat_small)
    moreover have "digit_val CHR ''0'' = 0" by (simp add: digit_val_def)
    ultimately show ?thesis using "1.prems" by auto
  next
    case False
    with 1 show ?thesis by (simp add: dec_nat.simps [of n])
  qed
qed

lemma parse_octet_dec: "n \<le> 255 \<Longrightarrow> parse_octet (dec_nat n) = Some (int n)"
proof (cases "n = 0")
  case True
  then show ?thesis
    by (simp add: parse_octet_def dec_nat_small parse_dec_def is_digit_digit_char)
next
  case False
  then show "n \<le> 255 \<Longrightarrow> parse_octet (dec_nat n) = Some (int n)"
    using dec_nat_digits [of n] hd_dec_nat [of n] by (simp add: parse_octet_def)
qed

lemma parse_ipv4_dotted:
  assumes "a \<le> 255" "b \<le> 255" "c \<le> 255" "d \<le> 255"
  shows "parse_ipv4 (dotted a b c d) = Some [int a, int b, int c, int d]"
  using assms
  by (simp add: parse_ipv4_def dotted_def split_on_append split_on_no_sep dot_not_in_dec
      parse_octet_dec)

lemma find_dot_dotted:
  "find (\<lambda>x. x \<in> {CHR ''.'', CHR '':'', CHR ''%''}) (dotted a b c d) = Some CHR ''.''"
proof -
  have "find P (xs @ y # ys) = Some y" if "list_all (\<lambda>x. \<not> P x) xs" "P y"
    for P and xs ys :: string and y
    using that by (induction xs) auto
  moreover have "list_all (\<lambda>x. x \<notin> {CHR ''.'', CHR '':'', CHR ''%''}) (dec_nat a)"
    using dec_nat_digits [of a] by (auto simp: list_all_iff is_digit_def)
  ultimately show ?thesis by (simp add: dotted_def)
qed

section \<open>Private networks\<close>

definition ipv4_number :: "nat \<Rightarrow> nat \<Rightarrow> nat \<Rightarrow> nat \<Rightarrow> nat" where
  "ipv4_number a b c d = ((a * 256 + b) * 256 + c) * 256 + d"

definition in_cidr :: "nat \<Rightarrow> nat \<Rightarrow> nat \<Rightarrow> bool" where
  "in_cidr base len n \<longleftrightarrow> n div 2 ^ (32 - len) = base div 2 ^ (32 - len)"

text \<open>On every dotted-decimal IPv4 address \<open>isRFC1918\<close> decides membership in the three
  networks of RFC 1918: 10.0.0.0/8, 172.16.0.0/12 and 192.168.0.0/16.\<close>

theorem isRFC1918_dotted:
  assumes "a \<le> 255" "b \<le> 255" "c \<le> 255" "d \<le> 255"
  shows "isRFC1918 (dotted a b c d) \<longleftrightarrow>
    (let n = ipv4_number a b c d in
      in_cidr (ipv4_number 10 0 0 0) 8 n \<or> in_cidr (ipv4_number 172 16 0 0) 12 n
      \<or> in_cidr (ipv4_number 192 168 0 0) 16 n)"
proof -
  have "isRFC1918 (dotted a b c d) \<longleftrightarrow> a = 10 \<or> a = 172 \<and> b div 16 = 1 \<or> a = 192 \<and> b = 168"
    by (simp add: isRFC1918_def parse_ip_def find_dot_dotted [simplified] parse_ipv4_dotted [OF assms]
        is_private_def to4_def, linarith?)
  moreover have "ipv4_number a b c d div 2 ^ 24 = a" "ipv4_number a b c d div 2 ^ 16 = a * 256 + b"
    "ipv4_number a b c d div 2 ^ 20 = a * 16 + b div 16"
    using assms by (simp_all add: ipv4_number_def)
  moreover have "a * 256 + b = 49320 \<longleftrightarrow> a = 192 \<and> b = 168" using assms(2) by presburger
  moreover have "a * 16 + m = 2753 \<longleftrightarrow> a = 172 \<and> m = 1" if "m \<le> 15" for m
    using that by presburger
  moreover have "b div 16 \<le> 15" using assms(2) by auto
  ultimately show ?thesis
    by (simp add: in_cidr_def Let_def ipv4_number_def [of 10] ipv4_number_def [of 172]
        ipv4_number_def [of 192])
qed

lemma isRFC1918_dotted_witness: "isRFC1918 ''172.31.0.9'' \<and> \<not> isRFC1918 ''172.32.0.9''"
proof -
  have "''172.31.0.9'' = dotted 172 31 0 9" "''172.32.0.9'' = dotted 172 32 0 9"
    by code_simp+
  then show ?thesis
    using isRFC1918_dotted [of 172 31 0 9] isRFC1918_dotted [of 172 32 0 9]
    by (simp add: in_cidr_def ipv4_number_def Let_def)
qed

text \<open>The address is not required to be IPv4: unique local IPv6 addresses count as private too.\<close>

lemma isRFC1918_accepts_ipv6: "isRFC1918 ''fd00::1''"
  by code_simp

end
