(* ===== verification/Discovery.thy ===== *)
theory Discovery
  imports TalosClient NetAddr
begin

text \<open>
  Maintenance-mode discovery of a host (\<open>pkg/controller/discovery.go\<close>, from
  \<open>discoverHost\<close>): the sequence of Talos calls and what each contributes to the
  \<open>DiscoveryResult\<close>. The loops over answers are pure functions; the COSI reads are
  best-effort (an error leaves the result as it is), the Version, Memory, Disks and
  interface listings are not (their error ends the discovery).
\<close>

record discovery_result =
  rTalosVersion :: string
  rArch :: string
  rPlatform :: string
  rCPU :: host_cpu
  rMemory :: quantity
  rDisks :: "host_disk list"
  rNetworkInterfaces :: "string list"
  rExternalIP :: string
  rInternalIP :: string
  rGPUs :: "host_gpu option"
  rIdentity :: "host_identity option"

definition empty_result :: "'z lib_scheme \<Rightarrow> discovery_result" where
  "empty_result L =
     \<lparr>rTalosVersion = '''', rArch = '''', rPlatform = '''',
      rCPU = \<lparr>cores = 0, packages = 0, numaNodes = 0\<rparr>,
      rMemory = l_zero_quantity L, rDisks = [], rNetworkInterfaces = [],
      rExternalIP = '''', rInternalIP = '''', rGPUs = None, rIdentity = None\<rparr>"


section \<open>Version, memory, disks\<close>

definition discoverVersion ::
  "env \<Rightarrow> talos_client \<Rightarrow> discovery_result \<Rightarrow> ('o, discovery_result res) act" where
  "discoverVersion env client result =
     try_or (tVersion env client) id (\<lambda>messages.
       ret (Inr (case messages of
           Some info # _ \<Rightarrow> result\<lparr>rTalosVersion := viTag info, rArch := viArch info\<rparr>
         | _ \<Rightarrow> result)))"

definition discoverMemory ::
  "env \<Rightarrow> talos_client \<Rightarrow> discovery_result \<Rightarrow> ('o, discovery_result res) act" where
  "discoverMemory env client result =
     try_or (tMemory env client) id (\<lambda>messages.
       ret (Inr (case messages of
           Some memtotal # _ \<Rightarrow>
             (if 0 < memtotal
              then result\<lparr>rMemory := l_parse_quantity env (format_int memtotal @ ''Ki'')\<rparr>
              else result)
         | _ \<Rightarrow> result)))"

definition discoverDisks ::
  "env \<Rightarrow> talos_client \<Rightarrow> discovery_result \<Rightarrow> ('o, discovery_result res) act" where
  "discoverDisks env client result =
     try_or (tDisks env client) id (\<lambda>messages.
       ret (Inr (case messages of
           [] \<Rightarrow> result
         | disks # _ \<Rightarrow> result\<lparr>rDisks := rDisks result @ map (diskToHostDisk env) disks\<rparr>)))"


section \<open>CPU, GPUs, platform\<close>

definition discoverCPU :: "env \<Rightarrow> talos_client \<Rightarrow> discovery_result \<Rightarrow> ('o, discovery_result) act" where
  "discoverCPU env client result =
     do { procs \<leftarrow> tProcessors env client;
          ret (result\<lparr>rCPU := (case procs of Inl _ \<Rightarrow> default_cpu | Inr ps \<Rightarrow> cpu_of_processors ps)\<rparr>) }"

definition discoverGPUs :: "env \<Rightarrow> talos_client \<Rightarrow> discovery_result \<Rightarrow> ('o, discovery_result) act" where
  "discoverGPUs env client result =
     do { devs \<leftarrow> tPCIDevices env client;
          ret (case devs of
             Inl _ \<Rightarrow> result
           | Inr ds \<Rightarrow> (case gpu_summary env ds of None \<Rightarrow> result | Some g \<Rightarrow> result\<lparr>rGPUs := Some g\<rparr>)) }"

text \<open>\<open>talos\.platform=(\S+)\<close>: the leftmost occurrence followed by a non-space character;
  the group is the longest run of non-space characters. RE2's \<open>\s\<close> is tab, newline, form
  feed, carriage return and space.\<close>

definition re_space :: "char \<Rightarrow> bool" where
  "re_space c \<longleftrightarrow> (of_char c :: nat) \<in> {9, 10, 12, 13, 32}"

definition platform_key :: string where
  "platform_key = ''talos.platform=''"

fun parsePlatform :: "string \<Rightarrow> string" where
  "parsePlatform [] = []"
| "parsePlatform (c # cs) =
     (let value = takeWhile (\<lambda>x. \<not> re_space x) (drop (length platform_key) (c # cs)) in
      if has_prefix platform_key (c # cs) \<and> value \<noteq> [] then value else parsePlatform cs)"

definition discoverPlatform ::
  "env \<Rightarrow> talos_client \<Rightarrow> discovery_result \<Rightarrow> ('o, discovery_result) act" where
  "discoverPlatform env client result =
     do { cmdline \<leftarrow> tKernelCmdline env client;
          ret (case cmdline of Inl _ \<Rightarrow> result | Inr c \<Rightarrow> result\<lparr>rPlatform := parsePlatform c\<rparr>) }"


section \<open>NUMA nodes and network interfaces\<close>

definition entry_name :: "dir_entry \<Rightarrow> string" where
  "entry_name info = (if deRelativeName info = '''' then deName info else deRelativeName info)"

definition isNumaNodeDir :: "string \<Rightarrow> bool" where
  "isNumaNodeDir name \<longleftrightarrow>
     has_prefix ''node'' name \<and> drop 4 name \<noteq> [] \<and> list_all is_digit (drop 4 name)"

fun numa_loop :: "dir_entry option list \<Rightarrow> int \<Rightarrow> int" where
  "numa_loop [] count = count"
| "numa_loop (None # rest) count = numa_loop rest count"
| "numa_loop (Some info # rest) count =
     numa_loop rest (if isNumaNodeDir (entry_name info) then count + 1 else count)"

definition discoverNumaNodes ::
  "env \<Rightarrow> talos_client \<Rightarrow> discovery_result \<Rightarrow> ('o, discovery_result) act" where
  "discoverNumaNodes env client result =
     do { stream \<leftarrow> tLS env client ''/sys/devices/system/node'';
          ret (case stream of
             Inl _ \<Rightarrow> result
           | Inr st \<Rightarrow>
               (case finish st of
                  Some _ \<Rightarrow> result
                | None \<Rightarrow>
                    (let count = numa_loop (msgs st) 0 in
                     if 0 < count then result\<lparr>rCPU := (rCPU result)\<lparr>numaNodes := i32 count\<rparr>\<rparr>
                     else result))) }"

fun iface_loop :: "dir_entry option list \<Rightarrow> string list \<Rightarrow> string list" where
  "iface_loop [] ifaces = ifaces"
| "iface_loop (None # rest) ifaces = iface_loop rest ifaces"
| "iface_loop (Some info # rest) ifaces =
     (let name = entry_name info in
      if name = '''' \<or> name = ''lo'' \<or> name = ''.'' then iface_loop rest ifaces
      else iface_loop rest (ifaces @ [name]))"

definition discoverNetInterfaces ::
  "env \<Rightarrow> talos_client \<Rightarrow> discovery_result \<Rightarrow> ('o, discovery_result res) act" where
  "discoverNetInterfaces env client result =
     try_or (tLS env client ''/sys/class/net'') id (\<lambda>stream.
       ret (case finish stream of
          Some e \<Rightarrow> Inl e
        | None \<Rightarrow> Inr (result\<lparr>rNetworkInterfaces := sort (iface_loop (msgs stream) [])\<rparr>)))"


section \<open>Addresses and identity\<close>

fun address_loop :: "string \<Rightarrow> address_status list \<Rightarrow> discovery_result \<Rightarrow> discovery_result" where
  "address_loop publicIP [] result = result"
| "address_loop publicIP (spec # rest) result =
     (if asFamily spec \<noteq> FamilyInet4 then address_loop publicIP rest result
      else if asScope spec = ScopeLink \<or> asLinkName spec = ''lo'' then address_loop publicIP rest result
      else (let ipStr = asAddress spec in
        if ipStr = '''' then address_loop publicIP rest result
        else if ipStr = publicIP then address_loop publicIP rest (result\<lparr>rExternalIP := ipStr\<rparr>)
        else if rInternalIP result = '''' \<and> isRFC1918 ipStr
        then address_loop publicIP rest (result\<lparr>rInternalIP := ipStr\<rparr>)
        else address_loop publicIP rest result))"

definition discoverAddresses ::
  "env \<Rightarrow> talos_client \<Rightarrow> string \<Rightarrow> discovery_result \<Rightarrow> ('o, discovery_result) act" where
  "discoverAddresses env client publicIP result =
     do { addrs \<leftarrow> tAddresses env client;
          ret (case addrs of Inl _ \<Rightarrow> result | Inr as \<Rightarrow> address_loop publicIP as result) }"

definition empty_identity :: host_identity where
  "empty_identity =
     \<lparr>systemUUID = '''', serialNumber = '''', manufacturer = '''', productName = '''',
      hardwareAddr = ''''\<rparr>"

definition populateSystemIdentity ::
  "env \<Rightarrow> talos_client \<Rightarrow> host_identity \<Rightarrow> ('o, host_identity) act" where
  "populateSystemIdentity env client identity =
     do { sysInfo \<leftarrow> tSystemInformation env client;
          ret (case sysInfo of
             Inr (Some spec) \<Rightarrow>
               identity\<lparr>systemUUID := siUUID spec, serialNumber := siSerialNumber spec,
                        manufacturer := siManufacturer spec, productName := siProductName spec\<rparr>
           | _ \<Rightarrow> identity) }"

definition populateHardwareAddr ::
  "env \<Rightarrow> talos_client \<Rightarrow> host_identity \<Rightarrow> ('o, host_identity) act" where
  "populateHardwareAddr env client identity =
     do { hwAddr \<leftarrow> tHardwareAddr env client;
          ret (case hwAddr of
             Inr (Some mac) \<Rightarrow>
               (if 0 < length mac \<and> mac \<noteq> replicate (length mac) 0
                then identity\<lparr>hardwareAddr := t_mac_string env mac\<rparr> else identity)
           | _ \<Rightarrow> identity) }"

definition discoverIdentity ::
  "env \<Rightarrow> talos_client \<Rightarrow> discovery_result \<Rightarrow> ('o, discovery_result) act" where
  "discoverIdentity env client result =
     do { identity \<leftarrow> populateSystemIdentity env client empty_identity;
          identity \<leftarrow> populateHardwareAddr env client identity;
          ret (if systemUUID identity \<noteq> '''' \<or> hardwareAddr identity \<noteq> '''' \<or>
                  serialNumber identity \<noteq> '''' \<or> manufacturer identity \<noteq> '''' \<or>
                  productName identity \<noteq> ''''
               then result\<lparr>rIdentity := Some identity\<rparr> else result) }"


section \<open>The discovery sequence\<close>

definition discoverHost :: "env \<Rightarrow> endpoints \<Rightarrow> string \<Rightarrow> ('o, discovery_result res) act" where
  "discoverHost env endpoints publicIP =
     try_or (maintenanceClient env endpoints) id (\<lambda>client.
       try_or (discoverVersion env client (empty_result env)) (errorf ''version discovery'') (\<lambda>result.
       try_or (discoverMemory env client result) (errorf ''memory discovery'') (\<lambda>result.
       try_or (discoverDisks env client result) (errorf ''disk discovery'') (\<lambda>result.
       do { result \<leftarrow> discoverCPU env client result;
            result \<leftarrow> discoverGPUs env client result;
            result \<leftarrow> discoverPlatform env client result;
            result \<leftarrow> discoverNumaNodes env client result;
            try_or (discoverNetInterfaces env client result) (errorf ''net discovery'') (\<lambda>result.
              do { result \<leftarrow> discoverAddresses env client publicIP result;
                   result \<leftarrow> discoverIdentity env client result;
                   ret (Inr result) }) }))))"


section \<open>Lemmas on the loops\<close>

lemma parsePlatform_no_space: "c \<in> set (parsePlatform s) \<Longrightarrow> \<not> re_space c"
  by (induction s) (auto simp: Let_def split: if_splits dest: set_takeWhileD)

lemma parsePlatform_occurs:
  "parsePlatform s = v \<Longrightarrow> v \<noteq> [] \<Longrightarrow> \<exists>a b. s = a @ platform_key @ v @ b"
proof (induction s)
  case Nil
  then show ?case by simp
next
  case (Cons c cs)
  let ?v = "takeWhile (\<lambda>x. \<not> re_space x) (drop (length platform_key) (c # cs))"
  show ?case
  proof (cases "has_prefix platform_key (c # cs) \<and> ?v \<noteq> []")
    case True
    then obtain t where t: "c # cs = platform_key @ t" by (auto simp: has_prefix_iff)
    from True Cons.prems have "v = ?v" by (auto simp: Let_def split: if_splits)
    then have "v = takeWhile (\<lambda>x. \<not> re_space x) t" by (simp add: t)
    then have "t = v @ dropWhile (\<lambda>x. \<not> re_space x) t" by simp
    with t show ?thesis by (metis append_Nil)
  next
    case False
    with Cons.prems have "parsePlatform cs = v" by (auto simp: Let_def split: if_splits)
    with Cons.IH Cons.prems(2) obtain a b where "cs = a @ platform_key @ v @ b" by blast
    then have "c # cs = (c # a) @ platform_key @ v @ b" by simp
    then show ?thesis by blast
  qed
qed

lemma numa_loop_eq:
  "numa_loop es n = n + int (length (filter (\<lambda>e. \<exists>i. e = Some i \<and> isNumaNodeDir (entry_name i)) es))"
  by (induction es n rule: numa_loop.induct) auto

lemma set_iface_loop:
  "set (iface_loop es acc) =
     set acc \<union> {entry_name i | i. Some i \<in> set es \<and> entry_name i \<notin> {'''', ''lo'', ''.''}}"
  by (induction es acc rule: iface_loop.induct) (auto simp: Let_def)

definition usable_address :: "address_status \<Rightarrow> bool" where
  "usable_address a \<longleftrightarrow>
     asFamily a = FamilyInet4 \<and> asScope a \<noteq> ScopeLink \<and> asLinkName a \<noteq> ''lo'' \<and> asAddress a \<noteq> ''''"

definition internal_candidate :: "string \<Rightarrow> address_status \<Rightarrow> bool" where
  "internal_candidate publicIP a \<longleftrightarrow>
     usable_address a \<and> asAddress a \<noteq> publicIP \<and> isRFC1918 (asAddress a)"

lemma address_loop_Cons:
  "address_loop p (a # as) r = address_loop p as
     (if \<not> usable_address a then r
      else if asAddress a = p then r\<lparr>rExternalIP := p\<rparr>
      else if rInternalIP r = [] \<and> isRFC1918 (asAddress a) then r\<lparr>rInternalIP := asAddress a\<rparr>
      else r)"
  by (simp add: Let_def usable_address_def)

declare address_loop.simps(2) [simp del]
declare address_loop_Cons [simp]

lemma address_loop_external:
  "rExternalIP (address_loop p as r) =
     (if \<exists>a \<in> set as. usable_address a \<and> asAddress a = p then p else rExternalIP r)"
  by (induction as arbitrary: r) auto

lemma usable_nonempty: "usable_address a \<Longrightarrow> asAddress a \<noteq> []"
  by (simp add: usable_address_def)

lemma address_loop_internal:
  "rInternalIP (address_loop p as r) =
     (if rInternalIP r \<noteq> '''' then rInternalIP r
      else (case find (internal_candidate p) as of Some a \<Rightarrow> asAddress a | None \<Rightarrow> ''''))"
proof (induction as arbitrary: r)
  case Nil
  then show ?case by simp
next
  case (Cons a as)
  show ?case
    by (cases "internal_candidate p a"; cases "rInternalIP r = []")
       (auto simp: Cons.IH internal_candidate_def [of p a] dest: usable_nonempty)
qed

lemma address_loop_frame:
  "rTalosVersion (address_loop p as r) = rTalosVersion r"
  "rGPUs (address_loop p as r) = rGPUs r" "rCPU (address_loop p as r) = rCPU r"
  "rNetworkInterfaces (address_loop p as r) = rNetworkInterfaces r"
  by (induction as arbitrary: r) auto

lemma harmless_discoverHost [emits_intros]: "emits harmless (discoverHost env eps ip)"
  unfolding discoverHost_def discoverVersion_def discoverMemory_def discoverDisks_def
    discoverCPU_def discoverGPUs_def discoverPlatform_def discoverNumaNodes_def
    discoverNetInterfaces_def discoverAddresses_def discoverIdentity_def
    populateSystemIdentity_def populateHardwareAddr_def
  by (intro emits_intros; simp)+

lemma keeps_discoverHost [keeps_intros]: "keeps (discoverHost env eps ip)"
  unfolding discoverHost_def discoverVersion_def discoverMemory_def discoverDisks_def
    discoverCPU_def discoverGPUs_def discoverPlatform_def discoverNumaNodes_def
    discoverNetInterfaces_def discoverAddresses_def discoverIdentity_def
    populateSystemIdentity_def populateHardwareAddr_def
  by (intro keeps_intros)

end
