(* ===== verification/Labels.thy ===== *)
theory Labels
  imports Hardware
begin

text \<open>
  The controller-managed \<open>byot.io/\<close> labels of a ByotHost (second half of
  \<open>pkg/controller/discovery.go\<close>): rounding of capacities, the promoted hardware subset and
  \<open>applyDiscoveryLabels\<close>, which recomputes the managed labels from spec and status and keeps
  every operator label.
\<close>

section \<open>Rounding\<close>

definition gib_bytes :: int where "gib_bytes = 2 ^ 30"
definition tib_bytes :: int where "tib_bytes = 2 ^ 40"

text \<open>\<open>roundQuantity\<close> on the quantity's value; int64 arithmetic, division truncating.\<close>

definition round_value :: "int \<Rightarrow> string" where
  "round_value value =
     (let gibCount = go_div (i64 (value + go_div gib_bytes 2)) gib_bytes;
          perTib = go_div tib_bytes gib_bytes
      in if perTib \<le> gibCount then
           (let tibCount = go_div (i64 (gibCount + go_div perTib 2)) perTib
            in format_int tibCount @ ''T'')
         else format_int gibCount @ ''G'')"

definition roundQuantity :: "'z lib_scheme \<Rightarrow> quantity \<Rightarrow> string" where
  "roundQuantity L q = round_value (l_quantity_value L q)"

lemma per_tib: "go_div tib_bytes gib_bytes = 1024" "go_div gib_bytes 2 = 2 ^ 29" "go_div 1024 2 = 512"
  by (simp_all add: go_div_def tib_bytes_def gib_bytes_def)

text \<open>The nearest GiB, and the nearest TiB of that from 1024 GiB on.\<close>

definition gib_count :: "int \<Rightarrow> int" where
  "gib_count v = (v + 2 ^ 29) div 2 ^ 30"

definition tib_count :: "int \<Rightarrow> int" where
  "tib_count v = (gib_count v + 512) div 1024"

lemma round_value_eq:
  assumes "0 \<le> v" and "v < 2 ^ 63 - 2 ^ 29"
  shows "round_value v =
    (if 1024 \<le> gib_count v then dec_nat (nat (tib_count v)) @ ''T''
     else dec_nat (nat (gib_count v)) @ ''G'')"
proof -
  have id: "i64 (v + 2 ^ 29) = v + 2 ^ 29" using assms by (intro i64_id) auto
  then have gib: "go_div (i64 (v + 2 ^ 29)) gib_bytes = gib_count v"
    using assms by (simp add: gib_count_def go_div_nonneg gib_bytes_def)
  have "0 \<le> gib_count v" and bound: "gib_count v \<le> 2 ^ 33"
    using assms by (auto simp: gib_count_def)
  moreover have "i64 (gib_count v + 512) = gib_count v + 512"
    using calculation by (intro i64_id) auto
  ultimately have tib: "go_div (i64 (gib_count v + 512)) 1024 = tib_count v"
    by (simp add: go_div_nonneg tib_count_def)
  have "0 \<le> tib_count v" using \<open>0 \<le> gib_count v\<close> by (simp add: tib_count_def)
  then show ?thesis
    using \<open>0 \<le> gib_count v\<close> unfolding round_value_def per_tib Let_def gib tib by (simp add: format_int_nonneg)
qed

lemma gib_count_nearest:
  "gib_count v * 2 ^ 30 - 2 ^ 29 \<le> v \<and> v < gib_count v * 2 ^ 30 + 2 ^ 29"
proof -
  have "gib_count v * 2 ^ 30 + (v + 2 ^ 29) mod 2 ^ 30 = v + 2 ^ 29"
    unfolding gib_count_def by (rule div_mult_mod_eq)
  moreover have "0 \<le> (v + 2 ^ 29) mod (2 ^ 30 :: int)" "(v + 2 ^ 29) mod 2 ^ 30 < (2 ^ 30 :: int)"
    by simp_all
  moreover have "(2 :: int) ^ 30 = 2 * 2 ^ 29" by simp
  ultimately show ?thesis by (intro conjI) linarith+
qed

section \<open>Label keys\<close>

definition discoveryLabelPrefix :: string where
  "discoveryLabelPrefix = ''byot.io/''"

definition labelAvailable :: string where "labelAvailable = discoveryLabelPrefix @ ''available''"
definition labelCPUCores :: string where "labelCPUCores = discoveryLabelPrefix @ ''cpu-cores''"
definition labelCPUArch :: string where "labelCPUArch = discoveryLabelPrefix @ ''cpu-arch''"
definition labelMemory :: string where "labelMemory = discoveryLabelPrefix @ ''memory''"
definition labelDiskType :: string where "labelDiskType = discoveryLabelPrefix @ ''disk-type''"
definition labelDiskSize :: string where "labelDiskSize = discoveryLabelPrefix @ ''disk-size''"
definition labelGPUCount :: string where "labelGPUCount = discoveryLabelPrefix @ ''gpu-count''"
definition labelGPUVendor :: string where "labelGPUVendor = discoveryLabelPrefix @ ''gpu-vendor''"
definition labelGPUModel :: string where "labelGPUModel = discoveryLabelPrefix @ ''gpu-model''"
definition labelPlatform :: string where "labelPlatform = discoveryLabelPrefix @ ''platform''"
definition labelTalosVersion :: string where
  "labelTalosVersion = discoveryLabelPrefix @ ''talos-version''"
definition labelFailureDomain :: string where
  "labelFailureDomain = discoveryLabelPrefix @ ''failure-domain''"

lemmas label_defs =
  labelAvailable_def labelCPUCores_def labelCPUArch_def labelMemory_def labelDiskType_def
  labelDiskSize_def labelGPUCount_def labelGPUVendor_def labelGPUModel_def labelPlatform_def
  labelTalosVersion_def labelFailureDomain_def

section \<open>Promotion\<close>

definition diskTypeLabel :: "string \<Rightarrow> string" where
  "diskTypeLabel typeName =
     (let t = to_lower typeName in
      if t = ''nvme'' \<or> t = ''ssd'' \<or> t = ''hdd'' \<or> t = ''sd'' then t else '''')"

text \<open>\<open>if cond { labels[key] = value }\<close>.\<close>

definition put_if :: "bool \<Rightarrow> string \<Rightarrow> string \<Rightarrow> string_map \<Rightarrow> string_map" where
  "put_if b k v m = (if b then fmupd k v m else m)"

definition promoteGPULabels :: "string_map \<Rightarrow> host_gpu \<Rightarrow> string_map" where
  "promoteGPULabels labels gpus =
     (let labels = put_if (0 < gCount gpus) labelGPUCount (format_int (gCount gpus)) labels;
          labels = put_if (gVendor gpus \<noteq> '''') labelGPUVendor (gVendor gpus) labels
      in put_if (gModel gpus \<noteq> '''') labelGPUModel (gModel gpus) labels)"

definition promoteHardwareLabels ::
  "'z lib_scheme \<Rightarrow> string_map \<Rightarrow> host_hardware \<Rightarrow> string_map" where
  "promoteHardwareLabels L labels hw =
     (let labels = put_if (0 < cores (hwCPU hw)) labelCPUCores (format_int (cores (hwCPU hw))) labels;
          labels = put_if (\<not> l_quantity_is_zero L (hwMemory hw)) labelMemory
                     (roundQuantity L (hwMemory hw)) labels;
          labels = (case systemDisk (hwDisks hw) of
              None \<Rightarrow> labels
            | Some disk \<Rightarrow>
                (let t = diskTypeLabel (dType disk);
                     labels = put_if (t \<noteq> '''') labelDiskType t labels
                 in put_if (\<not> l_quantity_is_zero L (dSize disk)) labelDiskSize
                      (roundQuantity L (dSize disk)) labels))
      in (case hwGPUs hw of None \<Rightarrow> labels | Some gpus \<Rightarrow> promoteGPULabels labels gpus))"

text \<open>The label map that \<open>applyDiscoveryLabels\<close> builds; it starts from the labels without
  the managed prefix.\<close>

definition operator_labels :: "string_map \<Rightarrow> string_map" where
  "operator_labels m = fmfilter (\<lambda>k. \<not> has_prefix discoveryLabelPrefix k) m"

definition discovery_labels :: "'z lib_scheme \<Rightarrow> byot_host \<Rightarrow> string_map" where
  "discovery_labels L host =
     (let st = hStatus host;
          labels = operator_labels (oLabels (hMeta host));
          labels = put_if (hPhase st = Available) labelAvailable ''true'' labels;
          labels = put_if (hArch st \<noteq> '''') labelCPUArch (hArch st) labels;
          labels = put_if (hTalosVersion st \<noteq> '''') labelTalosVersion (hTalosVersion st) labels;
          labels = put_if (hPlatform st \<noteq> '''') labelPlatform (hPlatform st) labels;
          labels = (case hHardware st of None \<Rightarrow> labels | Some hw \<Rightarrow> promoteHardwareLabels L labels hw)
      in (case hFailureDomain (hSpec host) of
            None \<Rightarrow> labels
          | Some fd \<Rightarrow> put_if (fd \<noteq> '''') labelFailureDomain fd labels))"

definition applyDiscoveryLabels :: "'z lib_scheme \<Rightarrow> byot_host \<Rightarrow> byot_host" where
  "applyDiscoveryLabels L host = hMeta_update (\<lambda>m. m\<lparr>oLabels := discovery_labels L host\<rparr>) host"


subsection \<open>Lookups\<close>

lemma put_if_lookup:
  "fmlookup (put_if b k v m) x = (if b \<and> x = k then Some v else fmlookup m x)"
  by (simp add: put_if_def)

lemma label_inject:
  "(discoveryLabelPrefix @ a = discoveryLabelPrefix @ b) = (a = b)"
  by simp

lemma operator_labels_lookup:
  "fmlookup (operator_labels m) k = (if has_prefix discoveryLabelPrefix k then None else fmlookup m k)"
  by (simp add: operator_labels_def)

lemma not_managed_neq:
  assumes "\<not> has_prefix discoveryLabelPrefix k"
  shows "k \<noteq> discoveryLabelPrefix @ s"
  using assms by auto

lemma promoteGPULabels_other:
  "k \<notin> {labelGPUCount, labelGPUVendor, labelGPUModel} \<Longrightarrow>
     fmlookup (promoteGPULabels m g) k = fmlookup m k"
  by (simp add: promoteGPULabels_def Let_def put_if_lookup)

lemma promoteHardwareLabels_other:
  "k \<notin> {labelCPUCores, labelMemory, labelDiskType, labelDiskSize,
          labelGPUCount, labelGPUVendor, labelGPUModel} \<Longrightarrow>
     fmlookup (promoteHardwareLabels L m hw) k = fmlookup m k"
  by (simp add: promoteHardwareLabels_def Let_def put_if_lookup promoteGPULabels_other
      split: option.split)

definition managed_keys :: "string list" where
  "managed_keys =
     [labelAvailable, labelCPUCores, labelCPUArch, labelMemory, labelDiskType, labelDiskSize,
      labelGPUCount, labelGPUVendor, labelGPUModel, labelPlatform, labelTalosVersion,
      labelFailureDomain]"

lemma managed_keys_prefix: "k \<in> set managed_keys \<Longrightarrow> has_prefix discoveryLabelPrefix k"
  by (auto simp: managed_keys_def label_defs)

lemma discovery_labels_other:
  "k \<notin> set managed_keys \<Longrightarrow>
     fmlookup (discovery_labels L h) k = fmlookup (operator_labels (oLabels (hMeta h))) k"
  by (simp add: discovery_labels_def managed_keys_def Let_def put_if_lookup
      promoteHardwareLabels_other split: option.split)

lemma applyDiscoveryLabels_simps [simp]:
  "hSpec (applyDiscoveryLabels L h) = hSpec h"
  "hStatus (applyDiscoveryLabels L h) = hStatus h"
  "oLabels (hMeta (applyDiscoveryLabels L h)) = discovery_labels L h"
  "oName (hMeta (applyDiscoveryLabels L h)) = oName (hMeta h)"
  "oNamespace (hMeta (applyDiscoveryLabels L h)) = oNamespace (hMeta h)"
  "oUID (hMeta (applyDiscoveryLabels L h)) = oUID (hMeta h)"
  "oFinalizers (hMeta (applyDiscoveryLabels L h)) = oFinalizers (hMeta h)"
  "oDeletionTimestamp (hMeta (applyDiscoveryLabels L h)) = oDeletionTimestamp (hMeta h)"
  by (simp_all add: applyDiscoveryLabels_def)

lemma available_not_other:
  "labelAvailable \<notin> {labelCPUCores, labelMemory, labelDiskType, labelDiskSize,
          labelGPUCount, labelGPUVendor, labelGPUModel}"
  by (simp add: label_defs)

lemma discovery_labels_available:
  "fmlookup (discovery_labels L h) labelAvailable =
     (if hPhase (hStatus h) = Available then Some ''true'' else None)"
  using available_not_other
  by (simp add: discovery_labels_def Let_def put_if_lookup promoteHardwareLabels_other
      operator_labels_lookup label_defs split: option.split)

text \<open>Applying the labels again changes nothing: the managed part is a function of the status
  and the spec, the rest is kept.\<close>

lemma operator_labels_discovery:
  "operator_labels (discovery_labels L h) = operator_labels (oLabels (hMeta h))"
proof (rule fmap_ext)
  fix k
  show "fmlookup (operator_labels (discovery_labels L h)) k =
        fmlookup (operator_labels (oLabels (hMeta h))) k"
  proof (cases "has_prefix discoveryLabelPrefix k")
    case False
    with managed_keys_prefix have "k \<notin> set managed_keys" by blast
    with False show ?thesis by (simp add: discovery_labels_other operator_labels_lookup)
  qed (simp add: operator_labels_lookup)
qed

lemma discovery_labels_cong:
  "operator_labels (oLabels (hMeta h)) = operator_labels (oLabels (hMeta h')) \<Longrightarrow>
     hStatus h = hStatus h' \<Longrightarrow> hSpec h = hSpec h' \<Longrightarrow> discovery_labels L h = discovery_labels L h'"
  by (simp add: discovery_labels_def)

lemma discovery_labels_idem: "discovery_labels L (applyDiscoveryLabels L h) = discovery_labels L h"
  by (rule discovery_labels_cong) (simp_all add: operator_labels_discovery)

section \<open>Bounds of the rounding\<close>

lemma tib_count_nearest:
  "tib_count v * 2 ^ 40 - (2 ^ 39 + 2 ^ 29) \<le> v \<and> v < tib_count v * 2 ^ 40 + (2 ^ 39 + 2 ^ 29)"
proof -
  have "tib_count v * 1024 + (gib_count v + 512) mod 1024 = gib_count v + 512"
    unfolding tib_count_def by (rule div_mult_mod_eq)
  moreover have "0 \<le> (gib_count v + 512) mod 1024" "(gib_count v + 512) mod 1024 \<le> 1023"
    by simp_all
  ultimately have "tib_count v * 1024 - 512 \<le> gib_count v" "gib_count v \<le> tib_count v * 1024 + 511"
    by linarith+
  moreover have "gib_count v * 2 ^ 30 - 2 ^ 29 \<le> v \<and> v < gib_count v * 2 ^ 30 + 2 ^ 29"
    by (rule gib_count_nearest)
  ultimately show ?thesis by simp
qed

lemma round_value_overflow:
  assumes "2 ^ 63 - 2 ^ 29 \<le> v" and "v < 2 ^ 63"
  shows "hd (round_value v) = CHR ''-''"
proof -
  have wrap: "i64 (v + 2 ^ 29) = v + 2 ^ 29 - 2 ^ 64"
  proof -
    have "(v + 2 ^ 29 + 2 ^ 63) mod 2 ^ 64 = (v + 2 ^ 29 + 2 ^ 63 - 2 ^ 64) mod 2 ^ 64"
      by (metis minus_mod_self2)
    also have "\<dots> = v + 2 ^ 29 + 2 ^ 63 - 2 ^ 64"
      by (rule mod_pos_pos_trivial) (use assms in auto)
    finally show ?thesis by (simp add: i64_def)
  qed
  have "go_div (i64 (v + 2 ^ 29)) gib_bytes < 0"
    unfolding wrap using assms by (simp add: go_div_def gib_bytes_def)
  then show ?thesis by (simp add: round_value_def per_tib Let_def format_int_def)
qed

text \<open>C39. The capacity in a label: for every quantity up to 8 EiB less half a GiB, a whole number
  of GiB below 1024 that is within half a GiB of it, or from 1024 GiB on a whole number of TiB
  within half a TiB and half a GiB; in the last half GiB below 8 EiB the sum overflows int64
  and the text is negative.\<close>

theorem roundQuantity_nearest:
  assumes "0 \<le> l_quantity_value L q" and "l_quantity_value L q < 2 ^ 63"
  shows "if l_quantity_value L q < 2 ^ 63 - 2 ^ 29 then
      \<exists>n. (roundQuantity L q = dec_nat n @ ''G'' \<and> n < 1024 \<and>
            \<bar>l_quantity_value L q - int n * 2 ^ 30\<bar> \<le> 2 ^ 29)
        \<or> (roundQuantity L q = dec_nat n @ ''T'' \<and> 1023 * 2 ^ 30 < l_quantity_value L q \<and>
            \<bar>l_quantity_value L q - int n * 2 ^ 40\<bar> \<le> 2 ^ 39 + 2 ^ 29)
    else hd (roundQuantity L q) = CHR ''-''"
proof (cases "l_quantity_value L q < 2 ^ 63 - 2 ^ 29")
  case True
  let ?v = "l_quantity_value L q"
  have gib: "gib_count ?v * 2 ^ 30 - 2 ^ 29 \<le> ?v \<and> ?v < gib_count ?v * 2 ^ 30 + 2 ^ 29"
    by (rule gib_count_nearest)
  have tib: "tib_count ?v * 2 ^ 40 - (2 ^ 39 + 2 ^ 29) \<le> ?v \<and> ?v < tib_count ?v * 2 ^ 40 + (2 ^ 39 + 2 ^ 29)"
    by (rule tib_count_nearest)
  have pos: "0 \<le> gib_count ?v" "0 \<le> tib_count ?v"
    using assms(1) by (simp_all add: gib_count_def tib_count_def)
  note eq = round_value_eq [OF assms(1) True, folded roundQuantity_def]
  show ?thesis
  proof (cases "1024 \<le> gib_count ?v")
    case big: True
    with gib have "1023 * 2 ^ 30 < ?v" by auto
    with tib pos big eq show ?thesis
      unfolding if_P [OF True] by (intro exI [of _ "nat (tib_count ?v)"] disjI2) (simp add: abs_le_iff)
  next
    case False
    with gib pos eq show ?thesis
      unfolding if_P [OF True] by (intro exI [of _ "nat (gib_count ?v)"] disjI1) (simp add: abs_le_iff)
  qed
next
  case False
  with assms(2) round_value_overflow show ?thesis by (simp add: roundQuantity_def)
qed

lemma roundQuantity_nearest_witness:
  "\<exists>n. (roundQuantity sample_lib ''34500000000'' = dec_nat n @ ''G'' \<and> n < 1024 \<and> \<bar>34500000000 - int n * 2 ^ 30\<bar> \<le> 2 ^ 29) \<or>
     roundQuantity sample_lib ''34500000000'' = dec_nat n @ ''T'' \<and> 1023 * 2 ^ 30 < (34500000000 :: int)"
proof -
  have "l_quantity_value sample_lib ''34500000000'' = 34500000000"
    by (simp add: sample_lib_def sample_quantity_value_def parse_dec_def digit_val_def)
  then show ?thesis using roundQuantity_nearest [of sample_lib "''34500000000''"] by auto
qed

end
