(* ===== verification/HostController.thy ===== *)
theory HostController
  imports Discovery Labels
begin

text \<open>
  The ByotHost controller (\<open>pkg/controller/byothost_controller.go\<close>): finalizer and
  deletion, and the phase machine Probing / Available / Unavailable / Claimed / Releasing.
  The handlers mutate the fetched host (\<open>obj\<close>) and persist it with the patch helper, whose
  base is the host as it was when the helper was made. The injectable probes are the ones
  \<open>NewByotHostReconciler\<close> installs.

  The lemmas are stated per handler over \<open>wp\<close>: what a handler leaves in the object, what it
  returns and what it calls.
\<close>

section \<open>Configuration\<close>

text \<open>A tunable of a reconciler: a field with a positive default behind a getter, set by
  \<open>SetOptions\<close> only when the option is positive.\<close>

locale tunable =
  fixes get :: "'r \<Rightarrow> int"
    and field :: "'r \<Rightarrow> int"
    and dflt :: int
    and opt :: "'p \<Rightarrow> int"
    and set_options :: "'p \<Rightarrow> 'r \<Rightarrow> 'r"
  assumes get_eq: "get r = (if 0 < field r then field r else dflt)"
    and dflt_pos: "0 < dflt"
    and set_field: "field (set_options p r) = (if 0 < opt p then opt p else field r)"
begin

lemma get_pos [simp]: "0 < get r"
  using dflt_pos by (simp add: get_eq)

lemma get_nonzero [simp]: "get r \<noteq> 0"
  using get_pos [of r] by linarith

lemma get_set: "get (set_options p r) = (if 0 < opt p then opt p else get r)"
  by (simp add: get_eq set_field)

lemma get_set_idem: "get (set_options p (set_options p r)) = get (set_options p r)"
  by (simp add: get_set)

end

record byot_host_reconciler =
  hrLivenessInterval :: int
  hrFailureThreshold :: int
  hrProbeRequeue :: int
  hrClaimedRequeue :: int

record byot_host_options =
  hoLivenessInterval :: int
  hoProbeRequeue :: int
  hoClaimedRequeue :: int
  hoFailureThreshold :: int

definition byotHostFinalizer :: string where
  "byotHostFinalizer = ''byothost.infrastructure.cluster.x-k8s.io/protection''"

definition hostLivenessInterval :: int where "hostLivenessInterval = seconds 60"
definition hostProbeRequeue :: int where "hostProbeRequeue = seconds 15"
definition hostClaimedRequeue :: int where "hostClaimedRequeue = seconds (5 * 60)"
definition hostFailureThreshold :: int where "hostFailureThreshold = 3"

definition NewByotHostReconciler :: byot_host_reconciler where
  "NewByotHostReconciler =
     \<lparr>hrLivenessInterval = hostLivenessInterval, hrFailureThreshold = hostFailureThreshold,
      hrProbeRequeue = 0, hrClaimedRequeue = 0\<rparr>"

definition hostSetOptions :: "byot_host_options \<Rightarrow> byot_host_reconciler \<Rightarrow> byot_host_reconciler" where
  "hostSetOptions opts r =
     (let r = (if 0 < hoLivenessInterval opts
               then r\<lparr>hrLivenessInterval := hoLivenessInterval opts\<rparr> else r);
          r = (if 0 < hoProbeRequeue opts then r\<lparr>hrProbeRequeue := hoProbeRequeue opts\<rparr> else r);
          r = (if 0 < hoClaimedRequeue opts then r\<lparr>hrClaimedRequeue := hoClaimedRequeue opts\<rparr> else r)
      in (if 0 < hoFailureThreshold opts
          then r\<lparr>hrFailureThreshold := hoFailureThreshold opts\<rparr> else r))"

definition livenessInterval :: "byot_host_reconciler \<Rightarrow> int" where
  "livenessInterval r = (if 0 < hrLivenessInterval r then hrLivenessInterval r else hostLivenessInterval)"

definition failureThreshold :: "byot_host_reconciler \<Rightarrow> int" where
  "failureThreshold r = (if 0 < hrFailureThreshold r then hrFailureThreshold r else hostFailureThreshold)"

definition probeRequeue :: "byot_host_reconciler \<Rightarrow> int" where
  "probeRequeue r = (if 0 < hrProbeRequeue r then hrProbeRequeue r else hostProbeRequeue)"

definition claimedRequeue :: "byot_host_reconciler \<Rightarrow> int" where
  "claimedRequeue r = (if 0 < hrClaimedRequeue r then hrClaimedRequeue r else hostClaimedRequeue)"

interpretation liveness: tunable livenessInterval hrLivenessInterval hostLivenessInterval
  hoLivenessInterval hostSetOptions
  by unfold_locales
     (simp_all add: livenessInterval_def hostLivenessInterval_def seconds_def hostSetOptions_def Let_def)

interpretation threshold: tunable failureThreshold hrFailureThreshold hostFailureThreshold
  hoFailureThreshold hostSetOptions
  by unfold_locales (simp_all add: failureThreshold_def hostFailureThreshold_def hostSetOptions_def Let_def)

interpretation probe_delay: tunable probeRequeue hrProbeRequeue hostProbeRequeue
  hoProbeRequeue hostSetOptions
  by unfold_locales
     (simp_all add: probeRequeue_def hostProbeRequeue_def seconds_def hostSetOptions_def Let_def)

interpretation claimed_delay: tunable claimedRequeue hrClaimedRequeue hostClaimedRequeue
  hoClaimedRequeue hostSetOptions
  by unfold_locales
     (simp_all add: claimedRequeue_def hostClaimedRequeue_def seconds_def hostSetOptions_def Let_def)


section \<open>Endpoints\<close>

definition buildEndpoints :: "string \<Rightarrow> string \<Rightarrow> endpoints" where
  "buildEndpoints internalIP publicIP =
     (if internalIP \<noteq> '''' then [internalIP] else []) @ (if publicIP \<noteq> '''' then [publicIP] else [])"

definition hostInternalIP :: "byot_host \<Rightarrow> string" where
  "hostInternalIP host =
     (case hHardware (hStatus host) of None \<Rightarrow> '''' | Some hw \<Rightarrow> hwInternalIP hw)"

definition hostEndpoints :: "byot_host \<Rightarrow> endpoints" where
  "hostEndpoints host = buildEndpoints (hostInternalIP host) (hPublicIP (hSpec host))"

lemma buildEndpoints_nonempty: "pub \<noteq> [] \<Longrightarrow> buildEndpoints ip pub \<noteq> []"
  by (simp add: buildEndpoints_def)


section \<open>Handlers\<close>

abbreviation mod_host :: "(byot_host_status \<Rightarrow> byot_host_status) \<Rightarrow> (byot_host, unit) act" where
  "mod_host f \<equiv> modify_obj (hStatus_update f)"

definition markHostTrue :: "env \<Rightarrow> string \<Rightarrow> byot_host_status \<Rightarrow> byot_host_status" where
  "markHostTrue env t st = st\<lparr>hConditions := l_mark_true env (hConditions st) t\<rparr>"

definition markHostFalse ::
  "env \<Rightarrow> string \<Rightarrow> string \<Rightarrow> severity \<Rightarrow> string \<Rightarrow> byot_host_status \<Rightarrow> byot_host_status" where
  "markHostFalse env t reason sv msg st =
     st\<lparr>hConditions := l_mark_false env (hConditions st) t reason sv msg\<rparr>"

definition key_text :: "object_key \<Rightarrow> string" where
  "key_text k = fst k @ ''/'' @ snd k"

definition patchHost :: "env \<Rightarrow> byot_host \<Rightarrow> (byot_host, unit res) act" where
  "patchHost env helper =
     do { host \<leftarrow> get_obj;
          check_or (kPatchHost env helper host)
            (errorf (''failed to patch ByotHost '' @ oName (hMeta host))) (ret (Inr ())) }"

text \<open>Persist the host and come back after the given delay.\<close>

definition patchThenRequeue :: "env \<Rightarrow> byot_host \<Rightarrow> int \<Rightarrow> (byot_host, ctrl_result res) act" where
  "patchThenRequeue env helper d =
     try_or (patchHost env helper) id (\<lambda>_. ret (Inr (requeue_after d)))"

definition hardware_of_result :: "discovery_result \<Rightarrow> host_hardware" where
  "hardware_of_result result =
     \<lparr>hwCPU = rCPU result, hwMemory = rMemory result, hwDisks = rDisks result,
      hwNetworkInterfaces = rNetworkInterfaces result, hwExternalIP = rExternalIP result,
      hwInternalIP = rInternalIP result, hwGPUs = rGPUs result\<rparr>"

definition mixed_gpus :: "discovery_result \<Rightarrow> bool" where
  "mixed_gpus result = (case rGPUs result of None \<Rightarrow> False | Some g \<Rightarrow> gMixed g)"

definition populateFromDiscovery :: "env \<Rightarrow> discovery_result \<Rightarrow> (byot_host, unit) act" where
  "populateFromDiscovery env result =
     do { mod_host (\<lambda>st. st\<lparr>hTalosVersion := rTalosVersion result, hArch := rArch result,
                            hPlatform := rPlatform result\<rparr>);
          mod_host (\<lambda>st. case rIdentity result of
              None \<Rightarrow> st | Some i \<Rightarrow> st\<lparr>hIdentity := Some i\<rparr>);
          mod_host (\<lambda>st. st\<lparr>hHardware := Some (hardware_of_result result)\<rparr>);
          now \<leftarrow> tNow env;
          mod_host (\<lambda>st. st\<lparr>hLastProbedAt := Some now\<rparr>);
          if mixed_gpus result
          then mod_host (markHostFalse env HostDiscoveredCondition HostDiscoveredReasonMixedGPUModels
                 SevWarning ''host has GPUs of more than one vendor:device pair'')
          else mod_host (markHostTrue env HostDiscoveredCondition) }"

definition recordDiscoveryFailure ::
  "byot_host_reconciler \<Rightarrow> env \<Rightarrow> byot_host \<Rightarrow> goerr \<Rightarrow> (byot_host, ctrl_result res) act" where
  "recordDiscoveryFailure r env helper discoverErr =
     do { mod_host (\<lambda>st. st\<lparr>hMaintenanceMode := False\<rparr>);
          now \<leftarrow> tNow env;
          mod_host (\<lambda>st. st\<lparr>hLastProbedAt := Some now\<rparr>);
          mod_host (\<lambda>st. st\<lparr>hPhase := Probing\<rparr>);
          mod_host (markHostFalse env HostMaintenanceProbeCondition ''MaintenanceProbeFailed''
            SevWarning (error_text discoverErr));
          mod_host (markHostFalse env HostDiscoveredCondition ''DiscoveryFailed''
            SevWarning (error_text discoverErr));
          modify_obj (applyDiscoveryLabels env);
          patchThenRequeue env helper (probeRequeue r) }"

definition probe_failed_message :: "int \<Rightarrow> string" where
  "probe_failed_message n =
     ''maintenance probe failed '' @ format_int n @ '' consecutive times''"

definition recordProbeFailure ::
  "byot_host_reconciler \<Rightarrow> env \<Rightarrow> byot_host \<Rightarrow> (byot_host, ctrl_result res) act" where
  "recordProbeFailure r env helper =
     do { mod_host (\<lambda>st. st\<lparr>hMaintenanceMode := False\<rparr>);
          now \<leftarrow> tNow env;
          mod_host (\<lambda>st. st\<lparr>hLastProbedAt := Some now\<rparr>);
          mod_host (\<lambda>st. st\<lparr>hProbeFailureCount := i32 (hProbeFailureCount st + 1)\<rparr>);
          host \<leftarrow> get_obj;
          let count = hProbeFailureCount (hStatus host);
          (if failureThreshold r \<le> count
           then do { mod_host (\<lambda>st. st\<lparr>hPhase := Unavailable\<rparr>);
                    mod_host (markHostFalse env HostMaintenanceProbeCondition
                      ''MaintenanceProbeFailed'' SevWarning (probe_failed_message count)) }
          else mod_host (markHostFalse env HostMaintenanceProbeCondition
                 ''ProbeFailed'' SevInfo (probe_failed_message count)));
          modify_obj (applyDiscoveryLabels env);
          patchThenRequeue env helper (probeRequeue r) }"

definition reconcileProbing ::
  "byot_host_reconciler \<Rightarrow> env \<Rightarrow> byot_host \<Rightarrow> (byot_host, ctrl_result res) act" where
  "reconcileProbing r env helper =
     do { host \<leftarrow> get_obj;
          discovered \<leftarrow> discoverHost env (hostEndpoints host) (hPublicIP (hSpec host));
          case discovered of
            Inl err \<Rightarrow> recordDiscoveryFailure r env helper err
          | Inr result \<Rightarrow>
              do { populateFromDiscovery env result;
                   mod_host (\<lambda>st. st\<lparr>hPhase := Available, hMaintenanceMode := True,
                                     hProbeFailureCount := 0\<rparr>);
                   mod_host (markHostTrue env HostMaintenanceProbeCondition);
                   modify_obj (applyDiscoveryLabels env);
                   patchThenRequeue env helper (livenessInterval r) } }"

definition reconcileAvailable ::
  "byot_host_reconciler \<Rightarrow> env \<Rightarrow> byot_host \<Rightarrow> (byot_host, ctrl_result res) act" where
  "reconcileAvailable r env helper =
     do { host \<leftarrow> get_obj;
          live \<leftarrow> probeMaintenance env (hostEndpoints host);
          if live
          then do { mod_host (\<lambda>st. st\<lparr>hMaintenanceMode := True\<rparr>);
                    now \<leftarrow> tNow env;
                    mod_host (\<lambda>st. st\<lparr>hLastProbedAt := Some now, hProbeFailureCount := 0\<rparr>);
                    mod_host (markHostTrue env HostMaintenanceProbeCondition);
                    modify_obj (applyDiscoveryLabels env);
                    patchThenRequeue env helper (livenessInterval r) }
          else recordProbeFailure r env helper }"

definition reconcileUnavailable ::
  "byot_host_reconciler \<Rightarrow> env \<Rightarrow> byot_host \<Rightarrow> (byot_host, ctrl_result res) act" where
  "reconcileUnavailable r env helper =
     do { host \<leftarrow> get_obj;
          live \<leftarrow> probeMaintenance env (hostEndpoints host);
          if \<not> live
          then do { now \<leftarrow> tNow env;
                    mod_host (\<lambda>st. st\<lparr>hLastProbedAt := Some now\<rparr>);
                    modify_obj (applyDiscoveryLabels env);
                    patchThenRequeue env helper (probeRequeue r) }
          else do {
            discovered \<leftarrow> discoverHost env (hostEndpoints host) (hPublicIP (hSpec host));
            case discovered of
              Inl err \<Rightarrow> recordDiscoveryFailure r env helper err
            | Inr result \<Rightarrow>
                do { populateFromDiscovery env result;
                     mod_host (\<lambda>st. st\<lparr>hPhase := Available, hMaintenanceMode := True,
                                       hProbeFailureCount := 0\<rparr>);
                     mod_host (markHostTrue env HostMaintenanceProbeCondition);
                     modify_obj (applyDiscoveryLabels env);
                     patchThenRequeue env helper (livenessInterval r) } } }"

definition reconcileReleasing ::
  "byot_host_reconciler \<Rightarrow> env \<Rightarrow> byot_host \<Rightarrow> (byot_host, ctrl_result res) act" where
  "reconcileReleasing r env helper =
     do { host \<leftarrow> get_obj;
          live \<leftarrow> probeMaintenance env (hostEndpoints host);
          if \<not> live
          then do { now \<leftarrow> tNow env;
                    mod_host (\<lambda>st. st\<lparr>hLastProbedAt := Some now\<rparr>);
                    modify_obj (applyDiscoveryLabels env);
                    patchThenRequeue env helper (probeRequeue r) }
          else do {
            discovered \<leftarrow> discoverHost env (hostEndpoints host) (hPublicIP (hSpec host));
            case discovered of
              Inl err \<Rightarrow> recordDiscoveryFailure r env helper err
            | Inr result \<Rightarrow>
                do { populateFromDiscovery env result;
                     mod_host (\<lambda>st. st\<lparr>hPhase := Available, hClaimRef := None,
                                       hMaintenanceMode := True, hProbeFailureCount := 0\<rparr>);
                     mod_host (markHostTrue env HostMaintenanceProbeCondition);
                     modify_obj (applyDiscoveryLabels env);
                     patchThenRequeue env helper (livenessInterval r) } } }"

definition reconcileHost ::
  "byot_host_reconciler \<Rightarrow> env \<Rightarrow> byot_host \<Rightarrow> (byot_host, ctrl_result res) act" where
  "reconcileHost r env helper =
     do { host \<leftarrow> get_obj;
          case hPhase (hStatus host) of
            PhaseUnset \<Rightarrow> reconcileProbing r env helper
          | Probing \<Rightarrow> reconcileProbing r env helper
          | Available \<Rightarrow> reconcileAvailable r env helper
          | Unavailable \<Rightarrow> reconcileUnavailable r env helper
          | Claimed \<Rightarrow> ret (Inr (requeue_after (claimedRequeue r)))
          | Releasing \<Rightarrow> reconcileReleasing r env helper
          | OtherPhase _ \<Rightarrow> reconcileProbing r env helper }"

definition hostReconcileDelete ::
  "byot_host_reconciler \<Rightarrow> env \<Rightarrow> (byot_host, ctrl_result res) act" where
  "hostReconcileDelete r env =
     do { host \<leftarrow> get_obj;
          if \<not> l_contains_finalizer env (oFinalizers (hMeta host)) byotHostFinalizer
          then ret (Inr no_result)
          else if hClaimRef (hStatus host) \<noteq> None then ret (Inr (requeue_after (probeRequeue r)))
          else do {
            let removed = l_remove_finalizer env (oFinalizers (hMeta host)) byotHostFinalizer;
            modify_obj (hMeta_update (\<lambda>m. m\<lparr>oFinalizers := fst removed\<rparr>));
            host \<leftarrow> get_obj;
            if snd removed
            then try_or (kUpdateHost env host)
                   (errorf (''failed to remove finalizer from ByotHost '' @ oName (hMeta host)))
                   (\<lambda>_. ret (Inr no_result))
            else ret (Inr no_result) } }"

definition hostReconcile ::
  "byot_host_reconciler \<Rightarrow> env \<Rightarrow> object_key \<Rightarrow> (byot_host, ctrl_result res) act" where
  "hostReconcile r env req =
     do { got \<leftarrow> kGetHost env req;
          case got of
            Inl err \<Rightarrow>
              (if is_not_found err then ret (Inr no_result)
               else ret (Inl (errorf (''failed to get ByotHost '' @ key_text req) err)))
          | Inr host \<Rightarrow>
              do { modify_obj (\<lambda>_. host);
                   if oDeletionTimestamp (hMeta host) \<noteq> None then hostReconcileDelete r env
                   else try_or (kEnsureFinalizerHost env host byotHostFinalizer)
                     (errorf (''failed to add finalizer to ByotHost '' @ key_text req)) (\<lambda>host.
                       do { modify_obj (\<lambda>_. host);
                            check_or (kNewHelper env)
                              (errorf (''failed to create patch helper for ByotHost '' @ key_text req))
                              (reconcileHost r env host) }) } }"

end
