(* ===== verification/MachineBase.thy ===== *)
theory MachineBase
  imports HostController
begin

text \<open>
  What the handlers of the ByotMachine controller share
  (\<open>pkg/controller/byotmachine_controller.go\<close>): the reconciler's tunables and their getters,
  endpoints, conditions and the patch helper, and the loading of talosconfig secrets. The
  object of these handlers is the ByotMachine.
\<close>

section \<open>Configuration\<close>

record byot_machine_reconciler =
  mrRequeueAfterBootstrap :: int
  mrRequeueAfterResetIssued :: int
  mrRequeueAfterNodeLink :: int
  mrRequeueAfterUpgrade :: int
  mrVersionProbeThreshold :: int
  mrUpgradeThreshold :: int
  mrClusterCache :: bool \<comment> \<open>a ClusterCache is wired (\<open>getWorkloadClient != nil\<close>)\<close>

record byot_machine_options =
  moRequeueAfterBootstrap :: int
  moRequeueAfterResetIssued :: int
  moRequeueAfterNodeLink :: int
  moRequeueAfterUpgrade :: int
  moVersionProbeThreshold :: int
  moUpgradeThreshold :: int

definition byotMachineFinalizer :: string where
  "byotMachineFinalizer = ''byotmachine.infrastructure.cluster.x-k8s.io''"

definition bootstrapSecretDataKey :: string where
  "bootstrapSecretDataKey = ''value''"

definition clusterTalosConfigSecretSuffix :: string where
  "clusterTalosConfigSecretSuffix = ''-talosconfig''"

definition talosConfigSecretDataKey :: string where
  "talosConfigSecretDataKey = ''talosconfig''"

definition clusterNameLabel :: string where
  "clusterNameLabel = ''cluster.x-k8s.io/cluster-name''"

definition kubeletServiceID :: string where
  "kubeletServiceID = ''kubelet''"

definition nodeLinkRetriggerAnnotation :: string where
  "nodeLinkRetriggerAnnotation = ''infrastructure.cluster.x-k8s.io/node-link-retrigger''"

definition default_requeueAfterBootstrap :: int where
  "default_requeueAfterBootstrap = seconds 10"

definition default_requeueAfterResetIssued :: int where
  "default_requeueAfterResetIssued = seconds 10"

definition default_requeueAfterNodeLink :: int where
  "default_requeueAfterNodeLink = seconds 30"

definition default_requeueAfterUpgrade :: int where
  "default_requeueAfterUpgrade = seconds 30"

definition default_versionProbeThreshold :: int where
  "default_versionProbeThreshold = 5"

definition default_upgradeThreshold :: int where
  "default_upgradeThreshold = 10"

lemmas default_defs = default_requeueAfterBootstrap_def default_requeueAfterResetIssued_def
  default_requeueAfterNodeLink_def default_requeueAfterUpgrade_def
  default_versionProbeThreshold_def default_upgradeThreshold_def seconds_def

definition NewByotMachineReconciler :: byot_machine_reconciler where
  "NewByotMachineReconciler =
     \<lparr>mrRequeueAfterBootstrap = 0, mrRequeueAfterResetIssued = 0, mrRequeueAfterNodeLink = 0,
      mrRequeueAfterUpgrade = 0, mrVersionProbeThreshold = 0, mrUpgradeThreshold = 0,
      mrClusterCache = False\<rparr>"

definition SetClusterCache :: "byot_machine_reconciler \<Rightarrow> byot_machine_reconciler" where
  "SetClusterCache r = r\<lparr>mrClusterCache := True\<rparr>"

definition machineSetOptions ::
  "byot_machine_options \<Rightarrow> byot_machine_reconciler \<Rightarrow> byot_machine_reconciler" where
  "machineSetOptions opts r =
     (let r = (if 0 < moRequeueAfterBootstrap opts
               then r\<lparr>mrRequeueAfterBootstrap := moRequeueAfterBootstrap opts\<rparr> else r);
          r = (if 0 < moRequeueAfterResetIssued opts
               then r\<lparr>mrRequeueAfterResetIssued := moRequeueAfterResetIssued opts\<rparr> else r);
          r = (if 0 < moRequeueAfterNodeLink opts
               then r\<lparr>mrRequeueAfterNodeLink := moRequeueAfterNodeLink opts\<rparr> else r);
          r = (if 0 < moRequeueAfterUpgrade opts
               then r\<lparr>mrRequeueAfterUpgrade := moRequeueAfterUpgrade opts\<rparr> else r);
          r = (if 0 < moVersionProbeThreshold opts
               then r\<lparr>mrVersionProbeThreshold := moVersionProbeThreshold opts\<rparr> else r)
      in (if 0 < moUpgradeThreshold opts
          then r\<lparr>mrUpgradeThreshold := moUpgradeThreshold opts\<rparr> else r))"

definition requeueAfterBootstrap :: "byot_machine_reconciler \<Rightarrow> int" where
  "requeueAfterBootstrap r =
     (if 0 < mrRequeueAfterBootstrap r then mrRequeueAfterBootstrap r
      else default_requeueAfterBootstrap)"

definition requeueAfterResetIssued :: "byot_machine_reconciler \<Rightarrow> int" where
  "requeueAfterResetIssued r =
     (if 0 < mrRequeueAfterResetIssued r then mrRequeueAfterResetIssued r
      else default_requeueAfterResetIssued)"

definition requeueAfterNodeLink :: "byot_machine_reconciler \<Rightarrow> int" where
  "requeueAfterNodeLink r =
     (if 0 < mrRequeueAfterNodeLink r then mrRequeueAfterNodeLink r
      else default_requeueAfterNodeLink)"

definition requeueAfterUpgrade :: "byot_machine_reconciler \<Rightarrow> int" where
  "requeueAfterUpgrade r =
     (if 0 < mrRequeueAfterUpgrade r then mrRequeueAfterUpgrade r
      else default_requeueAfterUpgrade)"

definition versionProbeThreshold :: "byot_machine_reconciler \<Rightarrow> int" where
  "versionProbeThreshold r =
     (if 0 < mrVersionProbeThreshold r then mrVersionProbeThreshold r
      else default_versionProbeThreshold)"

definition upgradeThreshold :: "byot_machine_reconciler \<Rightarrow> int" where
  "upgradeThreshold r =
     (if 0 < mrUpgradeThreshold r then mrUpgradeThreshold r else default_upgradeThreshold)"

interpretation bootstrap_delay: tunable requeueAfterBootstrap mrRequeueAfterBootstrap
  default_requeueAfterBootstrap moRequeueAfterBootstrap machineSetOptions
  by unfold_locales (simp_all add: requeueAfterBootstrap_def default_defs machineSetOptions_def Let_def)

interpretation reset_delay: tunable requeueAfterResetIssued mrRequeueAfterResetIssued
  default_requeueAfterResetIssued moRequeueAfterResetIssued machineSetOptions
  by unfold_locales (simp_all add: requeueAfterResetIssued_def default_defs machineSetOptions_def Let_def)

interpretation node_link_delay: tunable requeueAfterNodeLink mrRequeueAfterNodeLink
  default_requeueAfterNodeLink moRequeueAfterNodeLink machineSetOptions
  by unfold_locales (simp_all add: requeueAfterNodeLink_def default_defs machineSetOptions_def Let_def)

interpretation upgrade_delay: tunable requeueAfterUpgrade mrRequeueAfterUpgrade
  default_requeueAfterUpgrade moRequeueAfterUpgrade machineSetOptions
  by unfold_locales (simp_all add: requeueAfterUpgrade_def default_defs machineSetOptions_def Let_def)

interpretation probe_threshold: tunable versionProbeThreshold mrVersionProbeThreshold
  default_versionProbeThreshold moVersionProbeThreshold machineSetOptions
  by unfold_locales (simp_all add: versionProbeThreshold_def default_defs machineSetOptions_def Let_def)

interpretation upgrade_threshold: tunable upgradeThreshold mrUpgradeThreshold
  default_upgradeThreshold moUpgradeThreshold machineSetOptions
  by unfold_locales (simp_all add: upgradeThreshold_def default_defs machineSetOptions_def Let_def)


section \<open>The machine object\<close>

abbreviation mod_machine ::
  "(byot_machine_status \<Rightarrow> byot_machine_status) \<Rightarrow> (byot_machine, unit) act" where
  "mod_machine f \<equiv> modify_obj (mStatus_update f)"

definition markMachineTrue :: "env \<Rightarrow> string \<Rightarrow> byot_machine_status \<Rightarrow> byot_machine_status" where
  "markMachineTrue env t st = st\<lparr>mConditions := l_mark_true env (mConditions st) t\<rparr>"

definition markMachineFalse ::
  "env \<Rightarrow> string \<Rightarrow> string \<Rightarrow> severity \<Rightarrow> string \<Rightarrow> byot_machine_status \<Rightarrow> byot_machine_status" where
  "markMachineFalse env t reason sv msg st =
     st\<lparr>mConditions := l_mark_false env (mConditions st) t reason sv msg\<rparr>"

text \<open>\<open>err := patchHelper.Patch(ctx, byotMachine, owned...); if err != nil { return what: err }\<close>.\<close>

definition patchMachine ::
  "env \<Rightarrow> byot_machine \<Rightarrow> string list \<Rightarrow> string \<Rightarrow> (byot_machine, unit res) act" where
  "patchMachine env helper owned what =
     do { m \<leftarrow> get_obj;
          check_or (kPatchMachine env helper m owned) (errorf what) (ret (Inr ())) }"

definition machineEndpoints :: "byot_machine \<Rightarrow> endpoints" where
  "machineEndpoints byotMachine =
     buildEndpoints (mResolvedInternalIP (mStatus byotMachine)) (mResolvedPublicIP (mStatus byotMachine))"


section \<open>Talosconfig secrets\<close>

definition referencedTalosConfig :: "env \<Rightarrow> string \<Rightarrow> string \<Rightarrow> (byot_machine, bytes res) act" where
  "referencedTalosConfig env secretName namespace =
     do { got \<leftarrow> kGetSecret env (namespace, secretName);
          ret (case got of
             Inl err \<Rightarrow>
               (if is_not_found err then Inl ErrClusterTalosConfigNotReady
                else Inl (errorf (''failed to get talosconfig secret '' @
                       key_text (namespace, secretName)) err))
           | Inr secret \<Rightarrow>
               (case fmlookup secret talosConfigSecretDataKey of
                  None \<Rightarrow> Inl ErrClusterTalosConfigNotReady
                | Some data \<Rightarrow>
                    (if data = [] then Inl ErrClusterTalosConfigNotReady else Inr data))) }"

definition clusterTalosConfig :: "env \<Rightarrow> string \<Rightarrow> string \<Rightarrow> (byot_machine, bytes res) act" where
  "clusterTalosConfig env clusterName namespace =
     referencedTalosConfig env (clusterName @ clusterTalosConfigSecretSuffix) namespace"

text \<open>A talosconfig that is not ready is skipped, any other error is returned.\<close>

definition add_candidate ::
  "(byot_machine, bytes res) act \<Rightarrow> string \<Rightarrow> bytes option list \<Rightarrow>
     (byot_machine, bytes option list res) act" where
  "add_candidate load what candidates =
     do { got \<leftarrow> load;
          ret (case got of
             Inr talosConfig \<Rightarrow> Inr (candidates @ [Some talosConfig])
           | Inl err \<Rightarrow>
               (if errors_is err ErrClusterTalosConfigNotReady then Inr candidates
                else Inl (errorf what err))) }"

definition label_or_empty :: "string_map \<Rightarrow> string \<Rightarrow> string" where
  "label_or_empty m k = (case fmlookup m k of None \<Rightarrow> '''' | Some v \<Rightarrow> v)"

definition resetCredentialCandidates :: "env \<Rightarrow> (byot_machine, bytes option list res) act" where
  "resetCredentialCandidates env =
     do { byotMachine \<leftarrow> get_obj;
          let namespace = oNamespace (mMeta byotMachine);
          try_or
            (case mTalosConfigSecretRef (mSpec byotMachine) of
               None \<Rightarrow> ret (Inr [])
             | Some name \<Rightarrow> add_candidate (referencedTalosConfig env name namespace)
                               ''failed to load referenced talosconfig'' [])
            id (\<lambda>candidates.
              let clusterName = label_or_empty (oLabels (mMeta byotMachine)) clusterNameLabel in
              try_or
                (if clusterName \<noteq> ''''
                 then add_candidate (clusterTalosConfig env clusterName namespace)
                        ''failed to load cluster talosconfig'' candidates
                 else ret (Inr candidates))
                id (\<lambda>candidates. ret (Inr (candidates @ [None])))) }"

lemma machineEndpoints_nonempty:
  "mResolvedPublicIP (mStatus m) \<noteq> [] \<Longrightarrow> machineEndpoints m \<noteq> []"
  by (simp add: machineEndpoints_def buildEndpoints_nonempty)

lemma keeps_patchMachine [keeps_intros]: "keeps (patchMachine env helper owned what)"
  unfolding patchMachine_def by (intro keeps_intros)

lemma keeps_talosconfig [keeps_intros]:
  "keeps (referencedTalosConfig env n ns)" "keeps (clusterTalosConfig env c ns)"
  unfolding clusterTalosConfig_def referencedTalosConfig_def by (intro keeps_intros)+

lemma keeps_resetCredentialCandidates [keeps_intros]: "keeps (resetCredentialCandidates env)"
  unfolding resetCredentialCandidates_def add_candidate_def Let_def by (intro keeps_intros)

lemma emits_patchMachine [emits_intros]:
  "(\<And>b x o' r. E (Kube (EvPatchMachine b x o' r))) \<Longrightarrow> emits E (patchMachine env helper owned what)"
  unfolding patchMachine_def by (intro emits_intros)

lemma emits_talosconfig [emits_intros]:
  assumes "\<And>k r. E (Kube (EvGetSecret k r))"
  shows "emits E (referencedTalosConfig env n ns)" "emits E (clusterTalosConfig env c ns)"
    "emits E (resetCredentialCandidates env)"
  unfolding resetCredentialCandidates_def add_candidate_def clusterTalosConfig_def
    referencedTalosConfig_def Let_def
  by (intro emits_intros assms)+

end
