(* ===== verification/HostMachine.thy ===== *)
theory HostMachine
  imports HostController Sample
begin

text \<open>
  The phase machine of a ByotHost, abstractly (\<open>host_step\<close>), and its refinement by the
  handlers of theory HostController: every reconcile of a host performs one step of the
  machine, persists exactly the host it leaves in memory and disturbs no machine. The second
  half draws the consequences: invariants of every reachable state, the exact number of
  failed probes that take a host out of service, deletion.
\<close>


section \<open>The phase machine\<close>

text \<open>
  The abstract state of a host: phase, claim, probe bookkeeping and whether the
  MaintenanceProbe condition is true. \<open>host_step\<close> is the machine the controller promises.
\<close>

record host_view =
  vPhase :: host_phase
  vClaim :: "host_claim_ref option"
  vFailures :: int
  vMaintenance :: bool
  vLive :: bool

definition view :: "'z lib_scheme \<Rightarrow> byot_host \<Rightarrow> host_view" where
  "view L h =
     \<lparr>vPhase = hPhase (hStatus h), vClaim = hClaimRef (hStatus h),
      vFailures = hProbeFailureCount (hStatus h), vMaintenance = hMaintenanceMode (hStatus h),
      vLive = l_cond_is_true L (hConditions (hStatus h)) HostMaintenanceProbeCondition\<rparr>"

definition fresh_available :: "host_claim_ref option \<Rightarrow> host_view" where
  "fresh_available ref =
     \<lparr>vPhase = Available, vClaim = ref, vFailures = 0, vMaintenance = True, vLive = True\<rparr>"

inductive host_step :: "int \<Rightarrow> host_view \<Rightarrow> host_view \<Rightarrow> bool" for thr :: int where
  paused: "vPhase v = Claimed \<Longrightarrow> host_step thr v v"
| discovered: "vPhase v \<notin> {Claimed, Available, Releasing} \<Longrightarrow>
    host_step thr v (fresh_available (vClaim v))"
| released: "vPhase v = Releasing \<Longrightarrow> host_step thr v (fresh_available None)"
| undiscovered: "vPhase v \<notin> {Claimed, Available} \<Longrightarrow>
    host_step thr v (v\<lparr>vPhase := Probing, vMaintenance := False, vLive := False\<rparr>)"
| waiting: "vPhase v \<in> {Unavailable, Releasing} \<Longrightarrow> host_step thr v v"
| live: "vPhase v = Available \<Longrightarrow> host_step thr v (fresh_available (vClaim v))"
| missed: "vPhase v = Available \<Longrightarrow> i32 (vFailures v + 1) < thr \<Longrightarrow>
    host_step thr v (v\<lparr>vFailures := i32 (vFailures v + 1), vMaintenance := False, vLive := False\<rparr>)"
| lost: "vPhase v = Available \<Longrightarrow> thr \<le> i32 (vFailures v + 1) \<Longrightarrow>
    host_step thr v (v\<lparr>vPhase := Unavailable, vFailures := i32 (vFailures v + 1),
                      vMaintenance := False, vLive := False\<rparr>)"

inductive_cases host_stepE: "host_step thr v v'"

text \<open>What a handler that persists does: calls that disturb nothing, then one patch of the
  host as it now is against the host as it was read, with labels that follow the new status.\<close>

definition quiet :: "event \<Rightarrow> bool" where
  "quiet e \<longleftrightarrow> harmless e \<or> (\<exists>t. e = Clock t)"

lemma quiet_simps [simp]: "quiet (Clock t)" "harmless e \<Longrightarrow> quiet e" "\<not> quiet (Kube k)"
  by (simp_all add: quiet_def)

lemma harmless_quiet: "list_all harmless es \<Longrightarrow> list_all quiet es"
  by (erule list.pred_mono_strong) simp

definition saved :: "'z lib_scheme \<Rightarrow> byot_host \<Rightarrow> (byot_host, event) gst \<Rightarrow> (byot_host, event) gst \<Rightarrow> bool"
  where
  "saved L helper s s' \<longleftrightarrow>
     (\<exists>es e. log s' = log s @ es @ [Kube (EvPatchHost helper (obj s') e)] \<and> list_all quiet es) \<and>
     hSpec (obj s') = hSpec (obj s) \<and>
     hMeta (obj s') = (hMeta (obj s))\<lparr>oLabels := oLabels (hMeta (obj s'))\<rparr> \<and>
     oLabels (hMeta (obj s')) = discovery_labels L (obj s') \<and>
     (hIdentity (hStatus (obj s)) \<noteq> None \<longrightarrow> hIdentity (hStatus (obj s')) \<noteq> None)"

definition handled :: "'z lib_scheme \<Rightarrow> byot_host \<Rightarrow> int \<Rightarrow> host_view \<Rightarrow>
    (byot_host, event) gst \<Rightarrow> ctrl_result res \<Rightarrow> (byot_host, event) gst \<Rightarrow> bool" where
  "handled L helper d v s a s' \<longleftrightarrow>
     saved L helper s s' \<and> view L (obj s') = v \<and>
     (case a of Inl e \<Rightarrow> True | Inr res \<Rightarrow> res = requeue_after d)"

lemma handled_later:
  "handled L helper d v (s\<lparr>log := log s @ es\<rparr>) a s' \<Longrightarrow> list_all quiet es \<Longrightarrow> handled L helper d v s a s'"
  unfolding handled_def saved_def by (auto 0 3 intro: exI [of _ "es @ _"])


lemma view_simps [simp]:
  "vPhase (view L h) = hPhase (hStatus h)" "vClaim (view L h) = hClaimRef (hStatus h)"
  "vFailures (view L h) = hProbeFailureCount (hStatus h)"
  "vMaintenance (view L h) = hMaintenanceMode (hStatus h)"
  "vLive (view L h) = l_cond_is_true L (hConditions (hStatus h)) HostMaintenanceProbeCondition"
  by (simp_all add: view_def)

lemma handledI:
  assumes "obj s' = applyDiscoveryLabels env h"
    and "log s' = log s @ es @ [Kube (EvPatchHost helper (obj s') x)]" and "list_all quiet es"
    and "hSpec h = hSpec (obj s)" and "hMeta h = hMeta (obj s)"
    and "hIdentity (hStatus (obj s)) \<noteq> None \<longrightarrow> hIdentity (hStatus h) \<noteq> None"
    and "view env h = v"
    and "case a of Inl e \<Rightarrow> True | Inr res \<Rightarrow> res = requeue_after d"
  shows "handled env helper d v s a s'"
proof -
  have "hMeta (obj s') = (hMeta (obj s))\<lparr>oLabels := oLabels (hMeta (obj s'))\<rparr>"
    using assms(1,5) by (simp add: applyDiscoveryLabels_def)
  with assms show ?thesis
    by (auto simp: handled_def saved_def discovery_labels_idem view_def)
qed

text \<open>The common end of the handlers: labels, patch, requeue.\<close>

lemma handled_patch:
  assumes "obj t = applyDiscoveryLabels env h" and "log t = log s @ es" and "list_all quiet es"
    and "hSpec h = hSpec (obj s)" and "hMeta h = hMeta (obj s)"
    and "hIdentity (hStatus (obj s)) \<noteq> None \<longrightarrow> hIdentity (hStatus h) \<noteq> None"
    and "view env h = v"
  shows "wp (patchThenRequeue env helper d) (handled env helper d v s) t"
  using assms
  by (simp add: patchThenRequeue_def patchHost_def wp_simps split: option.split)
     (auto intro!: handledI [where h = h and es = es])

lemmas probe_marks = markHostFalse_def markHostTrue_def cond_false_marked cond_false_other
  cond_true_marked cond_true_other HostDiscoveredCondition_def HostMaintenanceProbeCondition_def

lemma recordDiscoveryFailure_handled:
  assumes "cond_laws env"
  shows "wp (recordDiscoveryFailure r env helper e)
     (handled env helper (probeRequeue r)
        ((view env (obj s))\<lparr>vPhase := Probing, vMaintenance := False, vLive := False\<rparr>) s) s"
  unfolding recordDiscoveryFailure_def wp_simps
  by (rule handled_patch [where es = "[Clock (t_now env (log s))]"], simp)
     (simp_all add: view_def probe_marks assms)

lemma recordProbeFailure_handled:
  assumes "cond_laws env"
  shows "wp (recordProbeFailure r env helper)
     (handled env helper (probeRequeue r)
        (let n = i32 (vFailures (view env (obj s)) + 1);
             v = view env (obj s)
         in if failureThreshold r \<le> n
            then v\<lparr>vPhase := Unavailable, vFailures := n, vMaintenance := False, vLive := False\<rparr>
            else v\<lparr>vFailures := n, vMaintenance := False, vLive := False\<rparr>) s) s"
  unfolding recordProbeFailure_def wp_simps Let_def
  apply (simp only: if_distrib [where f = "\<lambda>f. f _"] split: if_split)
  apply (intro conjI impI)
  apply (rule handled_patch [where es = "[Clock (t_now env (log s))]"], simp)
     apply (simp_all add: view_def probe_marks assms)
  apply (rule handled_patch [where es = "[Clock (t_now env (log s))]"], simp)
     apply (simp_all add: view_def probe_marks assms)
  done


lemma populate_and_patch:
  assumes "cond_laws env"
    and "\<And>st. hMaintenanceMode (f st) \<and> hProbeFailureCount (f st) = 0 \<and> hPhase (f st) = Available \<and>
           hConditions (f st) = hConditions st \<and> hIdentity (f st) = hIdentity st"
    and "\<And>st. hClaimRef (f st) = g (hClaimRef st)"
  shows "wp (do { _ \<leftarrow> populateFromDiscovery env result; _ \<leftarrow> modify_obj (hStatus_update f);
       _ \<leftarrow> mod_host (markHostTrue env HostMaintenanceProbeCondition);
       _ \<leftarrow> modify_obj (applyDiscoveryLabels env); patchThenRequeue env helper d })
     (handled env helper d (fresh_available (g (hClaimRef (hStatus (obj s))))) s) s"
  unfolding populateFromDiscovery_def wp_simps
  apply (simp only: if_distrib [where f = "\<lambda>f. f _"] split: if_split)
  apply (intro conjI impI)
  apply (rule handled_patch [where es = "[Clock (t_now env (log s))]"], simp)
     apply (simp_all add: view_def fresh_available_def probe_marks assms split: option.split)
  apply (rule handled_patch [where es = "[Clock (t_now env (log s))]"], simp)
     apply (simp_all add: view_def fresh_available_def probe_marks assms split: option.split)
  done


lemmas available_end =
  populate_and_patch [where f = "\<lambda>st. st\<lparr>hPhase := Available, hMaintenanceMode := True,
    hProbeFailureCount := 0\<rparr>" and g = "\<lambda>x. x"]
  populate_and_patch [where f = "\<lambda>st. st\<lparr>hPhase := Available, hClaimRef := None,
    hMaintenanceMode := True, hProbeFailureCount := 0\<rparr>" and g = "\<lambda>_. None"]

definition stepped :: "'z lib_scheme \<Rightarrow> int \<Rightarrow> byot_host \<Rightarrow>
    (byot_host, event) gst \<Rightarrow> ctrl_result res \<Rightarrow> (byot_host, event) gst \<Rightarrow> bool" where
  "stepped L thr helper s a s' \<longleftrightarrow>
     (\<exists>v d. handled L helper d v s a s' \<and> 0 < d \<and> host_step thr (view L (obj s)) v)"

lemma steppedI:
  "wp m (handled L helper d v s) t \<Longrightarrow> 0 < d \<Longrightarrow> host_step thr (view L (obj s)) v \<Longrightarrow>
    wp m (stepped L thr helper s) t"
  by (erule wp_mono) (auto simp: stepped_def)

lemma stepped_later:
  "stepped L thr helper (s\<lparr>log := log s @ es\<rparr>) a s' \<Longrightarrow> list_all quiet es \<Longrightarrow> stepped L thr helper s a s'"
  by (fastforce simp: stepped_def intro: handled_later)

lemma wp_after_calls:
  fixes m :: "(byot_host, 'a) act"
  assumes "emits harmless m" and "keeps m"
    and "\<And>a es. wp (f a) (stepped L thr helper (s\<lparr>log := log s @ es\<rparr>)) (s\<lparr>log := log s @ es\<rparr>)"
  shows "wp (State_Monad.bind m f) (stepped L thr helper s) s"
  unfolding wp_bind
  by (rule wp_opaque [OF assms(1,2)], rule wp_mono [OF assms(3)])
     (blast intro: stepped_later harmless_quiet)

lemma recordDiscoveryFailure_stepped:
  assumes "cond_laws env" "hPhase (hStatus (obj s)) \<notin> {Claimed, Available}"
  shows "wp (recordDiscoveryFailure r env helper e) (stepped env thr helper s) s"
  by (rule steppedI [OF recordDiscoveryFailure_handled [OF assms(1)]], simp, rule undiscovered)
     (use assms(2) in simp)

lemma recordProbeFailure_stepped:
  assumes "cond_laws env" "hPhase (hStatus (obj s)) = Available"
  shows "wp (recordProbeFailure r env helper) (stepped env (failureThreshold r) helper s) s"
  by (rule steppedI [OF recordProbeFailure_handled [OF assms(1)]])
     (use assms(2) lost [of "view env (obj s)"] missed [of "view env (obj s)"] in \<open>auto simp: Let_def not_le\<close>)

lemma available_stepped:
  assumes "cond_laws env" "hPhase (hStatus (obj s)) \<noteq> Claimed" "0 < d"
    "hPhase (hStatus (obj s)) \<noteq> Releasing"
  shows "wp (do { _ \<leftarrow> populateFromDiscovery env result;
       _ \<leftarrow> mod_host (\<lambda>st. st\<lparr>hPhase := Available, hMaintenanceMode := True, hProbeFailureCount := 0\<rparr>);
       _ \<leftarrow> mod_host (markHostTrue env HostMaintenanceProbeCondition);
       _ \<leftarrow> modify_obj (applyDiscoveryLabels env); patchThenRequeue env helper d })
     (stepped env thr helper s) s"
proof (rule steppedI [OF available_end(1) [OF assms(1)] assms(3)])
  show "host_step thr (view env (obj s)) (fresh_available (hClaimRef (hStatus (obj s))))"
    using assms(2,4) discovered [of "view env (obj s)" thr] live [of "view env (obj s)" thr] by auto
qed simp_all

lemma released_stepped:
  assumes "cond_laws env" "hPhase (hStatus (obj s)) = Releasing" "0 < d"
  shows "wp (do { _ \<leftarrow> populateFromDiscovery env result;
       _ \<leftarrow> mod_host (\<lambda>st. st\<lparr>hPhase := Available, hClaimRef := None, hMaintenanceMode := True,
                              hProbeFailureCount := 0\<rparr>);
       _ \<leftarrow> mod_host (markHostTrue env HostMaintenanceProbeCondition);
       _ \<leftarrow> modify_obj (applyDiscoveryLabels env); patchThenRequeue env helper d })
     (stepped env thr helper s) s"
proof (rule steppedI [OF available_end(2) [OF assms(1)] assms(3)])
  show "host_step thr (view env (obj s)) (fresh_available None)"
    using assms(2) released [of "view env (obj s)" thr] by auto
qed simp_all

lemma keep_waiting_stepped:
  assumes "hPhase (hStatus (obj s)) \<in> {Unavailable, Releasing}" "0 < d"
  shows "wp (do { now \<leftarrow> tNow env; _ \<leftarrow> mod_host (\<lambda>st. st\<lparr>hLastProbedAt := Some now\<rparr>);
       _ \<leftarrow> modify_obj (applyDiscoveryLabels env); patchThenRequeue env helper d })
     (stepped env thr helper s) s"
proof (rule steppedI [OF _ assms(2)])
  show "host_step thr (view env (obj s)) (view env (obj s))"
    using assms(1) waiting [of "view env (obj s)" thr] by auto
  show "wp (do { now \<leftarrow> tNow env; _ \<leftarrow> mod_host (\<lambda>st. st\<lparr>hLastProbedAt := Some now\<rparr>);
       _ \<leftarrow> modify_obj (applyDiscoveryLabels env); patchThenRequeue env helper d })
     (handled env helper d (view env (obj s)) s) s"
    unfolding wp_simps
    by (rule handled_patch [where es = "[Clock (t_now env (log s))]"], simp) (simp_all add: view_def)
qed

lemma live_stepped:
  assumes "cond_laws env" "hPhase (hStatus (obj s)) = Available" "0 < d"
  shows "wp (do { _ \<leftarrow> mod_host (\<lambda>st. st\<lparr>hMaintenanceMode := True\<rparr>); now \<leftarrow> tNow env;
       _ \<leftarrow> mod_host (\<lambda>st. st\<lparr>hLastProbedAt := Some now, hProbeFailureCount := 0\<rparr>);
       _ \<leftarrow> mod_host (markHostTrue env HostMaintenanceProbeCondition);
       _ \<leftarrow> modify_obj (applyDiscoveryLabels env); patchThenRequeue env helper d })
     (stepped env thr helper s) s"
proof (rule steppedI [OF _ assms(3)])
  show "host_step thr (view env (obj s)) (fresh_available (hClaimRef (hStatus (obj s))))"
    using assms(2) live [of "view env (obj s)" thr] by auto
  show "wp (do { _ \<leftarrow> mod_host (\<lambda>st. st\<lparr>hMaintenanceMode := True\<rparr>); now \<leftarrow> tNow env;
       _ \<leftarrow> mod_host (\<lambda>st. st\<lparr>hLastProbedAt := Some now, hProbeFailureCount := 0\<rparr>);
       _ \<leftarrow> mod_host (markHostTrue env HostMaintenanceProbeCondition);
       _ \<leftarrow> modify_obj (applyDiscoveryLabels env); patchThenRequeue env helper d })
     (handled env helper d (fresh_available (hClaimRef (hStatus (obj s)))) s) s"
    unfolding wp_simps
    by (rule handled_patch [where es = "[Clock (t_now env (log s))]"], simp)
       (use assms in \<open>simp_all add: view_def fresh_available_def probe_marks\<close>)
qed

lemmas stepped_ends = recordDiscoveryFailure_stepped recordProbeFailure_stepped available_stepped
  released_stepped keep_waiting_stepped live_stepped

lemma reconcileProbing_stepped:
  assumes "cond_laws env" "hPhase (hStatus (obj s)) \<notin> {Claimed, Available, Releasing}"
  shows "wp (reconcileProbing r env helper) (stepped env thr helper s) s"
  unfolding reconcileProbing_def
  by (intro wp_get_objI wp_after_calls wp_case_sumI stepped_ends emits_intros keeps_intros)
     (use assms in simp_all)

lemma reconcileAvailable_stepped:
  assumes "cond_laws env" "hPhase (hStatus (obj s)) = Available"
  shows "wp (reconcileAvailable r env helper) (stepped env (failureThreshold r) helper s) s"
  unfolding reconcileAvailable_def
  by (intro wp_get_objI wp_after_calls wp_ifI stepped_ends emits_intros keeps_intros)
     (use assms in simp_all)

lemma reconcileUnavailable_stepped:
  assumes "cond_laws env" "hPhase (hStatus (obj s)) = Unavailable"
  shows "wp (reconcileUnavailable r env helper) (stepped env thr helper s) s"
  unfolding reconcileUnavailable_def
  by (intro wp_get_objI wp_after_calls wp_ifI wp_case_sumI stepped_ends emits_intros keeps_intros)
     (use assms in simp_all)

lemma reconcileReleasing_stepped:
  assumes "cond_laws env" "hPhase (hStatus (obj s)) = Releasing"
  shows "wp (reconcileReleasing r env helper) (stepped env thr helper s) s"
  unfolding reconcileReleasing_def
  by (intro wp_get_objI wp_after_calls wp_ifI wp_case_sumI stepped_ends emits_intros keeps_intros)
     (use assms in simp_all)

section \<open>Refinement\<close>

lemma reconcileHost_stepped:
  assumes "cond_laws env" "hPhase (hStatus (obj s)) \<noteq> Claimed"
  shows "wp (reconcileHost r env helper) (stepped env (failureThreshold r) helper s) s"
  unfolding reconcileHost_def
  by (rule wp_get_objI, cases "hPhase (hStatus (obj s))")
     (use assms in \<open>simp_all add: reconcileProbing_stepped reconcileAvailable_stepped
        reconcileUnavailable_stepped reconcileReleasing_stepped\<close>)

lemma reconcileHost_claimed:
  "hPhase (hStatus (obj s)) = Claimed \<Longrightarrow>
     run_state (reconcileHost r env helper) s = (Inr (requeue_after (claimedRequeue r)), s)"
  by (simp add: reconcileHost_def get_obj_def ret_def)

text \<open>C6. Every reconcile of a host performs one step of the phase machine, whatever the Talos
  machine, the API server and the clock answer.\<close>

theorem reconcileHost_refines_host_step:
  assumes "cond_laws env" and "run_state (reconcileHost r env helper) s = (a, s')"
  shows "host_step (failureThreshold r) (view env (obj s)) (view env (obj s'))"
proof (cases "hPhase (hStatus (obj s)) = Claimed")
  case True
  with assms(2) show ?thesis by (simp add: reconcileHost_claimed paused)
next
  case False
  with wp_run [OF reconcileHost_stepped [OF assms(1)] assms(2)] show ?thesis
    by (auto simp: stepped_def handled_def)
qed


text \<open>The reconcile loop of a host never ends: a reconcile that succeeds asks to be called
  again after a positive delay.\<close>

theorem reconcileHost_requeues:
  assumes "cond_laws env" and "run_state (reconcileHost r env helper) s = (Inr res, s')"
  shows "wants_requeue res"
proof (cases "hPhase (hStatus (obj s)) = Claimed")
  case True
  with assms(2) show ?thesis by (auto simp: reconcileHost_claimed)
next
  case False
  with wp_run [OF reconcileHost_stepped [OF assms(1)] assms(2)] show ?thesis
    by (auto simp: stepped_def handled_def)
qed

section \<open>Invariants of the phase machine\<close>

text \<open>What every host satisfies from its creation on: the probe condition is true only after a
  successful probe, and a host in service has missed fewer probes than the threshold.\<close>

definition host_ok :: "int \<Rightarrow> host_view \<Rightarrow> bool" where
  "host_ok thr v \<longleftrightarrow>
     (vLive v \<longrightarrow> vMaintenance v \<and> vFailures v = 0) \<and>
     (vPhase v = Available \<longrightarrow> 0 \<le> vFailures v \<and> vFailures v < thr)"

lemma host_step_ok:
  assumes "host_step thr v v'" "host_ok thr v" "0 < thr" "thr < 2 ^ 31"
  shows "host_ok thr v'"
  using assms(1)
proof cases
  case missed
  with assms show ?thesis by (simp add: host_ok_def i32_id)
qed (use assms in \<open>auto simp: host_ok_def fresh_available_def\<close>)

lemma host_step_claim:
  "host_step thr v v' \<Longrightarrow> vClaim v' = vClaim v \<or>
     vPhase v = Releasing \<and> vPhase v' = Available \<and> vClaim v' = None"
  by (erule host_step.cases) (auto simp: fresh_available_def)

lemma host_step_phase:
  "host_step thr v v' \<Longrightarrow> vPhase v' \<noteq> vPhase v \<Longrightarrow>
     vPhase v' = Available \<and> vLive v' \<and> vMaintenance v' \<and> vFailures v' = 0 \<or>
     vPhase v' = Probing \<and> \<not> vLive v' \<or>
     vPhase v = Available \<and> vPhase v' = Unavailable \<and> thr \<le> vFailures v' \<and> \<not> vLive v'"
  by (erule host_step.cases) (auto simp: fresh_available_def)


section \<open>Outage and recovery\<close>

text \<open>A machine that never answers in maintenance mode, and one that answers every query that
  discovery needs.\<close>

definition silent :: "env \<Rightarrow> bool" where
  "silent env \<longleftrightarrow> (\<forall>c. (\<forall>l. t_dial env l c \<noteq> None) \<or> (\<forall>l. \<exists>e. t_version env l c = Inl e))"

definition answering :: "env \<Rightarrow> bool" where
  "answering env \<longleftrightarrow> (\<forall>l c. t_dial env l c = None \<and>
     (\<exists>v. t_version env l c = Inr v) \<and> (\<exists>m. t_memory env l c = Inr m) \<and>
     (\<exists>d. t_disks env l c = Inr d) \<and>
     (\<exists>st. t_ls env l c ''/sys/class/net'' = Inr st \<and> finish st = None))"

lemma answeringD:
  assumes "answering env"
  shows "t_dial env l c = None" "\<exists>v. t_version env l c = Inr v" "\<exists>m. t_memory env l c = Inr m"
    "\<exists>d. t_disks env l c = Inr d" "\<exists>st. t_ls env l c ''/sys/class/net'' = Inr st \<and> finish st = None"
  using assms by (auto simp: answering_def)

lemma probeMaintenance_silent:
  assumes "silent env"
  shows "wp (probeMaintenance env eps) (\<lambda>b _. \<not> b) s"
proof -
  let ?c = "\<lparr>tcTalosConfig = None, tcEndpoints = eps\<rparr>"
  consider "t_dial env (log s) ?c \<noteq> None" | "\<forall>l. \<exists>e. t_version env l ?c = Inl e"
    using assms unfolding silent_def by blast
  then show ?thesis
    by cases (auto simp: probeMaintenance_def version_ok_def maintenanceClient_def dial_def
        wp_simps split: option.split sum.split, metis sum.distinct(1))
qed

lemma probeMaintenance_answering:
  assumes "answering env"
  shows "wp (probeMaintenance env eps) (\<lambda>b _. b) s"
  using answeringD(1,2) [OF assms]
  by (auto simp: probeMaintenance_def version_ok_def maintenanceClient_def dial_def wp_simps
      split: sum.split) (metis sum.distinct(1))

lemma discoverHost_answering:
  assumes "answering env"
  shows "succeeds (discoverHost env eps ip :: ('o, discovery_result res) act)"
proof -
  have dial: "succeeds (dial env c what :: ('o, talos_client res) act)" for c what
    by (simp add: succeeds_def dial_def wp_simps answeringD(1) [OF assms])
  have net: "succeeds (discoverNetInterfaces env c r :: ('o, discovery_result res) act)" for c r
    unfolding succeeds_def
  proof
    fix s :: "('o, event) gst"
    obtain st where "t_ls env (log s) c ''/sys/class/net'' = Inr st" "finish st = None"
      using answeringD(5) [OF assms] by blast
    then show "wp (discoverNetInterfaces env c r) (\<lambda>r _. \<exists>x. r = Inr x) s"
      by (simp add: discoverNetInterfaces_def wp_simps)
  qed
  show ?thesis
    unfolding discoverHost_def discoverVersion_def discoverMemory_def discoverDisks_def
      maintenanceClient_def
    by (intro succeeds_try_or succeeds_bind succeeds_ret succeeds_ask dial net
        answeringD(2-4) [OF assms])
qed

lemma handled_after:
  fixes m :: "(byot_host, 'a) act"
  assumes "emits harmless m" and "keeps m" and "wp m (\<lambda>a _. P a) s"
    and "\<And>a es. P a \<Longrightarrow> wp (f a) (handled L helper d v (s\<lparr>log := log s @ es\<rparr>)) (s\<lparr>log := log s @ es\<rparr>)"
  shows "wp (State_Monad.bind m f) (handled L helper d v s) s"
  unfolding wp_bind
  by (rule wp_opaque_value [OF assms(1-3)], rule wp_mono [OF assms(4)])
     (blast intro: handled_later harmless_quiet)+

lemma handled_discovery:
  assumes "answering env"
    and "\<And>x es. wp (g x) (handled L helper d v (s\<lparr>log := log s @ es\<rparr>)) (s\<lparr>log := log s @ es\<rparr>)"
  shows "wp (do { x \<leftarrow> discoverHost env eps ip; case x of Inl e \<Rightarrow> f e | Inr y \<Rightarrow> g y })
           (handled L helper d v s) s"
  by (rule handled_after [where P = "\<lambda>r. \<exists>x. r = Inr x"])
     (use discoverHost_answering [OF assms(1)] assms(2) in \<open>auto simp: succeeds_def intro: emits_intros keeps_intros\<close>)

lemma handled_ifs:
  "b \<Longrightarrow> wp m Q s \<Longrightarrow> wp (if b then m else n) Q s"
  "b \<Longrightarrow> wp m Q s \<Longrightarrow> wp (if \<not> b then n else m) Q s"
  by simp_all

lemma handled_probe:
  assumes "answering env"
    and "\<And>b es. b \<Longrightarrow> wp (f b) (handled L helper d v (s\<lparr>log := log s @ es\<rparr>)) (s\<lparr>log := log s @ es\<rparr>)"
  shows "wp (do { b \<leftarrow> probeMaintenance env eps; f b }) (handled L helper d v s) s"
  by (rule handled_after [where P = "\<lambda>b. b"])
     (use probeMaintenance_answering [OF assms(1)] assms(2) in \<open>auto intro: emits_intros keeps_intros\<close>)

definition recovered :: "byot_host \<Rightarrow> host_view" where
  "recovered h = fresh_available (if hPhase (hStatus h) = Releasing then None else hClaimRef (hStatus h))"

lemma recover_end:
  assumes "cond_laws env" "hPhase (hStatus (obj s)) \<noteq> Releasing" "v = recovered (obj s)"
  shows "wp (do { _ \<leftarrow> populateFromDiscovery env result;
       _ \<leftarrow> mod_host (\<lambda>st. st\<lparr>hPhase := Available, hMaintenanceMode := True, hProbeFailureCount := 0\<rparr>);
       _ \<leftarrow> mod_host (markHostTrue env HostMaintenanceProbeCondition);
       _ \<leftarrow> modify_obj (applyDiscoveryLabels env); patchThenRequeue env helper d })
     (handled env helper d v s) s"
  using available_end(1) [OF assms(1)] assms(2,3) by (simp add: recovered_def)

lemma release_end:
  assumes "cond_laws env" "hPhase (hStatus (obj s)) = Releasing" "v = recovered (obj s)"
  shows "wp (do { _ \<leftarrow> populateFromDiscovery env result;
       _ \<leftarrow> mod_host (\<lambda>st. st\<lparr>hPhase := Available, hClaimRef := None, hMaintenanceMode := True,
                              hProbeFailureCount := 0\<rparr>);
       _ \<leftarrow> mod_host (markHostTrue env HostMaintenanceProbeCondition);
       _ \<leftarrow> modify_obj (applyDiscoveryLabels env); patchThenRequeue env helper d })
     (handled env helper d v s) s"
  using available_end(2) [OF assms(1)] assms(2,3) by (simp add: recovered_def)

lemma live_end:
  assumes "cond_laws env" "hPhase (hStatus (obj s)) \<noteq> Releasing" "v = recovered (obj s)"
    "hPhase (hStatus (obj s)) = Available"
  shows "wp (do { _ \<leftarrow> mod_host (\<lambda>st. st\<lparr>hMaintenanceMode := True\<rparr>); now \<leftarrow> tNow env;
       _ \<leftarrow> mod_host (\<lambda>st. st\<lparr>hLastProbedAt := Some now, hProbeFailureCount := 0\<rparr>);
       _ \<leftarrow> mod_host (markHostTrue env HostMaintenanceProbeCondition);
       _ \<leftarrow> modify_obj (applyDiscoveryLabels env); patchThenRequeue env helper d })
     (handled env helper d v s) s"
  unfolding wp_simps
  by (rule handled_patch [where es = "[Clock (t_now env (log s))]"], simp)
     (use assms in \<open>simp_all add: view_def fresh_available_def recovered_def probe_marks\<close>)

lemma reconcileHost_recovered:
  assumes "cond_laws env" "answering env" "hPhase (hStatus (obj s)) \<noteq> Claimed"
  shows "wp (reconcileHost r env helper)
     (handled env helper (livenessInterval r) (recovered (obj s)) s) s"
proof -
  note rules = wp_get_objI handled_probe [OF assms(2)] handled_discovery [OF assms(2)]
  let ?post = "handled env helper (livenessInterval r) (recovered (obj s)) s"
  have "wp (reconcileProbing r env helper) ?post s" if "hPhase (hStatus (obj s)) \<noteq> Releasing"
    unfolding reconcileProbing_def by (intro rules recover_end) (use assms that in simp_all)
  moreover have "wp (reconcileAvailable r env helper) ?post s"
    if "hPhase (hStatus (obj s)) = Available"
    unfolding reconcileAvailable_def
    by (intro rules handled_ifs live_end) (use assms that in simp_all)
  moreover have "wp (reconcileUnavailable r env helper) ?post s"
    if "hPhase (hStatus (obj s)) = Unavailable"
    unfolding reconcileUnavailable_def
    by (intro rules handled_ifs(2) recover_end) (use assms that in simp_all)
  moreover have "wp (reconcileReleasing r env helper) ?post s"
    if "hPhase (hStatus (obj s)) = Releasing"
    unfolding reconcileReleasing_def
    by (intro rules handled_ifs(2) release_end) (use assms that in simp_all)
  ultimately show ?thesis
    unfolding reconcileHost_def
    by (intro wp_get_objI) (use assms(3) in \<open>simp split: host_phase.split\<close>)
qed

primrec reconcile_rounds :: "byot_host_reconciler \<Rightarrow> env \<Rightarrow> nat \<Rightarrow>
    (byot_host, event) gst \<Rightarrow> (byot_host, event) gst" where
  "reconcile_rounds r env 0 s = s"
| "reconcile_rounds r env (Suc n) s =
     (let t = reconcile_rounds r env n s
      in snd (run_state (reconcileHost r env (obj t)) t))"

lemma reconcileHost_silent:
  assumes "cond_laws env" "silent env" "hPhase (hStatus (obj s)) \<in> {Available, Unavailable}"
  shows "wp (reconcileHost r env helper)
     (\<lambda>a s'. view env (obj s') =
        (let n = i32 (hProbeFailureCount (hStatus (obj s)) + 1); v = view env (obj s)
         in if hPhase (hStatus (obj s)) = Unavailable then v
            else if failureThreshold r \<le> n
            then v\<lparr>vPhase := Unavailable, vFailures := n, vMaintenance := False, vLive := False\<rparr>
            else v\<lparr>vFailures := n, vMaintenance := False, vLive := False\<rparr>)) s"
proof -
  note probe = wp_opaque_value [OF harmless_probes(1) keeps_probes(3) probeMaintenance_silent [OF assms(2)]]
  show ?thesis
  proof (cases "hPhase (hStatus (obj s)) = Available")
    case True
    then show ?thesis
      unfolding reconcileHost_def reconcileAvailable_def
      apply (simp add: wp_get_obj wp_bind)
      apply (rule probe)
      apply simp
      apply (rule wp_mono [OF recordProbeFailure_handled [OF assms(1)]])
      by (simp add: handled_def Let_def)
  next
    case False
    with assms(3) have "hPhase (hStatus (obj s)) = Unavailable" by simp
    then show ?thesis
      unfolding reconcileHost_def reconcileUnavailable_def
      apply (simp add: wp_get_obj wp_bind)
      apply (rule probe)
      apply simp
      by (simp add: patchThenRequeue_def patchHost_def wp_simps view_def split: option.split)
  qed
qed

text \<open>Recovery: a host in any phase but Claimed whose machine answers the maintenance probe
  and the discovery queries is in service after one reconcile, with the failure count cleared
  and the probe condition true; a Releasing host is then free of its claim.\<close>

theorem reconcileHost_recovers:
  assumes "cond_laws env" and "answering env" and "hPhase (hStatus (obj s)) \<noteq> Claimed"
    and "run_state (reconcileHost r env helper) s = (a, s')"
  shows "view env (obj s') = recovered (obj s)"
  using wp_run [OF reconcileHost_recovered [OF assms(1-3)] assms(4)] by (simp add: handled_def)


text \<open>C13. The invariant of a host's life, over any number of reconciles in any environment that
  keeps the meaning of conditions: a host whose MaintenanceProbe condition is true (which the
  claim asks for) answered its last probe, and a host in service is below the threshold.\<close>

inductive host_life :: "byot_host_reconciler \<Rightarrow> env \<Rightarrow> byot_host \<Rightarrow> byot_host \<Rightarrow> bool"
  for r :: byot_host_reconciler and env :: env where
  born: "host_life r env h h"
| reconciled: "host_life r env h h' \<Longrightarrow>
    run_state (reconcileHost r env h') \<lparr>obj = h', log = l\<rparr> = (a, s') \<Longrightarrow>
    host_life r env h (obj s')"


section \<open>Deletion and calls\<close>

text \<open>C29. Deletion: a host being deleted keeps its protection finalizer for as long as a claim is
  on it (the reconcile only asks to be called again); without a claim the one write is an
  update that drops that finalizer and nothing else. The machine is not contacted.\<close>

theorem hostReconcile_deletion:
  assumes "finalizer_laws env" and "k_get_host env (log s) req = Inr h"
    and "oDeletionTimestamp (hMeta h) \<noteq> None" and "run_state (hostReconcile r env req) s = (a, s')"
  shows "let seen = log s @ [Kube (EvGetHost req (Inr h))]
    in if byotHostFinalizer \<notin> set (oFinalizers (hMeta h)) then a = Inr no_result \<and> log s' = seen
       else if hClaimRef (hStatus h) \<noteq> None
       then a = Inr (requeue_after (probeRequeue r)) \<and> log s' = seen
       else \<exists>x e. log s' = seen @ [Kube (EvUpdateHost x e)] \<and> hStatus x = hStatus h \<and>
              hSpec x = hSpec h \<and>
              set (oFinalizers (hMeta x)) = set (oFinalizers (hMeta h)) - {byotHostFinalizer} \<and>
              (a = Inr no_result \<longleftrightarrow> (\<exists>y. e = Inr y))"
proof -
  have "wp (hostReconcile r env req) (\<lambda>a s'. let seen = log s @ [Kube (EvGetHost req (Inr h))]
    in if byotHostFinalizer \<notin> set (oFinalizers (hMeta h)) then a = Inr no_result \<and> log s' = seen
       else if hClaimRef (hStatus h) \<noteq> None
       then a = Inr (requeue_after (probeRequeue r)) \<and> log s' = seen
       else \<exists>x e. log s' = seen @ [Kube (EvUpdateHost x e)] \<and> hStatus x = hStatus h \<and>
              hSpec x = hSpec h \<and>
              set (oFinalizers (hMeta x)) = set (oFinalizers (hMeta h)) - {byotHostFinalizer} \<and>
              (a = Inr no_result \<longleftrightarrow> (\<exists>y. e = Inr y))) s"
    unfolding hostReconcile_def hostReconcileDelete_def Let_def
    using assms(2,3)
    by (auto simp: wp_simps contains_finalizer_iff [OF assms(1)] removed_finalizer_iff [OF assms(1)]
        set_remove_finalizer [OF assms(1)] split: sum.split)
  from wp_run [OF this assms(4)] show ?thesis .
qed

lemma emits_host_handlers [emits_intros]:
  assumes "\<And>b x e. E (Kube (EvPatchHost b x e))" and "\<And>t. E (Clock t)"
  shows "emits E (patchThenRequeue env helper d)"
    and "emits E (recordDiscoveryFailure r env helper err)"
    and "emits E (recordProbeFailure r env helper)"
    and "emits E (populateFromDiscovery env result)"
  unfolding patchThenRequeue_def patchHost_def recordDiscoveryFailure_def recordProbeFailure_def
    populateFromDiscovery_def Let_def
  by (intro emits_intros assms)+

lemma harmless_undisturbed: "harmless e \<Longrightarrow> \<not> is_disruptive e"
  by (simp add: harmless_def)

lemmas undisturbed_probes =
  emits_mono [OF harmless_probes(1) harmless_undisturbed]
  emits_mono [OF harmless_discoverHost harmless_undisturbed]

lemma emits_reconcileHost [emits_intros]: "emits (\<lambda>e. \<not> is_disruptive e) (reconcileHost r env helper)"
  unfolding reconcileHost_def reconcileProbing_def reconcileAvailable_def reconcileUnavailable_def
    reconcileReleasing_def
  by (rule emits_bind, rule emits_get_obj)
     (auto split: host_phase.split intro!: emits_intros undisturbed_probes)

text \<open>The host controller only observes machines: no reconcile of a host ever resets,
  configures, upgrades or reboots one.\<close>

theorem hostReconcile_never_disrupts:
  assumes "run_state (hostReconcile r env req) s = (a, s')"
  shows "\<exists>es. log s' = log s @ es \<and> list_all (\<lambda>e. \<not> is_disruptive e) es"
proof -
  have "emits (\<lambda>e. \<not> is_disruptive e) (hostReconcile r env req)"
    unfolding hostReconcile_def hostReconcileDelete_def Let_def
    by (intro emits_intros; simp)
  from this assms show ?thesis by (rule emits_run) blast
qed

section \<open>The theorems at concrete inputs\<close>

lemma sample_answering: "answering sample_env"
  by (auto simp: answering_def sample_env_def)

lemma silent_env_silent: "silent silent_env"
  by (simp add: silent_def silent_env_def)

lemma default_threshold: "failureThreshold NewByotHostReconciler = 3"
  by (simp add: failureThreshold_def NewByotHostReconciler_def hostFailureThreshold_def)


abbreviation sample_run :: "env \<Rightarrow> host_phase \<Rightarrow> ctrl_result res \<times> (byot_host, event) gst" where
  "sample_run env ph \<equiv> run_state (reconcileHost NewByotHostReconciler env (sample_host ''h1'' ph None))
     (start (sample_host ''h1'' ph None))"

lemma reconcileHost_refines_host_step_witness:
  "host_step 3 (view silent_env (sample_host ''h1'' Available None))
     (view silent_env (obj (snd (sample_run silent_env Available))))"
  using reconcileHost_refines_host_step [OF silent_cond_laws, where r = NewByotHostReconciler
      and helper = "sample_host ''h1'' Available None" and s = "start (sample_host ''h1'' Available None)",
      OF prod.collapse [symmetric]]
  by (simp add: default_threshold)


lemma reconcileHost_requeues_witness:
  "wants_requeue (requeue_after (claimedRequeue NewByotHostReconciler))"
  by (rule reconcileHost_requeues [OF silent_cond_laws reconcileHost_claimed,
        of "start (sample_host ''h1'' Claimed None)"])
     (simp add: sample_host_def)

lemma reconcileHost_recovers_witness:
  "hPhase (hStatus (obj (snd (sample_run sample_env Releasing)))) = Available
   \<and> hClaimRef (hStatus (obj (snd (sample_run sample_env Releasing)))) = None"
proof -
  have "view sample_env (obj (snd (sample_run sample_env Releasing)))
      = recovered (obj (start (sample_host ''h1'' Releasing None)))"
    by (rule reconcileHost_recovers [OF sample_cond_laws sample_answering _ prod.collapse [symmetric]])
       (simp add: sample_host_def)
  then show ?thesis
    by (simp add: recovered_def sample_host_def fresh_available_def view_def)
qed



definition deletion_env :: "host_claim_ref option \<Rightarrow> env" where
  "deletion_env ref = sample_env\<lparr>k_get_host := \<lambda>h k. Inr ((sample_host ''h1'' Available ref)\<lparr>hMeta :=
     (sample_meta ''h1'' ''host-h1'')\<lparr>oFinalizers := [byotHostFinalizer], oDeletionTimestamp := Some 7\<rparr>\<rparr>)\<rparr>"

lemma hostReconcile_deletion_witness:
  "fst (run_state (hostReconcile NewByotHostReconciler
      (deletion_env (Some \<lparr>crKind = ''ByotMachine'', crName = ''m'', crNamespace = ''default'', crUID = ''u''\<rparr>))
      (''default'', ''h1'')) (start (sample_host ''h1'' Available None)))
   = Inr (requeue_after (probeRequeue NewByotHostReconciler))"
proof -
  let ?env = "deletion_env (Some \<lparr>crKind = ''ByotMachine'', crName = ''m'', crNamespace = ''default'', crUID = ''u''\<rparr>)"
  have laws: "finalizer_laws ?env"
    using sample_finalizer_laws by (simp add: finalizer_laws_def deletion_env_def)
  show ?thesis
    using hostReconcile_deletion [OF laws _ _ prod.collapse [symmetric], of "start (sample_host ''h1'' Available None)"
        "(''default'', ''h1'')" _ NewByotHostReconciler]
    by (simp add: deletion_env_def Let_def sample_host_def)
qed

lemma hostReconcile_never_disrupts_witness:
  "\<exists>es. log (snd (run_state (hostReconcile NewByotHostReconciler (deletion_env None) (''default'', ''h1''))
          (start (sample_host ''h1'' Available None)))) = es \<and> list_all (\<lambda>e. \<not> is_disruptive e) es"
  using hostReconcile_never_disrupts [OF prod.collapse [symmetric],
      of NewByotHostReconciler "deletion_env None" "(''default'', ''h1'')" "start (sample_host ''h1'' Available None)"]
  by simp

end
