(* ===== verification/Claim.thy ===== *)
theory Claim
  imports MachineBase HostMachine "HOL-Library.Sublist"
begin

text \<open>
  Claiming and releasing hosts (\<open>pkg/controller/claim.go\<close>): the choice of a host, the
  compare-and-swap that takes it, the check of an existing claim, and the release with its
  reset. The object of the handlers is the ByotMachine; the hosts are read and written
  through the API server.
\<close>

section \<open>The choice of a host\<close>

definition hostClaimable :: "'z lib_scheme \<Rightarrow> byot_host \<Rightarrow> bool" where
  "hostClaimable L host = l_cond_is_true L (hConditions (hStatus host)) HostMaintenanceProbeCondition"

definition hostMatchesFailureDomain :: "byot_host \<Rightarrow> string option \<Rightarrow> bool" where
  "hostMatchesFailureDomain host want =
     (case want of
        None \<Rightarrow> True
      | Some w \<Rightarrow>
          if w = '''' then True
          else (case hFailureDomain (hSpec host) of
                  None \<Rightarrow> True
                | Some d \<Rightarrow> if d = '''' then True else d = w))"

definition claim_candidate :: "'z lib_scheme \<Rightarrow> byot_machine \<Rightarrow> byot_host \<Rightarrow> bool" where
  "claim_candidate L byotMachine host \<longleftrightarrow>
     hPhase (hStatus host) = Available \<and> hostClaimable L host \<and>
     \<not> claimed_elsewhere (oUID (mMeta byotMachine)) host \<and>
     hostMatchesFailureDomain host (mFailureDomain (mSpec byotMachine))"

fun filter_loop :: "'z lib_scheme \<Rightarrow> byot_machine \<Rightarrow> byot_host list \<Rightarrow> byot_host list \<Rightarrow> byot_host list" where
  "filter_loop L m [] out = out"
| "filter_loop L m (host # hosts) out =
     (if hPhase (hStatus host) \<noteq> Available then filter_loop L m hosts out
      else if \<not> hostClaimable L host then filter_loop L m hosts out
      else if claimed_elsewhere (oUID (mMeta m)) host then filter_loop L m hosts out
      else if \<not> hostMatchesFailureDomain host (mFailureDomain (mSpec m)) then filter_loop L m hosts out
      else filter_loop L m hosts (out @ [host]))"

definition filterClaimCandidates :: "'z lib_scheme \<Rightarrow> byot_host list \<Rightarrow> byot_machine \<Rightarrow> byot_host list" where
  "filterClaimCandidates L hosts byotMachine = filter_loop L byotMachine hosts []"

definition host_name :: "byot_host \<Rightarrow> string" where
  "host_name h = oName (hMeta h)"

definition resolveHostRef :: "env \<Rightarrow> string \<Rightarrow> (byot_machine, byot_host res) act" where
  "resolveHostRef env name =
     do { byotMachine \<leftarrow> get_obj;
          got \<leftarrow> kGetHost env (oNamespace (mMeta byotMachine), name);
          ret (case got of
             Inl err \<Rightarrow>
               (if is_not_found err then Inl ErrNoHostAvailable
                else Inl (errorf (''failed to get ByotHost '' @ name) err))
           | Inr host \<Rightarrow>
               (if hPhase (hStatus host) \<noteq> Available \<or> \<not> hostClaimable env host
                then Inl ErrNoHostAvailable
                else if claimed_elsewhere (oUID (mMeta byotMachine)) host then Inl ErrNoHostAvailable
                else Inr host)) }"

definition selectClaimCandidate :: "env \<Rightarrow> (byot_machine, byot_host res) act" where
  "selectClaimCandidate env =
     do { byotMachine \<leftarrow> get_obj;
          case l_selector_valid env (mHostSelector (mSpec byotMachine)) of
            Some err \<Rightarrow> ret (Inl (errorf ''invalid hostSelector'' err))
          | None \<Rightarrow>
              try_or (kListHosts env (oNamespace (mMeta byotMachine)) (mHostSelector (mSpec byotMachine)))
                (errorf ''failed to list ByotHosts'') (\<lambda>hosts.
                ret (case sort_key host_name (filterClaimCandidates env hosts byotMachine) of
                       [] \<Rightarrow> Inl ErrNoHostAvailable
                     | host # _ \<Rightarrow> Inr host)) }"

definition resolveClaimCandidate :: "env \<Rightarrow> (byot_machine, byot_host res) act" where
  "resolveClaimCandidate env =
     do { byotMachine \<leftarrow> get_obj;
          case mHostRef (mSpec byotMachine) of
            Some name \<Rightarrow> resolveHostRef env name
          | None \<Rightarrow> selectClaimCandidate env }"


section \<open>The claim\<close>

definition claim_ref_of :: "byot_machine \<Rightarrow> host_claim_ref" where
  "claim_ref_of byotMachine =
     \<lparr>crKind = ''ByotMachine'', crName = oName (mMeta byotMachine),
      crNamespace = oNamespace (mMeta byotMachine), crUID = oUID (mMeta byotMachine)\<rparr>"

definition set_claim :: "byot_machine \<Rightarrow> byot_host \<Rightarrow> byot_host" where
  "set_claim byotMachine latest =
     hStatus_update (\<lambda>st. st\<lparr>hClaimRef := Some (claim_ref_of byotMachine), hPhase := Claimed\<rparr>) latest"

definition claimCAS :: "env \<Rightarrow> byot_host \<Rightarrow> (byot_machine, unit res) act" where
  "claimCAS env host =
     do { byotMachine \<leftarrow> get_obj;
          try_or (kGetHost env (key_of (hMeta host))) id (\<lambda>latest.
            if claimed_elsewhere (oUID (mMeta byotMachine)) latest then ret (Inl ErrNoHostAvailable)
            else try_or (kStatusUpdateHost env (set_claim byotMachine latest)) id (\<lambda>latest.
              let added = l_add_finalizer env (oFinalizers (hMeta latest)) byotHostFinalizer;
                  latest = hMeta_update (\<lambda>m. m\<lparr>oFinalizers := fst added\<rparr>) latest
              in if snd added
                 then try_or (kUpdateHost env latest)
                        (errorf (''failed to add finalizer to ByotHost '' @ oName (hMeta latest)))
                        (\<lambda>_. ret (Inr ()))
                 else ret (Inr ()))) }"

definition clearResolvedHost :: "env \<Rightarrow> byot_machine \<Rightarrow> (byot_machine, unit res) act" where
  "clearResolvedHost env helper =
     do { mod_machine (\<lambda>st. st\<lparr>mResolvedHost := '''', mResolvedPublicIP := '''',
                               mResolvedInternalIP := ''''\<rparr>);
          patchMachine env helper [] ''failed to patch ByotMachine after lost claim'' }"

definition verifyExistingClaim :: "env \<Rightarrow> byot_machine \<Rightarrow> (byot_machine, bool res) act" where
  "verifyExistingClaim env helper =
     do { byotMachine \<leftarrow> get_obj;
          let resolved = mResolvedHost (mStatus byotMachine);
          if resolved = '''' then ret (Inr False)
          else do {
            got \<leftarrow> kGetHost env (oNamespace (mMeta byotMachine), resolved);
            case got of
              Inl err \<Rightarrow>
                (if is_not_found err
                 then try_or (clearResolvedHost env helper) id (\<lambda>_. ret (Inr False))
                 else ret (Inl (errorf (''failed to get ByotHost '' @ resolved) err)))
            | Inr host \<Rightarrow>
                (if \<not> claimed_by (oUID (mMeta byotMachine)) host
                 then try_or (clearResolvedHost env helper) id (\<lambda>_. ret (Inr False))
                 else if mResolvedPublicIP (mStatus byotMachine) \<noteq> hPublicIP (hSpec host)
                 then do { mod_machine (\<lambda>st. st\<lparr>mResolvedPublicIP := hPublicIP (hSpec host)\<rparr>);
                           try_or (patchMachine env helper [] ''failed to patch ByotMachine resolved IP'')
                             id (\<lambda>_. ret (Inr True)) }
                 else ret (Inr True)) } }"

text \<open>The result is paired with \<open>handled\<close>: the caller returns instead of going on to adopt.\<close>

definition takeCandidate ::
  "env \<Rightarrow> byot_machine \<Rightarrow> byot_host \<Rightarrow> (byot_machine, (ctrl_result \<times> bool) res) act" where
  "takeCandidate env helper host =
     do { claimed \<leftarrow> claimCAS env host;
          case claimed of
            Inl err \<Rightarrow>
              (if is_conflict err then ret (Inr (requeue_now, True))
               else ret (Inl (errorf (''failed to claim ByotHost '' @ oName (hMeta host)) err)))
          | Inr _ \<Rightarrow>
              do { mod_machine (\<lambda>st. st\<lparr>mResolvedHost := oName (hMeta host),
                     mResolvedPublicIP := hPublicIP (hSpec host),
                     mResolvedInternalIP := hostInternalIP host\<rparr>);
                   try_or (patchMachine env helper [] ''failed to patch ByotMachine after claim'')
                     id (\<lambda>_. ret (Inr (no_result, False))) } }"

definition searchAndClaim ::
  "byot_machine_reconciler \<Rightarrow> env \<Rightarrow> byot_machine \<Rightarrow> (byot_machine, (ctrl_result \<times> bool) res) act" where
  "searchAndClaim r env helper =
     do { resolved \<leftarrow> resolveClaimCandidate env;
          case resolved of
            Inl err \<Rightarrow>
              (if errors_is err ErrNoHostAvailable
               then ret (Inr (requeue_after (requeueAfterBootstrap r), True))
               else ret (Inl err))
          | Inr host \<Rightarrow> takeCandidate env helper host }"

definition claimHost ::
  "byot_machine_reconciler \<Rightarrow> env \<Rightarrow> byot_machine \<Rightarrow> (byot_machine, (ctrl_result \<times> bool) res) act" where
  "claimHost r env helper =
     try_or (verifyExistingClaim env helper) id (\<lambda>kept.
       if kept then ret (Inr (no_result, False)) else searchAndClaim r env helper)"


section \<open>The release\<close>

definition release_to :: "host_phase \<Rightarrow> byot_host \<Rightarrow> byot_host" where
  "release_to phase host = hStatus_update (\<lambda>st. st\<lparr>hPhase := phase, hClaimRef := None\<rparr>) host"

definition update_released :: "env \<Rightarrow> byot_host \<Rightarrow> (byot_machine, unit res) act" where
  "update_released env host =
     try_or (kStatusUpdateHost env host)
       (errorf (''failed to update ByotHost '' @ oName (hMeta host) @ '' status on release''))
       (\<lambda>_. ret (Inr ()))"

definition releaseHost :: "env \<Rightarrow> (byot_machine, unit res) act" where
  "releaseHost env =
     do { byotMachine \<leftarrow> get_obj;
          let resolved = mResolvedHost (mStatus byotMachine);
          if resolved = '''' then ret (Inr ())
          else do {
            got \<leftarrow> kGetHost env (oNamespace (mMeta byotMachine), resolved);
            case got of
              Inl err \<Rightarrow>
                (if is_not_found err then ret (Inr ())
                 else ret (Inl (errorf (''failed to get ByotHost '' @ resolved) err)))
            | Inr host \<Rightarrow>
                do { live \<leftarrow> probeMaintenance env (hostEndpoints host);
                     if live then update_released env (release_to Available host)
                     else try_or (resetCredentialCandidates env) id (\<lambda>candidates.
                       try_or (attemptReset env candidates (machineEndpoints byotMachine))
                         (errorf (''failed to reset host '' @ oName (hMeta host) @ '' ('' @
                            endpoints_text (machineEndpoints byotMachine) @ '')''))
                         (\<lambda>_. update_released env (release_to Releasing host))) } } }"

section \<open>What the choice guarantees\<close>

lemma filter_loop_eq: "filter_loop L m hosts out = out @ filter (claim_candidate L m) hosts"
  by (induction hosts arbitrary: out) (auto simp: claim_candidate_def)

lemma filterClaimCandidates_eq: "filterClaimCandidates L hosts m = filter (claim_candidate L m) hosts"
  by (simp add: filterClaimCandidates_def filter_loop_eq)

lemma sort_key_hd_le: "sort_key f xs = y # ys \<Longrightarrow> x \<in> set xs \<Longrightarrow> f y \<le> f x"
proof -
  assume eq: "sort_key f xs = y # ys" and x: "x \<in> set xs"
  have "sorted (map f (y # ys))" by (metis eq sorted_sort_key)
  moreover have "x \<in> set (y # ys)" by (metis eq set_sort x)
  ultimately show "f y \<le> f x" by auto
qed

text \<open>C25. Selection: with a valid selector and a successful list, the choice is an Available host
  whose last probe confirmed maintenance mode, not held by another machine, in the machine's
  failure domain, and first by name among all such hosts of the list; the wait error is
  returned exactly when there is none.\<close>

theorem selectClaimCandidate_least:
  assumes "l_selector_valid env (mHostSelector (mSpec (obj s))) = None"
    and "k_list_hosts env (log s) (oNamespace (mMeta (obj s))) (mHostSelector (mSpec (obj s))) = Inr hosts"
  shows "case fst (run_state (selectClaimCandidate env) s) of
      Inr h \<Rightarrow> h \<in> set hosts \<and> claim_candidate env (obj s) h \<and>
        (\<forall>h' \<in> set hosts. claim_candidate env (obj s) h' \<longrightarrow> host_name h \<le> host_name h')
    | Inl e \<Rightarrow> e = ErrNoHostAvailable \<and> (\<forall>h \<in> set hosts. \<not> claim_candidate env (obj s) h)"
proof -
  let ?cs = "filter (claim_candidate env (obj s)) hosts"
  have run: "fst (run_state (selectClaimCandidate env) s) =
      (case sort_key host_name ?cs of [] \<Rightarrow> Inl ErrNoHostAvailable | h # _ \<Rightarrow> Inr h)"
    using assms by (simp add: selectClaimCandidate_def get_obj_def try_or_def ask_def ret_def
        filterClaimCandidates_eq Let_def)
  show ?thesis
  proof (cases "sort_key host_name ?cs")
    case Nil
    then have "?cs = []" by (metis length_0_conv length_sort)
    with Nil show ?thesis by (simp add: run filter_empty_conv)
  next
    case (Cons h rest)
    then have "h \<in> set ?cs" by (metis list.set_intros(1) set_sort)
    moreover have "\<forall>h' \<in> set ?cs. host_name h \<le> host_name h'"
      using sort_key_hd_le [OF Cons] by blast
    ultimately show ?thesis by (simp add: run Cons)
  qed
qed


section \<open>The compare-and-swap\<close>

definition cas_evidence :: "byot_machine \<Rightarrow> object_key \<Rightarrow> byot_host \<Rightarrow> byot_host res \<Rightarrow> event list \<Rightarrow> bool" where
  "cas_evidence m k x r es \<longleftrightarrow> (\<exists>latest rest.
     es = Kube (EvGetHost k (Inr latest)) # Kube (EvStatusUpdateHost x r) # rest \<and>
     x = set_claim m latest \<and> \<not> claimed_elsewhere (oUID (mMeta m)) latest)"

lemma claimCAS_wp:
  "wp (claimCAS env host) (\<lambda>a s'. obj s' = obj s \<and> (\<exists>es. log s' = log s @ es \<and>
     (\<forall>x r. Kube (EvStatusUpdateHost x r) \<in> set es \<longrightarrow>
        cas_evidence (obj s) (key_of (hMeta host)) x r es) \<and>
     (a = Inr () \<longrightarrow> (\<exists>x y. Kube (EvStatusUpdateHost x (Inr y)) \<in> set es)))) s"
  unfolding claimCAS_def Let_def
  by (auto simp: wp_simps cas_evidence_def split: sum.split)

text \<open>C24. The claim is taken with a compare-and-swap: the one status write is the host as read in
  the call just before (so with its resource version), with the claim of this machine and
  phase Claimed, and is only attempted when that read shows no claim of another machine;
  success is reported only after the write was accepted. The machine object is not touched.\<close>

theorem claimCAS_never_steals:
  assumes "run_state (claimCAS env host) s = (a, s')"
  shows "obj s' = obj s \<and> (\<exists>es. log s' = log s @ es \<and>
      (\<forall>x r. Kube (EvStatusUpdateHost x r) \<in> set es \<longrightarrow>
         cas_evidence (obj s) (key_of (hMeta host)) x r es) \<and>
      (a = Inr () \<longrightarrow> (\<exists>x y. Kube (EvStatusUpdateHost x (Inr y)) \<in> set es)))"
  using wp_run [OF claimCAS_wp assms] by blast

section \<open>The claim as a whole\<close>

definition host_read :: "byot_host \<Rightarrow> event list \<Rightarrow> bool" where
  "host_read h es \<longleftrightarrow> (\<exists>k. Kube (EvGetHost k (Inr h)) \<in> set es) \<or>
     (\<exists>ns sel hs. Kube (EvListHosts ns sel (Inr hs)) \<in> set es \<and> h \<in> set hs)"

definition claim_evidence :: "byot_machine \<Rightarrow> string \<Rightarrow> string \<Rightarrow> event list \<Rightarrow> bool" where
  \<comment> \<open>the calls of a reconcile show that the machine holds the host named \<open>n\<close> at the public address \<open>ip\<close>\<close>
  "claim_evidence m n ip es \<longleftrightarrow> (\<exists>h. host_read h es \<and> ip = hPublicIP (hSpec h) \<and>
     (Kube (EvGetHost (oNamespace (mMeta m), n) (Inr h)) \<in> set es \<and> claimed_by (oUID (mMeta m)) h \<or>
      n = oName (hMeta h) \<and> (\<exists>latest y. Kube (EvGetHost (key_of (hMeta h)) (Inr latest)) \<in> set es \<and>
        \<not> claimed_elsewhere (oUID (mMeta m)) latest \<and>
        Kube (EvStatusUpdateHost (set_claim m latest) (Inr y)) \<in> set es)))"

lemma host_read_mono: "host_read h es \<Longrightarrow> set es \<subseteq> set es' \<Longrightarrow> host_read h es'"
  unfolding host_read_def by blast

lemma claim_evidence_mono: "claim_evidence m n ip es \<Longrightarrow> set es \<subseteq> set es' \<Longrightarrow> claim_evidence m n ip es'"
  unfolding claim_evidence_def using host_read_mono by blast

lemma clearResolvedHost_wp:
  "wp (clearResolvedHost env helper) (\<lambda>a s'. mMeta (obj s') = mMeta (obj s) \<and>
      mSpec (obj s') = mSpec (obj s) \<and> mResolvedHost (mStatus (obj s')) = '''' \<and>
      (\<exists>e. log s' = log s @ [Kube (EvPatchMachine helper (obj s') [] e)])) s"
  by (simp add: clearResolvedHost_def patchMachine_def wp_simps split: option.split)

lemma verifyExistingClaim_wp:
  "wp (verifyExistingClaim env helper) (\<lambda>a s'. \<exists>es. log s' = log s @ es \<and>
      mMeta (obj s') = mMeta (obj s) \<and> mSpec (obj s') = mSpec (obj s) \<and>
      (a = Inr True \<longrightarrow> (\<exists>h. Kube (EvGetHost (oNamespace (mMeta (obj s)), mResolvedHost (mStatus (obj s)))
            (Inr h)) \<in> set es \<and> claimed_by (oUID (mMeta (obj s))) h \<and>
          mResolvedHost (mStatus (obj s')) = mResolvedHost (mStatus (obj s)) \<and>
          mResolvedHost (mStatus (obj s')) \<noteq> '''' \<and>
          mResolvedPublicIP (mStatus (obj s')) = hPublicIP (hSpec h))) \<and>
      (a = Inr False \<longrightarrow> mResolvedHost (mStatus (obj s')) = '''')) s"
  unfolding verifyExistingClaim_def clearResolvedHost_def patchMachine_def Let_def
  by (simp add: wp_simps split: sum.split option.split)

lemma keeps_resolve [keeps_intros]: "keeps (resolveClaimCandidate env)"
  unfolding resolveClaimCandidate_def resolveHostRef_def selectClaimCandidate_def
  by (intro keeps_intros)

definition reads_host :: "event \<Rightarrow> bool" where
  "reads_host e = (case e of Kube (EvGetHost _ _) \<Rightarrow> True | Kube (EvListHosts _ _ _) \<Rightarrow> True | _ \<Rightarrow> False)"

lemma emits_resolve [emits_intros]: "emits reads_host (resolveClaimCandidate env)"
  unfolding resolveClaimCandidate_def resolveHostRef_def selectClaimCandidate_def
  by (intro emits_intros; simp add: reads_host_def)

lemma resolve_read:
  "wp (resolveClaimCandidate env) (\<lambda>a s'. \<forall>h. a = Inr h \<longrightarrow> (\<exists>es. log s' = log s @ es \<and> host_read h es)) s"
proof -
  have pick: "h \<in> set hosts" if "sort_key host_name (filterClaimCandidates env hosts m) = h # hs" for hosts m h hs
  proof -
    from that have "h \<in> set (sort_key host_name (filterClaimCandidates env hosts m))" by simp
    then show ?thesis by (simp add: filterClaimCandidates_eq)
  qed
  show ?thesis
    unfolding resolveClaimCandidate_def resolveHostRef_def selectClaimCandidate_def
    by (auto simp: wp_simps host_read_def dest!: pick split: sum.split option.split list.splits if_splits)
qed

lemma claim_evidence_cong: "mMeta m = mMeta m' \<Longrightarrow> claim_evidence m n ip es = claim_evidence m' n ip es"
  unfolding claim_evidence_def by (simp add: set_claim_def claim_ref_of_def)

definition claimed_post ::
  "(byot_machine, event) gst \<Rightarrow> (ctrl_result \<times> bool) res \<Rightarrow> (byot_machine, event) gst \<Rightarrow> bool" where
  "claimed_post s a s' \<longleftrightarrow> (\<exists>es. log s' = log s @ es \<and>
     mMeta (obj s') = mMeta (obj s) \<and> mSpec (obj s') = mSpec (obj s) \<and>
     (\<forall>res. a = Inr (res, False) \<longrightarrow>
        claim_evidence (obj s) (mResolvedHost (mStatus (obj s'))) (mResolvedPublicIP (mStatus (obj s'))) es))"

lemma claimed_post_trans:
  assumes "claimed_post t a s'" and "log t = log s @ es" "mMeta (obj t) = mMeta (obj s)"
    "mSpec (obj t) = mSpec (obj s)"
  shows "claimed_post s a s'"
proof -
  from assms(1) obtain es' where es': "log s' = log t @ es'"
    "mMeta (obj s') = mMeta (obj t)" "mSpec (obj s') = mSpec (obj t)"
    "\<forall>res. a = Inr (res, False) \<longrightarrow>
       claim_evidence (obj t) (mResolvedHost (mStatus (obj s'))) (mResolvedPublicIP (mStatus (obj s'))) es'"
    by (auto simp: claimed_post_def)
  have "claim_evidence (obj s) n ip (es @ es')" if "claim_evidence (obj t) n ip es'" for n ip
    using that claim_evidence_cong [OF assms(3)] claim_evidence_mono [of "obj s" n ip es' "es @ es'"] by simp
  with es' assms(2-4) show ?thesis unfolding claimed_post_def by (intro exI [of _ "es @ es'"]) auto
qed

lemma takeCandidate_wp:
  assumes "log s = log s\<^sub>0 @ es\<^sub>0" and "host_read host es\<^sub>0" and "obj s = obj s\<^sub>0"
  shows "wp (takeCandidate env helper host) (claimed_post s\<^sub>0) s"
proof -
  have "wp (claimCAS env host) (\<lambda>a s'. obj s' = obj s\<^sub>0 \<and> (\<exists>es. log s' = log s\<^sub>0 @ es \<and>
     (a = Inr () \<longrightarrow> claim_evidence (obj s\<^sub>0) (oName (hMeta host)) (hPublicIP (hSpec host)) es))) s"
  proof (rule wp_mono [OF claimCAS_wp], elim conjE exE)
    fix a :: "unit res" and t :: "(byot_machine, event) gst" and es
    assume t: "obj t = obj s" "log t = log s @ es"
      and cas: "\<forall>x r. Kube (EvStatusUpdateHost x r) \<in> set es \<longrightarrow> cas_evidence (obj s) (key_of (hMeta host)) x r es"
      and ok: "a = Inr () \<longrightarrow> (\<exists>x y. Kube (EvStatusUpdateHost x (Inr y)) \<in> set es)"
    have "claim_evidence (obj s\<^sub>0) (oName (hMeta host)) (hPublicIP (hSpec host)) (es\<^sub>0 @ es)" if success: "a = Inr ()"
    proof -
      from ok success obtain x y where "Kube (EvStatusUpdateHost x (Inr y)) \<in> set es" by blast
      with cas have "cas_evidence (obj s\<^sub>0) (key_of (hMeta host)) x (Inr y) es" unfolding assms(3) by blast
      moreover have "host_read host (es\<^sub>0 @ es)" using assms(2) by (rule host_read_mono) auto
      ultimately show ?thesis unfolding claim_evidence_def cas_evidence_def by fastforce
    qed
    with t assms show "obj t = obj s\<^sub>0 \<and> (\<exists>es. log t = log s\<^sub>0 @ es \<and>
       (a = Inr () \<longrightarrow> claim_evidence (obj s\<^sub>0) (oName (hMeta host)) (hPublicIP (hSpec host)) es))" by auto
  qed
  moreover have grow: "claim_evidence m n ip (es @ [e])" if "claim_evidence m n ip es" for m n ip es e
    using that by (rule claim_evidence_mono) auto
  ultimately show ?thesis
    unfolding takeCandidate_def wp_bind
    by (elim wp_mono) (auto simp: wp_simps patchMachine_def claimed_post_def grow split: sum.split option.split)
qed

lemma searchAndClaim_wp: "wp (searchAndClaim r env helper) (claimed_post s) s"
  unfolding searchAndClaim_def
proof (rule wp_bindI, rule wp_conj [OF keeps_wp [OF keeps_resolve] wp_conj [OF emits_wp [OF emits_resolve] resolve_read]],
    elim conjE exE, rule wp_case_sumI)
  fix a :: "byot_host res" and t :: "(byot_machine, event) gst" and es err
  assume "obj t = obj s" "log t = log s @ es"
  then show "wp (if errors_is err ErrNoHostAvailable then ret (Inr (requeue_after (requeueAfterBootstrap r), True))
      else ret (Inl err)) (claimed_post s) t"
    by (simp add: wp_simps claimed_post_def)
next
  fix a and t :: "(byot_machine, event) gst" and es host
  assume "obj t = obj s" "a = Inr host" "\<forall>h. a = Inr h \<longrightarrow> (\<exists>es. log t = log s @ es \<and> host_read h es)"
  then show "wp (takeCandidate env helper host) (claimed_post s) t"
    using takeCandidate_wp by blast
qed

lemma claim_evidence_kept:
  "Kube (EvGetHost (oNamespace (mMeta m), n) (Inr h)) \<in> set es \<Longrightarrow> claimed_by (oUID (mMeta m)) h \<Longrightarrow>
     ip = hPublicIP (hSpec h) \<Longrightarrow> claim_evidence m n ip es"
  unfolding claim_evidence_def host_read_def by blast

lemma claimHost_wp: "wp (claimHost r env helper) (claimed_post s) s"
  unfolding claimHost_def wp_try_or
proof (rule wp_mono [OF verifyExistingClaim_wp], elim exE conjE)
  fix a :: "bool res" and es and t :: "(byot_machine, event) gst"
  assume t: "log t = log s @ es" "mMeta (obj t) = mMeta (obj s)" "mSpec (obj t) = mSpec (obj s)"
  have "wp (searchAndClaim r env helper) (claimed_post s) t"
    by (rule wp_mono [OF searchAndClaim_wp]) (rule claimed_post_trans [OF _ t])
  moreover assume "a = Inr True \<longrightarrow> (\<exists>h. Kube (EvGetHost (oNamespace (mMeta (obj s)),
      mResolvedHost (mStatus (obj s))) (Inr h)) \<in> set es \<and> claimed_by (oUID (mMeta (obj s))) h \<and>
      mResolvedHost (mStatus (obj t)) = mResolvedHost (mStatus (obj s)) \<and>
      mResolvedHost (mStatus (obj t)) \<noteq> [] \<and> mResolvedPublicIP (mStatus (obj t)) = hPublicIP (hSpec h))"
  ultimately show "(case a of Inl e \<Rightarrow> claimed_post s (Inl (id e))
    | Inr kept \<Rightarrow> wp (if kept then ret (Inr (no_result, False)) else searchAndClaim r env helper)
        (claimed_post s)) t"
    using t by (cases a) (auto simp: wp_simps claimed_post_def intro: claim_evidence_kept)
qed

text \<open>C18. Adoption goes on only with a claim in hand: when \<open>claimHost\<close> lets the caller proceed, the
  calls it made show that the host recorded in the status is held by this machine, either by
  reading it with the machine's UID in its claim, or by an accepted compare-and-swap from a
  read that showed no other holder, and the public address in the status is that of the host as
  read in this run. Metadata and spec of the machine are not changed.\<close>

theorem claimHost_proceeds_with_claim:
  assumes "run_state (claimHost r env helper) s = (Inr (res, False), s')"
  shows "\<exists>es. log s' = log s @ es \<and> mMeta (obj s') = mMeta (obj s) \<and> mSpec (obj s') = mSpec (obj s) \<and>
           claim_evidence (obj s) (mResolvedHost (mStatus (obj s'))) (mResolvedPublicIP (mStatus (obj s'))) es"
  using wp_run [OF claimHost_wp assms] by (auto simp: claimed_post_def)

section \<open>The release\<close>

lemma probeMaintenance_wp:
  "wp (probeMaintenance env eps) (\<lambda>b s'. obj s' = obj s \<and> (\<exists>es. log s' = log s @ es \<and> list_all harmless es \<and>
     (b \<longrightarrow> (\<exists>v. Talos (EvVersion \<lparr>tcTalosConfig = None, tcEndpoints = eps\<rparr> (Inr v)) \<in> set es)))) s"
  by (auto simp: probeMaintenance_def version_ok_def maintenanceClient_def dial_def wp_simps
      split: option.split sum.split)

lemma clientFor_wp:
  "wp (clientFor env eps tc) (\<lambda>a s'. obj s' = obj s \<and> (\<exists>es. log s' = log s @ es \<and> list_all harmless es \<and>
      (\<forall>c. a = Inr c \<longrightarrow> c = \<lparr>tcTalosConfig = tc, tcEndpoints = eps\<rparr>))) s"
  by (auto simp: clientFor_def maintenanceClient_def authenticatedClient_def dial_def wp_simps
      split: option.split)

lemma resetMachine_wp:
  "wp (resetMachine env eps tc) (\<lambda>a s'. obj s' = obj s \<and> (\<exists>es. log s' = log s @ es \<and> list_all talos_only es \<and>
      (a = Inr () \<longleftrightarrow> Talos (EvReset \<lparr>tcTalosConfig = tc, tcEndpoints = eps\<rparr> None) \<in> set es) \<and>
      (\<forall>c e. Talos (EvReset c e) \<in> set es \<longrightarrow> c = \<lparr>tcTalosConfig = tc, tcEndpoints = eps\<rparr>))) s"
  by (auto simp: resetMachine_def clientFor_def maintenanceClient_def authenticatedClient_def
      dial_def wp_simps split: option.split)

text \<open>The credentials are tried in order up to the first that works.\<close>

definition reset_tried :: "bytes option list \<Rightarrow> endpoints \<Rightarrow> unit res \<Rightarrow> event list \<Rightarrow> bool" where
  "reset_tried cands eps a es \<longleftrightarrow> list_all talos_only es \<and>
     (a = Inr () \<longleftrightarrow> (\<exists>c \<in> set cands. Talos (EvReset \<lparr>tcTalosConfig = c, tcEndpoints = eps\<rparr> None) \<in> set es)) \<and>
     (\<forall>c e. Talos (EvReset c e) \<in> set es \<longrightarrow>
        (\<exists>cand \<in> set cands. c = \<lparr>tcTalosConfig = cand, tcEndpoints = eps\<rparr>))"

lemma attemptReset_loop_wp:
  fixes s :: "('o, event) gst"
  shows "wp (attemptReset_loop env cands eps lastErr)
     (\<lambda>a s'. obj s' = obj s \<and> (\<exists>es. log s' = log s @ es \<and> reset_tried cands eps a es)) s"
proof (induction cands arbitrary: lastErr s)
  case Nil
  then show ?case by (simp add: wp_simps reset_tried_def)
next
  case (Cons c cands)
  show ?case
    unfolding attemptReset_loop.simps wp_bind
  proof (rule wp_mono [OF resetMachine_wp], elim conjE exE)
    fix a :: "unit res" and t :: "('o, event) gst" and es
    assume t: "obj t = obj s" "log t = log s @ es"
      and es: "list_all talos_only es"
        "a = Inr () \<longleftrightarrow> Talos (EvReset \<lparr>tcTalosConfig = c, tcEndpoints = eps\<rparr> None) \<in> set es"
        "\<forall>c' e. Talos (EvReset c' e) \<in> set es \<longrightarrow> c' = \<lparr>tcTalosConfig = c, tcEndpoints = eps\<rparr>"
    show "wp (case a of Inr _ \<Rightarrow> ret (Inr ()) | Inl e \<Rightarrow> attemptReset_loop env cands eps (Some e))
       (\<lambda>a s'. obj s' = obj s \<and> (\<exists>es. log s' = log s @ es \<and> reset_tried (c # cands) eps a es)) t"
    proof (cases a)
      case (Inl e)
      have "reset_tried (c # cands) eps b (es @ es')" if "reset_tried cands eps b es'" for b es'
        using that es Inl unfolding reset_tried_def by auto
      with Inl t show ?thesis by (auto intro!: wp_mono [OF Cons.IH])
    next
      case (Inr u)
      with t es show ?thesis by (auto simp: wp_simps reset_tried_def)
    qed
  qed
qed

lemma attemptReset_wp:
  "wp (attemptReset env cands eps)
     (\<lambda>a s'. obj s' = obj s \<and> (\<exists>es. log s' = log s @ es \<and> reset_tried cands eps a es)) s"
  unfolding attemptReset_def by (rule attemptReset_loop_wp)

definition reads_secret :: "event \<Rightarrow> bool" where
  "reads_secret e = (case e of Kube (EvGetSecret _ _) \<Rightarrow> True | _ \<Rightarrow> False)"

lemma emits_resetCredentialCandidates:
  "emits reads_secret (resetCredentialCandidates env)"
  by (rule emits_talosconfig) (simp add: reads_secret_def)

definition configs_up_to :: "nat \<Rightarrow> bytes option list res \<Rightarrow> bool" where
  "configs_up_to n a \<longleftrightarrow>
     (\<forall>ds. a = Inr ds \<longrightarrow> (\<exists>cfgs. ds = map Some cfgs \<and> [] \<notin> set cfgs \<and> length cfgs \<le> n))"

lemma configs_up_to_append:
  "configs_up_to n (Inr cs) \<Longrightarrow> d \<noteq> [] \<Longrightarrow> configs_up_to (Suc n) (Inr (cs @ [Some d]))"
  unfolding configs_up_to_def by (clarsimp, rule_tac x = "cfgs @ [d]" in exI) auto

lemma configs_up_to_Suc: "configs_up_to n a \<Longrightarrow> configs_up_to (Suc n) a"
  unfolding configs_up_to_def by fastforce

lemma referencedTalosConfig_nonempty:
  "wp (referencedTalosConfig env n ns) (\<lambda>a _. \<forall>d. a = Inr d \<longrightarrow> d \<noteq> []) t"
  by (auto simp: referencedTalosConfig_def wp_simps split: sum.split option.split)

lemma add_candidate_wp:
  assumes "configs_up_to n (Inr cs)"
  shows "wp (add_candidate (referencedTalosConfig env name ns) what cs) (\<lambda>a _. configs_up_to (Suc n) a) t"
  unfolding add_candidate_def wp_bind
  by (rule wp_mono [OF referencedTalosConfig_nonempty])
     (use assms in \<open>auto simp: wp_simps configs_up_to_append intro: configs_up_to_Suc split: sum.split,
        simp add: configs_up_to_def\<close>)

text \<open>The credentials of a reset, in order: the referenced talosconfig and the cluster's, as
  far as their secrets are ready, and last the insecure maintenance client, which is always
  there.\<close>

theorem resetCredentialCandidates_order:
  assumes "run_state (resetCredentialCandidates env) s = (Inr cands, s')"
  shows "\<exists>cfgs. cands = map Some cfgs @ [None] \<and> [] \<notin> set cfgs \<and> length cfgs \<le> 2"
proof -
  have nil: "configs_up_to 0 (Inr [])" by (simp add: configs_up_to_def)
  have "wp (resetCredentialCandidates env) (\<lambda>a _. \<forall>cands. a = Inr cands \<longrightarrow>
      (\<exists>cfgs. cands = map Some cfgs @ [None] \<and> [] \<notin> set cfgs \<and> length cfgs \<le> 2)) s"
    unfolding resetCredentialCandidates_def Let_def clusterTalosConfig_def
  proof (rule wp_get_objI, rule wp_try_orI [where R = "\<lambda>a _. configs_up_to 1 a"])
    show "wp (case mTalosConfigSecretRef (mSpec (obj s)) of None \<Rightarrow> ret (Inr [])
      | Some name \<Rightarrow> add_candidate (referencedTalosConfig env name (oNamespace (mMeta (obj s))))
          ''failed to load referenced talosconfig'' []) (\<lambda>a _. configs_up_to 1 a) s"
      using add_candidate_wp [OF nil] configs_up_to_Suc [OF nil] by (simp add: wp_simps split: option.split)
  next
    fix ds :: "bytes option list" and t :: "(byot_machine, event) gst" and c n ns what
    assume a: "configs_up_to 1 (Inr ds)"
    show "wp (try_or (if c \<noteq> [] then add_candidate (referencedTalosConfig env n ns) what ds
         else ret (Inr ds)) id (\<lambda>candidates. ret (Inr (candidates @ [None]))))
       (\<lambda>a _. \<forall>cands. a = Inr cands \<longrightarrow>
          (\<exists>cfgs. cands = map Some cfgs @ [None] \<and> [] \<notin> set cfgs \<and> length cfgs \<le> 2)) t"
    proof (rule wp_try_orI [where R = "\<lambda>a _. configs_up_to 2 a"])
      show "wp (if c \<noteq> [] then add_candidate (referencedTalosConfig env n ns) what ds else ret (Inr ds))
        (\<lambda>a _. configs_up_to 2 a) t"
        using add_candidate_wp [OF a] configs_up_to_Suc [OF a] by (simp add: wp_simps numeral_2_eq_2)
    qed (simp_all add: wp_simps configs_up_to_def)
  qed simp
  from wp_run [OF this assms] show ?thesis by blast
qed

definition maintenance_answered :: "endpoints \<Rightarrow> event list \<Rightarrow> bool" where
  "maintenance_answered eps es \<longleftrightarrow>
     (\<exists>v. Talos (EvVersion \<lparr>tcTalosConfig = None, tcEndpoints = eps\<rparr> (Inr v)) \<in> set es)"

definition reset_accepted :: "endpoints \<Rightarrow> event list \<Rightarrow> bool" where
  "reset_accepted eps es \<longleftrightarrow>
     (\<exists>c. Talos (EvReset \<lparr>tcTalosConfig = c, tcEndpoints = eps\<rparr> None) \<in> set es)"

definition released_by :: "byot_machine \<Rightarrow> byot_host \<Rightarrow> byot_host \<Rightarrow> event list \<Rightarrow> bool" where
  \<comment> \<open>the calls \<open>pre\<close> justify writing \<open>host\<close> back as \<open>x\<close>\<close>
  "released_by m host x pre \<longleftrightarrow>
     (x = release_to Available host \<and> maintenance_answered (hostEndpoints host) pre \<and>
        (\<forall>e \<in> set pre. \<not> is_reset e)) \<or>
     (x = release_to Releasing host \<and> reset_accepted (machineEndpoints m) pre)"

definition release_post ::
  "(byot_machine, event) gst \<Rightarrow> unit res \<Rightarrow> (byot_machine, event) gst \<Rightarrow> bool" where
  "release_post s a s' \<longleftrightarrow> obj s' = obj s \<and>
     (let k = (oNamespace (mMeta (obj s)), mResolvedHost (mStatus (obj s))) in
      (\<exists>es. log s' = log s @ es \<and> (\<forall>x r. Kube (EvStatusUpdateHost x r) \<notin> set es) \<and>
         (a = Inr () \<longrightarrow> mResolvedHost (mStatus (obj s)) = '''' \<or>
            (\<exists>err. Kube (EvGetHost k (Inl err)) \<in> set es \<and> is_not_found err))) \<or>
      (\<exists>host pre x r. log s' = log s @ Kube (EvGetHost k (Inr host)) # pre @ [Kube (EvStatusUpdateHost x r)] \<and>
         (\<forall>x r. Kube (EvStatusUpdateHost x r) \<notin> set pre) \<and>
         released_by (obj s) host x pre \<and> (a = Inr () \<longleftrightarrow> (\<exists>y. r = Inr y))))"

lemma update_released_wp:
  "wp (update_released env x) (\<lambda>a s'. obj s' = obj s \<and>
     (\<exists>r. log s' = log s @ [Kube (EvStatusUpdateHost x r)] \<and> (a = Inr () \<longleftrightarrow> (\<exists>y. r = Inr y)))) s"
  by (simp add: update_released_def wp_simps split: sum.split)

lemma harmless_no_reset: "list_all harmless es \<Longrightarrow> e \<in> set es \<Longrightarrow> \<not> is_reset e"
  by (auto simp: list_all_iff harmless_def is_disruptive_def)

lemma harmless_no_update: "list_all harmless es \<Longrightarrow> Kube k \<notin> set es"
  by (auto simp: list_all_iff)

lemma talos_only_no_update: "list_all talos_only es \<Longrightarrow> Kube k \<notin> set es"
  by (auto simp: list_all_iff)

lemma reads_secret_no_update: "list_all reads_secret es \<Longrightarrow> Kube (EvStatusUpdateHost x r) \<notin> set es"
  by (auto simp: list_all_iff reads_secret_def)

lemma reset_branch_wp:
  assumes "obj t = obj s"
    and "log t = log s @ Kube (EvGetHost (oNamespace (mMeta (obj s)), mResolvedHost (mStatus (obj s))) (Inr host)) # es"
    and "list_all harmless es"
  shows "wp (try_or (resetCredentialCandidates env) id (\<lambda>candidates.
       try_or (attemptReset env candidates (machineEndpoints (obj s))) wrap
         (\<lambda>_. update_released env (release_to Releasing host)))) (release_post s) t"
proof (rule wp_try_orI [where R = "\<lambda>a u. \<exists>es'. u = t\<lparr>log := log t @ es'\<rparr> \<and> list_all reads_secret es'"])
  show "wp (resetCredentialCandidates env)
     (\<lambda>a u. \<exists>es'. u = t\<lparr>log := log t @ es'\<rparr> \<and> list_all reads_secret es') t"
    by (rule wp_opaque [OF emits_resetCredentialCandidates keeps_resetCredentialCandidates]) blast
next
  fix e u assume "\<exists>es'. u = t\<lparr>log := log t @ es'\<rparr> \<and> list_all reads_secret es'"
  then show "release_post s (Inl (id e)) u"
    using assms harmless_no_update reads_secret_no_update unfolding release_post_def Let_def by fastforce
next
  fix cands u assume "\<exists>es'. u = t\<lparr>log := log t @ es'\<rparr> \<and> list_all reads_secret es'"
  then obtain es' where u: "u = t\<lparr>log := log t @ es'\<rparr>" and sec: "list_all reads_secret es'" by blast
  show "wp (try_or (attemptReset env cands (machineEndpoints (obj s))) wrap
         (\<lambda>_. update_released env (release_to Releasing host))) (release_post s) u"
  proof (rule wp_try_orI [OF attemptReset_wp]; elim conjE exE)
    fix err es2 and v :: "(byot_machine, event) gst"
    assume "obj v = obj u" "log v = log u @ es2" "reset_tried cands (machineEndpoints (obj s)) (Inl err) es2"
    then show "release_post s (Inl (wrap err)) v"
      using assms u sec harmless_no_update reads_secret_no_update talos_only_no_update
      unfolding release_post_def Let_def reset_tried_def by fastforce
  next
    fix x es2 and v :: "(byot_machine, event) gst"
    assume v: "obj v = obj u" "log v = log u @ es2"
      and tried: "reset_tried cands (machineEndpoints (obj s)) (Inr x) es2"
    show "wp (update_released env (release_to Releasing host)) (release_post s) v"
    proof (rule wp_mono [OF update_released_wp], elim conjE exE)
      fix a :: "unit res" and r and w :: "(byot_machine, event) gst"
      assume w: "obj w = obj v" "log w = log v @ [Kube (EvStatusUpdateHost (release_to Releasing host) r)]"
        and a: "a = Inr () \<longleftrightarrow> (\<exists>y. r = Inr y)"
      have "released_by (obj s) host (release_to Releasing host) (es @ es' @ es2)"
        using tried unfolding released_by_def reset_accepted_def reset_tried_def by auto
      moreover have "\<forall>x r. Kube (EvStatusUpdateHost x r) \<notin> set (es @ es' @ es2)"
        using tried assms(3) sec harmless_no_update reads_secret_no_update talos_only_no_update
        unfolding reset_tried_def by fastforce
      ultimately show "release_post s a w"
        unfolding release_post_def Let_def
        using w v u assms(1,2) a
        by (intro conjI disjI2 exI [of _ host] exI [of _ "es @ es' @ es2"]
              exI [of _ "release_to Releasing host"] exI [of _ r]) simp_all
    qed
  qed
qed

lemma releaseHost_wp: "wp (releaseHost env) (release_post s) s"
proof (cases "mResolvedHost (mStatus (obj s)) = []")
  case True
  then show ?thesis by (simp add: releaseHost_def wp_simps release_post_def Let_def)
next
  case False
  let ?k = "(oNamespace (mMeta (obj s)), mResolvedHost (mStatus (obj s)))"
  show ?thesis
  proof (cases "k_get_host env (log s) ?k")
    case (Inl err)
    with False show ?thesis by (simp add: releaseHost_def wp_simps release_post_def Let_def)
  next
    case (Inr host)
    let ?t = "s\<lparr>log := log s @ [Kube (EvGetHost ?k (Inr host))]\<rparr>"
    have "wp (do { live \<leftarrow> probeMaintenance env (hostEndpoints host);
                     if live then update_released env (release_to Available host)
                     else try_or (resetCredentialCandidates env) id (\<lambda>candidates.
                       try_or (attemptReset env candidates (machineEndpoints (obj s)))
                         (errorf (''failed to reset host '' @ oName (hMeta host) @ '' ('' @
                            endpoints_text (machineEndpoints (obj s)) @ '')''))
                         (\<lambda>_. update_released env (release_to Releasing host))) }) (release_post s) ?t"
    proof (rule wp_bindI [OF probeMaintenance_wp], elim conjE exE, rule wp_ifI)
      fix b es and t :: "(byot_machine, event) gst"
      assume t: "obj t = obj ?t" "log t = log ?t @ es" "list_all harmless es"
        and live: "b \<longrightarrow> (\<exists>v. Talos (EvVersion \<lparr>tcTalosConfig = None, tcEndpoints = hostEndpoints host\<rparr> (Inr v)) \<in> set es)"
        and b
      have "released_by (obj s) host (release_to Available host) es"
        using live \<open>b\<close> harmless_no_reset [OF t(3)] by (auto simp: released_by_def maintenance_answered_def)
      then show "wp (update_released env (release_to Available host)) (release_post s) t"
        using t harmless_no_update [OF t(3)]
        by (intro wp_mono [OF update_released_wp]) (fastforce simp: release_post_def Let_def)
    next
      fix b es and t :: "(byot_machine, event) gst"
      assume "obj t = obj ?t" "log t = log ?t @ es" "list_all harmless es"
      then show "wp (try_or (resetCredentialCandidates env) id (\<lambda>candidates.
                       try_or (attemptReset env candidates (machineEndpoints (obj s)))
                         (errorf (''failed to reset host '' @ oName (hMeta host) @ '' ('' @
                            endpoints_text (machineEndpoints (obj s)) @ '')''))
                         (\<lambda>_. update_released env (release_to Releasing host)))) (release_post s) t"
        by (intro reset_branch_wp) simp_all
    qed
    with False Inr show ?thesis by (simp add: releaseHost_def wp_get_objI wp_simps(2,3) wp_get_obj wp_ask Let_def)
  qed
qed

text \<open>C16. Release: the host is written back at most once, last, with the claim cleared. It goes
  straight back to Available only when the machine just answered in maintenance mode, and then
  without any reset; otherwise it goes to Releasing, and only after a reset was accepted on one
  of the machine's endpoints. A release that reports success has cleared the claim, unless
  there was no host to release.\<close>

theorem releaseHost_resets_first:
  assumes "run_state (releaseHost env) s = (a, s')"
  shows "release_post s a s'"
  using wp_run [OF releaseHost_wp assms] .


section \<open>The theorems at concrete inputs\<close>

definition live_host :: "string \<Rightarrow> host_phase \<Rightarrow> host_claim_ref option \<Rightarrow> byot_host" where
  "live_host name ph ref = hStatus_update (\<lambda>st. st\<lparr>hConditions :=
     [sample_condition HostMaintenanceProbeCondition CondTrue '''' SevNone '''']\<rparr>) (sample_host name ph ref)"

definition sample_ref :: "string \<Rightarrow> host_claim_ref" where
  "sample_ref uid = \<lparr>crKind = ''ByotMachine'', crName = ''m'', crNamespace = ''default'', crUID = uid\<rparr>"

text \<open>Two free hosts, and one that a machine holds.\<close>

definition claim_env :: env where
  "claim_env = sample_env\<lparr>
     k_list_hosts := \<lambda>h ns sel. Inr [live_host ''b'' Available None, live_host ''a'' Available None,
                                      live_host ''0'' Claimed (Some (sample_ref ''uid-9''))],
     k_get_host := \<lambda>h k. Inr (live_host (snd k) Available None)\<rparr>"

lemma claim_env_hosts:
  "k_list_hosts claim_env h ns sel = Inr [live_host ''b'' Available None, live_host ''a'' Available None,
                                      live_host ''0'' Claimed (Some (sample_ref ''uid-9''))]"
  "k_get_host claim_env h k = Inr (live_host (snd k) Available None)"
  "l_selector_valid claim_env sel' = None"
  by (simp_all add: claim_env_def sample_env_def sample_lib_def)

lemma selectClaimCandidate_least_witness:
  "case fst (run_state (selectClaimCandidate claim_env) (start sample_machine)) of
      Inr h \<Rightarrow> claim_candidate claim_env sample_machine h \<and> host_name h \<le> ''a''
    | Inl e \<Rightarrow> False"
proof -
  have cands: "claim_candidate claim_env sample_machine (live_host n Available None)" for n
    by (simp add: claim_candidate_def hostClaimable_def claim_env_def sample_env_def sample_lib_def
        live_host_def sample_host_def sample_is_true_def sample_condition_def claimed_elsewhere_def
        hostMatchesFailureDomain_def sample_machine_def)
  have name: "host_name (live_host n ph ref) = n" for n ph ref
    by (simp add: host_name_def live_host_def sample_host_def sample_meta_def)
  show ?thesis
    using selectClaimCandidate_least [where env = claim_env and s = "start sample_machine",
        OF claim_env_hosts(3) claim_env_hosts(1)] cands [of "''a''"] name [of "''a''"]
    by (auto split: sum.splits)
qed

lemma claimCAS_never_steals_witness:
  "\<exists>es. log (snd (run_state (claimCAS claim_env (live_host ''a'' Available None)) (start sample_machine))) = es \<and>
     (\<forall>x r. Kube (EvStatusUpdateHost x r) \<in> set es \<longrightarrow>
        cas_evidence sample_machine (key_of (hMeta (live_host ''a'' Available None))) x r es)"
  using claimCAS_never_steals [OF prod.collapse [symmetric],
      of claim_env "live_host ''a'' Available None" "start sample_machine"]
  by simp

lemma claim_env_answers:
  "k_status_update_host claim_env l x = Inr x" "k_update_host claim_env l x = Inr x"
  "k_patch_machine claim_env l b m own = None"
  "hPhase (hStatus (live_host n ph ref)) = ph" "hClaimRef (hStatus (live_host n ph ref)) = ref"
  "hostClaimable claim_env (live_host n ph ref)"
  by (simp_all add: claim_env_def sample_env_def live_host_def sample_host_def hostClaimable_def
      sample_lib_def sample_is_true_def sample_condition_def)

lemma claim_env_take:
  "wp (takeCandidate claim_env helper (live_host n Available None)) (\<lambda>a _. a = Inr (no_result, False)) s"
proof -
  have cas: "wp (claimCAS claim_env (live_host n Available None)) (\<lambda>a _. a = Inr ()) s"
    unfolding claimCAS_def Let_def
    by (simp add: wp_simps claim_env_hosts claim_env_answers claimed_elsewhere_def)
  show ?thesis
    unfolding takeCandidate_def patchMachine_def
    by (rule wp_bindI [OF cas]) (simp add: wp_simps claim_env_answers)
qed

lemma claim_env_claims:
  "wp (claimHost NewByotMachineReconciler claim_env sample_machine) (\<lambda>a _. a = Inr (no_result, False))
     (start (sample_machine\<lparr>mSpec := (mSpec sample_machine)\<lparr>mHostRef := Some n\<rparr>\<rparr>))"
proof -
  have m: "mResolvedHost (mStatus sample_machine) = []" by (simp add: sample_machine_def)
  have resolve: "wp (resolveClaimCandidate claim_env) (\<lambda>a _. a = Inr (live_host n Available None))
     (start (sample_machine\<lparr>mSpec := (mSpec sample_machine)\<lparr>mHostRef := Some n\<rparr>\<rparr>))"
    unfolding resolveClaimCandidate_def resolveHostRef_def
    by (simp add: wp_simps claim_env_hosts claim_env_answers claimed_elsewhere_def)
  have "wp (searchAndClaim NewByotMachineReconciler claim_env sample_machine) (\<lambda>a _. a = Inr (no_result, False))
     (start (sample_machine\<lparr>mSpec := (mSpec sample_machine)\<lparr>mHostRef := Some n\<rparr>\<rparr>))"
    unfolding searchAndClaim_def by (rule wp_bindI [OF resolve]) (simp add: claim_env_take)
  then show ?thesis
    unfolding claimHost_def verifyExistingClaim_def Let_def by (simp add: wp_simps m)
qed

lemma claimHost_proceeds_with_claim_witness:
  "\<exists>s'. run_state (claimHost NewByotMachineReconciler claim_env sample_machine)
     (start (sample_machine\<lparr>mSpec := (mSpec sample_machine)\<lparr>mHostRef := Some ''a''\<rparr>\<rparr>)) = (Inr (no_result, False), s') \<and>
     claim_evidence sample_machine (mResolvedHost (mStatus (obj s'))) (mResolvedPublicIP (mStatus (obj s'))) (log s')"
proof -
  let ?m = "sample_machine\<lparr>mSpec := (mSpec sample_machine)\<lparr>mHostRef := Some ''a''\<rparr>\<rparr>"
  obtain s' where run: "run_state (claimHost NewByotMachineReconciler claim_env sample_machine) (start ?m)
      = (Inr (no_result, False), s')"
    using claim_env_claims unfolding wp_def by (auto split: prod.splits)
  from claimHost_proceeds_with_claim [OF run]
  have "claim_evidence ?m (mResolvedHost (mStatus (obj s'))) (mResolvedPublicIP (mStatus (obj s'))) (log s')" by auto
  then have "claim_evidence sample_machine (mResolvedHost (mStatus (obj s'))) (mResolvedPublicIP (mStatus (obj s'))) (log s')"
    by (subst claim_evidence_cong [of sample_machine ?m]) simp_all
  with run show ?thesis by blast
qed

definition bound_machine :: byot_machine where
  "bound_machine = mStatus_update (\<lambda>st. st\<lparr>mResolvedHost := ''a'', mResolvedPublicIP := ''203.0.113.7''\<rparr>) sample_machine"

lemma releaseHost_resets_first_witness:
  "release_post (start bound_machine) (fst (run_state (releaseHost claim_env) (start bound_machine)))
     (snd (run_state (releaseHost claim_env) (start bound_machine)))"
  by (rule releaseHost_resets_first [OF prod.collapse [symmetric]])

lemma resetCredentialCandidates_order_witness:
  "\<exists>cfgs. [None] = map Some cfgs @ [None :: bytes option] \<and> [] \<notin> set cfgs \<and> length cfgs \<le> 2"
proof (rule resetCredentialCandidates_order)
  show "run_state (resetCredentialCandidates sample_env) (start sample_machine)
      = (Inr [None], start sample_machine)"
    by (simp add: resetCredentialCandidates_def try_or_def get_obj_def ret_def Let_def
        sample_machine_def sample_meta_def label_or_empty_def)
qed


subsection \<open>The order of the resets\<close>

fun resets :: "event list \<Rightarrow> (talos_client \<times> goerr option) list" where
  "resets [] = []"
| "resets (Talos (EvReset c r) # es) = (c, r) # resets es"
| "resets (e # es) = resets es"

lemma resets_append: "resets (es @ es') = resets es @ resets es'"
  by (induction es rule: resets.induct) auto

definition in_order :: "bytes option list \<Rightarrow> endpoints \<Rightarrow> unit res \<Rightarrow> (talos_client \<times> goerr option) list \<Rightarrow> bool" where
  "in_order cands eps a rs \<longleftrightarrow>
     subseq (map fst rs) (map (\<lambda>c. \<lparr>tcTalosConfig = c, tcEndpoints = eps\<rparr>) cands) \<and>
     (case a of
        Inr _ \<Rightarrow> rs \<noteq> [] \<and> snd (last rs) = None \<and> (\<forall>r \<in> set (butlast rs). snd r \<noteq> None)
      | Inl err \<Rightarrow> \<forall>r \<in> set rs. snd r \<noteq> None)"

lemma resetMachine_once:
  "wp (resetMachine env eps tc) (\<lambda>a s'. obj s' = obj s \<and> (\<exists>es. log s' = log s @ es \<and>
      (case a of Inr _ \<Rightarrow> resets es = [(\<lparr>tcTalosConfig = tc, tcEndpoints = eps\<rparr>, None)]
       | Inl _ \<Rightarrow> resets es = [] \<or> (\<exists>e. resets es = [(\<lparr>tcTalosConfig = tc, tcEndpoints = eps\<rparr>, Some e)])))) s"
  by (auto simp: resetMachine_def clientFor_def maintenanceClient_def authenticatedClient_def
      dial_def wp_simps split: option.split)

lemma in_order_later:
  assumes "in_order cands eps a rs" and "r = [] \<or> (\<exists>e. r = [(\<lparr>tcTalosConfig = c, tcEndpoints = eps\<rparr>, Some e)])"
  shows "in_order (c # cands) eps a (r @ rs)"
  using assms by (auto simp: in_order_def butlast_append split: sum.splits intro: subseq_Cons')

lemma attemptReset_loop_in_order:
  fixes s :: "('o, event) gst"
  shows "wp (attemptReset_loop env cands eps lastErr)
     (\<lambda>a s'. obj s' = obj s \<and> (\<exists>es. log s' = log s @ es \<and> in_order cands eps a (resets es))) s"
proof (induction cands arbitrary: lastErr s)
  case Nil
  then show ?case by (simp add: wp_simps in_order_def)
next
  case (Cons c cands)
  show ?case
    unfolding attemptReset_loop.simps wp_bind
  proof (rule wp_mono [OF resetMachine_once], elim conjE exE)
    fix a :: "unit res" and t :: "('o, event) gst" and es
    assume t: "obj t = obj s" "log t = log s @ es"
      and es: "case a of Inr _ \<Rightarrow> resets es = [(\<lparr>tcTalosConfig = c, tcEndpoints = eps\<rparr>, None)]
       | Inl _ \<Rightarrow> resets es = [] \<or> (\<exists>e. resets es = [(\<lparr>tcTalosConfig = c, tcEndpoints = eps\<rparr>, Some e)])"
    show "wp (case a of Inr _ \<Rightarrow> ret (Inr ()) | Inl e \<Rightarrow> attemptReset_loop env cands eps (Some e))
       (\<lambda>a s'. obj s' = obj s \<and> (\<exists>es. log s' = log s @ es \<and> in_order (c # cands) eps a (resets es))) t"
    proof (cases a)
      case (Inl e)
      with es have "resets es = [] \<or> (\<exists>e. resets es = [(\<lparr>tcTalosConfig = c, tcEndpoints = eps\<rparr>, Some e)])" by simp
      with Inl t show ?thesis by (auto intro!: wp_mono [OF Cons.IH] simp: resets_append dest: in_order_later)
    next
      case (Inr u)
      with t es show ?thesis by (auto simp: wp_simps in_order_def)
    qed
  qed
qed

text \<open>C17. A reset of a machine tries its credentials in order: the reset calls of one attempt are a
  subsequence of the candidates (each at most once, in their order, at the machine's endpoints),
  all rejected but the last when the attempt succeeds, all rejected when it fails; without any
  candidate nothing is called and the failure is \<open>errNoResetCredentials\<close>.\<close>

theorem attemptReset_in_order:
  fixes s :: "('o, event) gst"
  assumes "run_state (attemptReset env cands eps) s = (a, s')"
  shows "obj s' = obj s \<and> (\<exists>es. log s' = log s @ es \<and>
     subseq (map fst (resets es)) (map (\<lambda>c. \<lparr>tcTalosConfig = c, tcEndpoints = eps\<rparr>) cands) \<and>
     length (resets es) \<le> length cands \<and>
     (case a of
        Inr _ \<Rightarrow> resets es \<noteq> [] \<and> snd (last (resets es)) = None \<and> (\<forall>r \<in> set (butlast (resets es)). snd r \<noteq> None)
      | Inl err \<Rightarrow> (\<forall>r \<in> set (resets es). snd r \<noteq> None) \<and>
          (cands \<noteq> [] \<or> es = [] \<and> unwrap_all err = ErrNoResetCredentials)))"
proof (cases cands)
  case Nil
  with assms show ?thesis
    by (auto simp: attemptReset_def ret_def)
next
  case (Cons c cs)
  from wp_run [OF attemptReset_loop_in_order [of env cands eps None s] assms [unfolded attemptReset_def]]
  obtain es where s': "obj s' = obj s" "log s' = log s @ es" and order: "in_order cands eps a (resets es)" by blast
  then have "length (map fst (resets es)) \<le> length (map (\<lambda>c. \<lparr>tcTalosConfig = c, tcEndpoints = eps\<rparr>) cands)"
    unfolding in_order_def by (intro list_emb_length) blast
  with s' order Cons show ?thesis
    unfolding in_order_def by (intro conjI exI [of _ es]) (auto split: sum.splits)
qed

text \<open>The machine rejects the talosconfig and accepts the insecure client.\<close>

definition picky_env :: env where
  "picky_env = sample_env\<lparr>t_reset := \<lambda>l c. if tcTalosConfig c = None then None else Some not_found\<rparr>"

lemma attemptReset_in_order_witness:
  "\<exists>es. log (snd (run_state (attemptReset picky_env [Some ''cfg'', None] [''203.0.113.7'']) (start sample_machine))) = es \<and>
     resets es \<noteq> [] \<and> snd (last (resets es)) = None \<and> length (resets es) \<le> 2"
proof -
  have "wp (attemptReset picky_env [Some ''cfg'', None] [''203.0.113.7'']) (\<lambda>a s'. a = Inr ()) (start sample_machine)"
    by (simp add: attemptReset_def resetMachine_def clientFor_def maintenanceClient_def authenticatedClient_def
        dial_def wp_simps picky_env_def sample_env_def sample_lib_def)
  from wp_run [OF this prod.collapse [symmetric]]
  have "fst (run_state (attemptReset picky_env [Some ''cfg'', None] [''203.0.113.7'']) (start sample_machine)) = Inr ()" .
  with attemptReset_in_order [of picky_env "[Some ''cfg'', None]" "[''203.0.113.7'']" "start sample_machine", OF prod.collapse [symmetric]]
  show ?thesis by auto
qed

text \<open>The release does not look at whose claim it drops: with the machine in maintenance mode, the host
  named in the status is written back unclaimed, whoever holds it.\<close>

lemma releaseHost_ignores_holder:
  assumes "mResolvedHost (mStatus (obj s)) \<noteq> []"
    and "\<And>l k. k_get_host env l k = Inr h" and "hClaimRef (hStatus h) = Some ref"
    and "\<And>l c. t_dial env l c = None" and "\<And>l c. t_version env l c = Inr vs"
    and "run_state (releaseHost env) s = (a, s')"
  shows "\<exists>r. last (log s') = Kube (EvStatusUpdateHost (release_to Available h) r)"
proof -
  have "wp (releaseHost env) (\<lambda>a s'. \<exists>r. last (log s') = Kube (EvStatusUpdateHost (release_to Available h) r)) s"
    using assms(1-5)
    by (simp add: releaseHost_def probeMaintenance_def version_ok_def maintenanceClient_def dial_def
        update_released_def Let_def wp_simps split: option.split sum.split)
  then show ?thesis using assms(6) by (rule wp_run)
qed

end
