(* ===== verification/Upgrade.thy ===== *)
theory Upgrade
  imports MachineBase Claim
begin

text \<open>
  The post-adoption Talos upgrade of \<open>byotmachine_controller.go\<close> (\<open>ensureTalosVersion\<close> and
  what it calls): the probe and issue of an upgrade, the wait for the reboot by boot-id or by
  version, the two failure paths, completion, and the mirror of the version onto the host.
  The state of the machine is \<open>mUpgradeState\<close> and the fields beside it in the status.

  A handler returns a result paired with \<open>handled\<close>: the caller returns the result instead of
  going on to link the node.
\<close>

section \<open>Waiting for the cluster's talosconfig\<close>

text \<open>A non-nil \<open>*ctrl.Result\<close> (wait for it), or the value.\<close>

datatype 'a awaited = Wait ctrl_result | Have 'a

definition awaitClusterTalosConfig ::
  "byot_machine_reconciler \<Rightarrow> env \<Rightarrow> string \<Rightarrow> (byot_machine, bytes awaited res) act" where
  "awaitClusterTalosConfig r env clusterName =
     do { byotMachine \<leftarrow> get_obj;
          got \<leftarrow> clusterTalosConfig env clusterName (oNamespace (mMeta byotMachine));
          ret (case got of
             Inr talosConfig \<Rightarrow> Inr (Have talosConfig)
           | Inl err \<Rightarrow>
               (if errors_is err ErrClusterTalosConfigNotReady
                then Inr (Wait (requeue_after (requeueAfterBootstrap r)))
                else Inl err)) }"


section \<open>Outcomes\<close>

definition TalosVersionReadyCondition :: string where
  "TalosVersionReadyCondition = ''TalosVersionReady''"

definition ownedTalosVersionReady :: "string list" where
  "ownedTalosVersionReady = [TalosVersionReadyCondition]"

definition upgradeAlreadyApplied :: "byot_machine \<Rightarrow> string \<Rightarrow> bool" where
  "upgradeAlreadyApplied byotMachine desired \<longleftrightarrow>
     mUpgradeAppliedImageRef (mStatus byotMachine) = desired \<and>
     mUpgradeAttemptGeneration (mStatus byotMachine) = oGeneration (mMeta byotMachine)"

text \<open>\<open>status.upgradeAttemptGeneration = metadata.generation\<close>.\<close>

definition stampGeneration :: "(byot_machine, unit) act" where
  "stampGeneration =
     modify_obj (\<lambda>m. mStatus_update (\<lambda>st. st\<lparr>mUpgradeAttemptGeneration := oGeneration (mMeta m)\<rparr>) m)"

definition retriggerStaleUpgradeFailure :: "env \<Rightarrow> byot_machine \<Rightarrow> (byot_machine, bool res) act" where
  "retriggerStaleUpgradeFailure env helper =
     do { m \<leftarrow> get_obj;
          if mUpgradeState (mStatus m) \<noteq> UpgradeFailed \<or>
             oGeneration (mMeta m) = mUpgradeAttemptGeneration (mStatus m)
          then ret (Inr False)
          else do { mod_machine (\<lambda>st. st\<lparr>mUpgradeState := NoUpgrade, mUpgradeProbeFailures := 0\<rparr>);
                    try_or (patchMachine env helper [] ''failed to patch ByotMachine on upgrade retrigger'')
                      id (\<lambda>_. ret (Inr True)) } }"

definition markInvalidImageRef ::
  "env \<Rightarrow> byot_machine \<Rightarrow> (byot_machine, (ctrl_result \<times> bool) res) act" where
  "markInvalidImageRef env helper =
     do { mod_machine (markMachineFalse env TalosVersionReadyCondition ''InvalidImageRef'' SevError
            ''DesiredTalosVersion is empty'');
          stampGeneration;
          try_or (patchMachine env helper [] ''failed to patch ByotMachine on invalid image ref'') id
            (\<lambda>_. ret (Inr (no_result, True))) }"

definition resetAdoptedHostImpl :: "env \<Rightarrow> (byot_machine, unit res) act" where
  "resetAdoptedHostImpl env =
     try_or (resetCredentialCandidates env) id (\<lambda>candidates.
       do { m \<leftarrow> get_obj; attemptReset env candidates (machineEndpoints m) })"

definition finalizeUpgradeFailure ::
  "byot_machine_reconciler \<Rightarrow> env \<Rightarrow> string \<Rightarrow> goerr \<Rightarrow> (byot_machine, (ctrl_result \<times> bool) res) act" where
  "finalizeUpgradeFailure r env reason upgradeErr =
     check_or (kNewHelper env) (errorf ''failed to patch ByotMachine on upgrade failure'')
       (do { failedHelper \<leftarrow> get_obj;
             mod_machine (\<lambda>st. st\<lparr>mUpgradeState := UpgradeFailed\<rparr>);
             stampGeneration;
             mod_machine (markMachineFalse env TalosVersionReadyCondition reason SevWarning
               (''upgrade failed: '' @ error_text upgradeErr));
             try_or (patchMachine env failedHelper ownedTalosVersionReady
                       ''failed to patch ByotMachine on upgrade failure'') id (\<lambda>_.
             do { reset \<leftarrow> resetAdoptedHostImpl env;
                  case reset of
                    Inl _ \<Rightarrow> ret (Inr (requeue_after (requeueAfterResetIssued r), True))
                  | Inr _ \<Rightarrow>
                      check_or (kNewHelper env) (errorf ''failed to patch ByotMachine after reset'')
                        (do { clearHelper \<leftarrow> get_obj;
                              mod_machine (\<lambda>st. st\<lparr>mReady := False, mLastAppliedConfigSHA := ''''\<rparr>);
                              try_or (patchMachine env clearHelper []
                                        ''failed to patch ByotMachine after reset'') id
                                (\<lambda>_. ret (Inr (no_result, True))) }) }) })"

definition recordUpgradeProbeFailure ::
  "byot_machine_reconciler \<Rightarrow> env \<Rightarrow> byot_machine \<Rightarrow> int \<Rightarrow> string \<Rightarrow> goerr \<Rightarrow> bool
     \<Rightarrow> (byot_machine, (ctrl_result \<times> bool) res) act" where
  "recordUpgradeProbeFailure r env helper threshold reason probeErr resetOnFailure =
     do { mod_machine (\<lambda>st. st\<lparr>mUpgradeProbeFailures := i32 (mUpgradeProbeFailures st + 1)\<rparr>);
          try_or (patchMachine env helper [] ''failed to patch ByotMachine on upgrade probe retry'') id (\<lambda>_.
          do { m \<leftarrow> get_obj;
               if threshold \<le> mUpgradeProbeFailures (mStatus m)
               then (if resetOnFailure then finalizeUpgradeFailure r env reason probeErr
                     else do {
                       mod_machine (\<lambda>st. st\<lparr>mUpgradeState := UpgradeFailed\<rparr>);
                       stampGeneration;
                       mod_machine (markMachineFalse env TalosVersionReadyCondition reason SevWarning
                         (''probe failed '' @ format_int (mUpgradeProbeFailures (mStatus m)) @
                          '' times: '' @ error_text probeErr));
                       try_or (patchMachine env helper ownedTalosVersionReady
                                 ''failed to patch ByotMachine on upgrade failure'') id
                         (\<lambda>_. ret (Inr (no_result, True))) })
               else ret (Inr (requeue_after (requeueAfterUpgrade r), True)) }) }"

definition syncHostTalosVersion :: "env \<Rightarrow> (byot_machine, unit res) act" where
  "syncHostTalosVersion env =
     do { m \<leftarrow> get_obj;
          let resolved = mResolvedHost (mStatus m);
          let current = mCurrentTalosVersion (mStatus m);
          if resolved = '''' \<or> current = '''' then ret (Inr ())
          else do {
            got \<leftarrow> kGetHost env (oNamespace (mMeta m), resolved);
            case got of
              Inl err \<Rightarrow>
                (if is_not_found err then ret (Inr ())
                 else ret (Inl (errorf (''failed to get ByotHost '' @ resolved @ '' for version mirror'') err)))
            | Inr host \<Rightarrow>
                (if hTalosVersion (hStatus host) = current then ret (Inr ())
                 else try_or (kStatusUpdateHost env (hStatus_update (\<lambda>st. st\<lparr>hTalosVersion := current\<rparr>) host))
                   (errorf (''failed to mirror Talos version onto ByotHost '' @ oName (hMeta host)))
                   (\<lambda>_. ret (Inr ()))) } }"

definition upgraded_condition :: condition where
  "upgraded_condition =
     \<lparr>cType = TalosVersionReadyCondition, cStatus = CondTrue, cReason = ''Upgraded'',
      cSeverity = SevNone, cMessage = ''''\<rparr>"

definition markUpgradeComplete ::
  "env \<Rightarrow> byot_machine \<Rightarrow> (byot_machine, (ctrl_result \<times> bool) res) act" where
  "markUpgradeComplete env helper =
     do { mod_machine (\<lambda>st. st\<lparr>mUpgradeState := NoUpgrade, mUpgradePreRebootBootID := ''''\<rparr>);
          modify_obj (\<lambda>m. case mDesiredTalosVersion (mSpec m) of
              None \<Rightarrow> m
            | Some v \<Rightarrow> mStatus_update (\<lambda>st. st\<lparr>mUpgradeAppliedImageRef := v\<rparr>) m);
          stampGeneration;
          mod_machine (\<lambda>st. st\<lparr>mConditions := l_cond_set env (mConditions st) upgraded_condition\<rparr>);
          try_or (patchMachine env helper [] ''failed to patch ByotMachine on upgrade complete'') id (\<lambda>_.
            try_or (syncHostTalosVersion env) id (\<lambda>_. ret (Inr (no_result, False)))) }"


section \<open>Probe, issue, wait\<close>

definition issueUpgrade ::
  "byot_machine_reconciler \<Rightarrow> env \<Rightarrow> byot_machine \<Rightarrow> bytes \<Rightarrow> string \<Rightarrow> string
     \<Rightarrow> (byot_machine, (ctrl_result \<times> bool) res) act" where
  \<comment> \<open>the second half of \<open>upgradeProbeAndIssue\<close>: after the version probe answered \<open>tag\<close>\<close>
  "issueUpgrade r env helper talosConfig tag desired =
     do { mod_machine (\<lambda>st. st\<lparr>mCurrentTalosVersion := tag, mUpgradeProbeFailures := 0,
                               mUpgradeState := InFlight\<rparr>);
          stampGeneration;
          mod_machine (\<lambda>st. st\<lparr>mUpgradePreRebootBootID := ''''\<rparr>);
          mod_machine (markMachineFalse env TalosVersionReadyCondition ''Upgrading'' SevInfo
            (''upgrading host to '' @ desired));
          try_or (patchMachine env helper [] ''failed to patch ByotMachine before upgrade'') id (\<lambda>_.
          do { m \<leftarrow> get_obj;
               upgraded \<leftarrow> upgradeMachine env (machineEndpoints m) talosConfig desired;
               case upgraded of
                 Inl err \<Rightarrow> finalizeUpgradeFailure r env ''UpgradeFailed'' err
               | Inr bootID \<Rightarrow>
                   do { mod_machine (\<lambda>st. st\<lparr>mUpgradePreRebootBootID := bootID\<rparr>);
                        try_or (patchMachine env helper [] ''failed to patch ByotMachine after upgrade'') id
                          (\<lambda>_. ret (Inr (requeue_after (requeueAfterUpgrade r), True))) } }) }"

definition upgradeProbeAndIssue ::
  "byot_machine_reconciler \<Rightarrow> env \<Rightarrow> byot_machine \<Rightarrow> capi_machine \<Rightarrow> string
     \<Rightarrow> (byot_machine, (ctrl_result \<times> bool) res) act" where
  "upgradeProbeAndIssue r env helper machine desired =
     try_or (awaitClusterTalosConfig r env (cmClusterName machine)) id (\<lambda>await.
       case await of
         Wait result \<Rightarrow> ret (Inr (result, True))
       | Have talosConfig \<Rightarrow>
           do { m \<leftarrow> get_obj;
                probed \<leftarrow> versionProbeAuthenticated env (machineEndpoints m) talosConfig;
                case probed of
                  Inl err \<Rightarrow> recordUpgradeProbeFailure r env helper (versionProbeThreshold r)
                               ''VersionProbeFailed'' err False
                | Inr tag \<Rightarrow> issueUpgrade r env helper talosConfig tag desired })"

text \<open>The end of a poll that has not seen the reboot.\<close>

definition pollAgain ::
  "byot_machine_reconciler \<Rightarrow> env \<Rightarrow> byot_machine \<Rightarrow> (byot_machine, (ctrl_result \<times> bool) res) act" where
  "pollAgain r env helper =
     try_or (patchMachine env helper [] ''failed to patch ByotMachine on upgrade poll'') id
       (\<lambda>_. ret (Inr (requeue_after (requeueAfterUpgrade r), True)))"

definition upgradeInFlightVersionFallback ::
  "byot_machine_reconciler \<Rightarrow> env \<Rightarrow> byot_machine \<Rightarrow> endpoints \<Rightarrow> bytes
     \<Rightarrow> (byot_machine, (ctrl_result \<times> bool) res) act" where
  "upgradeInFlightVersionFallback r env helper endpoints talosConfig =
     do { m \<leftarrow> get_obj;
          let preUpgradeTag = mCurrentTalosVersion (mStatus m);
          probed \<leftarrow> versionProbeAuthenticated env endpoints talosConfig;
          case probed of
            Inl probeErr \<Rightarrow> recordUpgradeProbeFailure r env helper (upgradeThreshold r)
                              ''UpgradeFailed'' probeErr True
          | Inr tag \<Rightarrow>
              do { mod_machine (\<lambda>st. st\<lparr>mCurrentTalosVersion := tag, mUpgradeProbeFailures := 0\<rparr>);
                   if tag = '''' \<or> tag = preUpgradeTag then pollAgain r env helper
                   else markUpgradeComplete env helper } }"

definition upgradeInFlightBootIDGate ::
  "byot_machine_reconciler \<Rightarrow> env \<Rightarrow> byot_machine \<Rightarrow> endpoints \<Rightarrow> bytes \<Rightarrow> string
     \<Rightarrow> (byot_machine, (ctrl_result \<times> bool) res) act" where
  "upgradeInFlightBootIDGate r env helper endpoints talosConfig preRebootBootID =
     do { live \<leftarrow> bootIDAuthenticated env endpoints talosConfig;
          case live of (liveBootID, bootErr) \<Rightarrow>
            (case bootErr of
               Some err \<Rightarrow>
                 (if errors_is err ErrBootIDUnauthorized
                  then upgradeInFlightVersionFallback r env helper endpoints talosConfig
                  else recordUpgradeProbeFailure r env helper (upgradeThreshold r)
                         ''UpgradeFailed'' err True)
             | None \<Rightarrow>
                 (if liveBootID \<noteq> '''' \<and> liveBootID \<noteq> preRebootBootID
                  then do { probed \<leftarrow> versionProbeAuthenticated env endpoints talosConfig;
                            mod_machine (\<lambda>st. case probed of
                                Inl _ \<Rightarrow> st
                              | Inr tag \<Rightarrow> if tag \<noteq> '''' then st\<lparr>mCurrentTalosVersion := tag\<rparr> else st);
                            markUpgradeComplete env helper }
                  else pollAgain r env helper)) }"

definition upgradeInFlight ::
  "byot_machine_reconciler \<Rightarrow> env \<Rightarrow> byot_machine \<Rightarrow> capi_machine
     \<Rightarrow> (byot_machine, (ctrl_result \<times> bool) res) act" where
  "upgradeInFlight r env helper machine =
     try_or (awaitClusterTalosConfig r env (cmClusterName machine)) id (\<lambda>await.
       case await of
         Wait result \<Rightarrow> ret (Inr (result, True))
       | Have talosConfig \<Rightarrow>
           do { m \<leftarrow> get_obj;
                if mUpgradePreRebootBootID (mStatus m) \<noteq> ''''
                then upgradeInFlightBootIDGate r env helper (machineEndpoints m) talosConfig
                       (mUpgradePreRebootBootID (mStatus m))
                else upgradeInFlightVersionFallback r env helper (machineEndpoints m) talosConfig })"

definition ensureTalosVersion ::
  "byot_machine_reconciler \<Rightarrow> env \<Rightarrow> byot_machine \<Rightarrow> capi_machine
     \<Rightarrow> (byot_machine, (ctrl_result \<times> bool) res) act" where
  "ensureTalosVersion r env helper machine =
     do { m \<leftarrow> get_obj;
          case mDesiredTalosVersion (mSpec m) of
            None \<Rightarrow> ret (Inr (no_result, False))
          | Some desired \<Rightarrow>
              if desired = '''' then ret (Inr (no_result, False))
              else if \<not> mReady (mStatus m) then ret (Inr (no_result, False))
              else try_or (retriggerStaleUpgradeFailure env helper) id (\<lambda>_.
                do { m \<leftarrow> get_obj;
                     case mUpgradeState (mStatus m) of
                       NoUpgrade \<Rightarrow>
                         (if desired = '''' then markInvalidImageRef env helper
                          else if upgradeAlreadyApplied m desired then markUpgradeComplete env helper
                          else upgradeProbeAndIssue r env helper machine desired)
                     | InFlight \<Rightarrow> upgradeInFlight r env helper machine
                     | UpgradeFailed \<Rightarrow> ret (Inr (no_result, True))
                     | OtherUpgradeState _ \<Rightarrow> ret (Inr (no_result, True)) }) }"

section \<open>Write-ahead: what is persisted before the machine is disturbed\<close>

definition accepted_patch :: "(byot_machine \<Rightarrow> bool) \<Rightarrow> event \<Rightarrow> bool" where
  "accepted_patch P e \<longleftrightarrow> (\<exists>b x own. e = Kube (EvPatchMachine b x own None) \<and> P x)"

lemma guards_patch:
  assumes "P (obj s)" and "\<And>b x own r. \<not> E (Kube (EvPatchMachine b x own r))"
    and "\<And>x. emits (\<lambda>_. True) (k x)"
  shows "guards E (accepted_patch P) (try_or (patchMachine env b own what) wrap k) s"
proof (cases "k_patch_machine env (log s) b (obj s) own")
  case None
  let ?g = "Kube (EvPatchMachine b (obj s) own None)"
  have "wp (k ()) (\<lambda>_ s'. \<exists>es. log s' = (log s @ [?g]) @ es) (s\<lparr>log := log s @ [?g]\<rparr>)"
    using assms(3) [of "()"] unfolding emits_def
    by (auto dest!: spec [of _ "s\<lparr>log := log s @ [?g]\<rparr>"] elim!: wp_mono)
  then have "wp (k ()) (\<lambda>_ s'. \<exists>es. log s' = log s @ es \<and> guarded E (accepted_patch P) es)
      (s\<lparr>log := log s @ [?g]\<rparr>)"
    by (rule wp_mono) (use assms(1,2) in \<open>auto intro!: guarded_after simp: accepted_patch_def\<close>)
  with None show ?thesis by (simp add: guards_def patchMachine_def wp_simps)
next
  case (Some e)
  then show ?thesis
    using assms(2) by (simp add: guards_def patchMachine_def wp_simps guarded_without)
qed

lemma emits_reset_tried:
  assumes "\<And>t. talos_only (Talos t) \<Longrightarrow> E (Talos t)"
  shows "emits E (attemptReset env cands eps)"
proof -
  have all: "emits talos_only (attemptReset_loop env cands eps err)" for err :: "goerr option"
    by (induction cands arbitrary: err)
       (auto simp: resetMachine_def intro!: emits_intros split: sum.split)
  show ?thesis
    unfolding attemptReset_def
    by (rule emits_mono [OF all]) (metis (full_types) assms event.exhaust talos_only_simps)
qed

lemma undisturbed_harmless: "emits harmless m \<Longrightarrow> emits (\<lambda>e. \<not> is_disruptive e) m"
  by (erule emits_mono) (auto simp: harmless_def)

lemma undisturbed_upgrade_steps [emits_intros]:
  "emits (\<lambda>e. \<not> is_disruptive e) (awaitClusterTalosConfig r env c)"
  "emits (\<lambda>e. \<not> is_disruptive e) stampGeneration"
  "emits (\<lambda>e. \<not> is_disruptive e) (retriggerStaleUpgradeFailure env helper)"
  "emits (\<lambda>e. \<not> is_disruptive e) (markInvalidImageRef env helper)"
  "emits (\<lambda>e. \<not> is_disruptive e) (pollAgain r env helper)"
  "emits (\<lambda>e. \<not> is_disruptive e) (markUpgradeComplete env helper)"
  "emits (\<lambda>e. \<not> is_disruptive e) (recordUpgradeProbeFailure r env helper thr reason err False)"
  "emits (\<lambda>e. \<not> is_disruptive e) (versionProbeAuthenticated env eps cfg)"
  "emits (\<lambda>e. \<not> is_disruptive e) (bootIDAuthenticated env eps cfg)"
  unfolding awaitClusterTalosConfig_def stampGeneration_def retriggerStaleUpgradeFailure_def
    markInvalidImageRef_def pollAgain_def markUpgradeComplete_def syncHostTalosVersion_def
    recordUpgradeProbeFailure_def Let_def if_False
  by (intro emits_intros undisturbed_harmless; simp)+

text \<open>Resets are the only disturbance of the failure path, installs and reboots of the issue.\<close>

definition only_resets :: "event \<Rightarrow> bool" where
  "only_resets e \<longleftrightarrow> \<not> is_install e \<and> \<not> is_apply e \<and> \<not> is_reboot e"

lemma only_resets_undisturbed: "emits (\<lambda>e. \<not> is_disruptive e) m \<Longrightarrow> emits only_resets m"
  by (erule emits_mono) (auto simp: only_resets_def is_disruptive_def)

lemma only_resets_simps [simp]:
  "only_resets (Kube k)" "only_resets (Workload w)" "only_resets (Clock t)"
  "only_resets (Talos (EvReset c r))" "only_resets (Talos (EvDial c r))"
  by (simp_all add: only_resets_def)

lemma emits_attemptReset [emits_intros]: "emits only_resets (attemptReset env cands eps)"
proof -
  have all: "emits only_resets (attemptReset_loop env cands eps err)" for err :: "goerr option"
    by (induction cands arbitrary: err)
       (auto simp: resetMachine_def intro!: emits_intros split: sum.split)
  then show ?thesis unfolding attemptReset_def .
qed

lemma emits_finalize [emits_intros]: "emits only_resets (finalizeUpgradeFailure r env reason err)"
  unfolding finalizeUpgradeFailure_def resetAdoptedHostImpl_def stampGeneration_def
  by (intro emits_intros; simp)

lemma emits_record [emits_intros]:
  "emits only_resets (recordUpgradeProbeFailure r env helper thr reason err rst)"
  unfolding recordUpgradeProbeFailure_def stampGeneration_def
  by (intro emits_intros; simp)

lemma emits_inflight [emits_intros]:
  "emits only_resets (upgradeInFlightVersionFallback r env helper eps cfg)"
  "emits only_resets (upgradeInFlightBootIDGate r env helper eps cfg b)"
  "emits only_resets (upgradeInFlight r env helper machine)"
  unfolding upgradeInFlight_def upgradeInFlightBootIDGate_def upgradeInFlightVersionFallback_def Let_def
  by (auto intro!: emits_intros undisturbed_upgrade_steps [THEN only_resets_undisturbed]
      split: prod.split option.split sum.split awaited.split)

definition installs_only :: "string \<Rightarrow> event \<Rightarrow> bool" where
  "installs_only img e \<longleftrightarrow> \<not> is_apply e \<and> (\<forall>c i r. e = Talos (EvLifecycleUpgrade c i r) \<longrightarrow> i = img)"

lemma installs_only_resets: "emits only_resets m \<Longrightarrow> emits (installs_only img) m"
  by (erule emits_mono) (auto simp: only_resets_def installs_only_def)

lemma emits_upgradeMachine [emits_intros]: "emits (installs_only img) (upgradeMachine env eps cfg img)"
  unfolding upgradeMachine_def runLifecycleUpgrade_def rebootMachine_def Let_def
  by (intro emits_intros installs_only_resets [OF only_resets_undisturbed [OF undisturbed_harmless]];
      simp add: installs_only_def)

lemma emits_issue [emits_intros]: "emits (installs_only img) (issueUpgrade r env helper cfg tag img)"
  unfolding issueUpgrade_def stampGeneration_def
  by (intro emits_intros installs_only_resets [OF emits_finalize];
      simp add: installs_only_def)

lemma emits_anything: "emits E m \<Longrightarrow> emits (\<lambda>_. True) m"
  by (erule emits_mono) simp

definition recorded_intent :: "byot_machine \<Rightarrow> bool" where
  "recorded_intent m \<longleftrightarrow> mUpgradeState (mStatus m) = InFlight \<and>
     mUpgradeAttemptGeneration (mStatus m) = oGeneration (mMeta m)"

definition recorded_failure :: "byot_machine \<Rightarrow> bool" where
  "recorded_failure m \<longleftrightarrow> mUpgradeState (mStatus m) = UpgradeFailed \<and>
     mUpgradeAttemptGeneration (mStatus m) = oGeneration (mMeta m)"

lemma guards_finalize:
  "guards is_reset (accepted_patch recorded_failure) (finalizeUpgradeFailure r env reason err) s"
  unfolding finalizeUpgradeFailure_def stampGeneration_def
  by (intro guards_check guards_get guards_modify guards_patch)
     (auto simp: recorded_failure_def markMachineFalse_def resetAdoptedHostImpl_def
        intro!: emits_intros emits_anything [OF emits_attemptReset])

lemma guards_record:
  "guards is_reset (accepted_patch recorded_failure) (recordUpgradeProbeFailure r env helper thr reason err rst) s"
proof (cases rst)
  case True
  have nr: "guards is_reset (accepted_patch recorded_failure) (patchMachine env helper own what) t" for t own what
    by (rule guards_without) (intro emits_intros, simp)
  show ?thesis
    unfolding recordUpgradeProbeFailure_def
    by (intro guards_modify guards_try_or nr guards_get)
       (auto simp: True intro: guards_finalize guards_without [OF emits_ret])
next
  case False
  have "emits (\<lambda>e. \<not> is_reset e) (recordUpgradeProbeFailure r env helper thr reason err False)"
    by (rule emits_mono [OF undisturbed_upgrade_steps(7)]) (simp add: is_disruptive_def)
  with False show ?thesis by (simp add: guards_without)
qed

lemma undisturbed_no_reset: "emits (\<lambda>e. \<not> is_disruptive e) m \<Longrightarrow> guards is_reset G m s"
  by (rule guards_without) (erule emits_mono, simp add: is_disruptive_def)

lemma undisturbed_no_install: "emits (\<lambda>e. \<not> is_disruptive e) m \<Longrightarrow> guards is_install G m s"
  by (rule guards_without) (erule emits_mono, simp add: is_disruptive_def)

lemma only_resets_no_install: "emits only_resets m \<Longrightarrow> guards is_install G m s"
  by (rule guards_without) (erule emits_mono, simp add: only_resets_def)

lemmas upgrade_steps_no_reset = undisturbed_upgrade_steps [THEN undisturbed_no_reset]
lemmas upgrade_steps_no_install = undisturbed_upgrade_steps [THEN undisturbed_no_install]

lemma guards_splits:
  "(b \<Longrightarrow> guards E G m s) \<Longrightarrow> (\<not> b \<Longrightarrow> guards E G n s) \<Longrightarrow> guards E G (if b then m else n) s"
  "(\<And>x. r = Inl x \<Longrightarrow> guards E G (f x) s) \<Longrightarrow> (\<And>y. r = Inr y \<Longrightarrow> guards E G (g y) s) \<Longrightarrow>
     guards E G (case r of Inl x \<Rightarrow> f x | Inr y \<Rightarrow> g y) s"
  "(o' = None \<Longrightarrow> guards E G p s) \<Longrightarrow> (\<And>y. o' = Some y \<Longrightarrow> guards E G (q y) s) \<Longrightarrow>
     guards E G (case o' of None \<Rightarrow> p | Some y \<Rightarrow> q y) s"
  "(\<And>w. a = Wait w \<Longrightarrow> guards E G (wt w) s) \<Longrightarrow> (\<And>c. a = Have c \<Longrightarrow> guards E G (hv c) s) \<Longrightarrow>
     guards E G (case a of Wait w \<Rightarrow> wt w | Have c \<Rightarrow> hv c) s"
  "(\<And>x y. pr = (x, y) \<Longrightarrow> guards E G (ff x y) s) \<Longrightarrow> guards E G (case pr of (x, y) \<Rightarrow> ff x y) s"
  by (auto split: sum.split option.split awaited.split prod.split)

lemma guards_modify_only: "guards E G (modify_obj f) s"
  by (rule guards_without [OF emits_modify_obj])

lemmas guards_rules = guards_get guards_bind guards_try_or guards_splits guards_ret guards_modify_only

lemma harmless_not_reset: "emits harmless m \<Longrightarrow> emits (\<lambda>e. \<not> is_reset e) m"
  by (erule emits_mono) (simp add: harmless_def is_disruptive_def)

lemma upgradeMachine_no_reset: "guards is_reset G (upgradeMachine env eps cfg img) s"
  unfolding upgradeMachine_def runLifecycleUpgrade_def rebootMachine_def Let_def
  by (rule guards_without, intro emits_intros harmless_not_reset; simp)

lemma patch_no_reset: "guards is_reset G (patchMachine env helper own what) s"
  by (rule guards_without) (intro emits_intros, simp)

lemma guards_issue_resets:
  "guards is_reset (accepted_patch recorded_failure) (issueUpgrade r env helper cfg tag img) s"
  unfolding issueUpgrade_def stampGeneration_def
  by (intro guards_rules upgradeMachine_no_reset patch_no_reset guards_finalize)

lemma guards_inflight_resets:
  "guards is_reset (accepted_patch recorded_failure) (upgradeInFlightVersionFallback r env helper eps cfg) s"
  "guards is_reset (accepted_patch recorded_failure) (upgradeInFlightBootIDGate r env helper eps cfg b) s"
  "guards is_reset (accepted_patch recorded_failure) (upgradeInFlight r env helper machine) s"
  unfolding upgradeInFlight_def upgradeInFlightBootIDGate_def upgradeInFlightVersionFallback_def Let_def
  by (intro guards_rules upgrade_steps_no_reset guards_record)+

lemma guards_ensure_resets:
  "guards is_reset (accepted_patch recorded_failure) (ensureTalosVersion r env helper machine) s"
proof -
  have "guards is_reset (accepted_patch recorded_failure)
     (upgradeProbeAndIssue r env helper machine d) t" for d t
    unfolding upgradeProbeAndIssue_def
    by (intro guards_rules upgrade_steps_no_reset guards_record guards_issue_resets)
  then show ?thesis
    unfolding ensureTalosVersion_def
    by (intro guards_rules upgrade_steps_no_reset)
       (auto split: upgrade_state.split intro!: guards_rules upgrade_steps_no_reset guards_inflight_resets)
qed

lemma guards_issue_installs:
  "guards is_install (accepted_patch recorded_intent) (issueUpgrade r env helper cfg tag img) s"
  unfolding issueUpgrade_def stampGeneration_def
  by (intro guards_modify guards_patch)
     (auto simp: recorded_intent_def markMachineFalse_def
        intro!: emits_intros emits_anything [OF emits_finalize] emits_anything [OF emits_upgradeMachine])

lemma guards_ensure_installs:
  "guards is_install (accepted_patch recorded_intent) (ensureTalosVersion r env helper machine) s"
proof -
  have "guards is_install (accepted_patch recorded_intent)
     (upgradeProbeAndIssue r env helper machine d) t" for d t
    unfolding upgradeProbeAndIssue_def
    by (intro guards_rules upgrade_steps_no_install only_resets_no_install [OF emits_record]
        guards_issue_installs)
  then show ?thesis
    unfolding ensureTalosVersion_def
    by (intro guards_rules upgrade_steps_no_install)
       (auto split: upgrade_state.split intro!: guards_rules upgrade_steps_no_install
          only_resets_no_install [OF emits_inflight(3)])
qed

lemma ensure_installs_only:
  "wp (ensureTalosVersion r env helper machine) (\<lambda>_ s'. \<exists>es. log s' = log s @ es \<and>
      list_all (\<lambda>e. \<not> is_apply e \<and> (\<forall>c i p. e = Talos (EvLifecycleUpgrade c i p) \<longrightarrow>
        mDesiredTalosVersion (mSpec (obj s)) = Some i)) es) s"
proof (cases "mDesiredTalosVersion (mSpec (obj s))")
  case None
  then show ?thesis by (simp add: ensureTalosVersion_def wp_simps)
next
  case (Some d)
  have issue: "emits (installs_only d) (upgradeProbeAndIssue r env helper machine d)"
    unfolding upgradeProbeAndIssue_def
    by (auto intro!: emits_intros installs_only_resets [OF emits_record]
        installs_only_resets [OF only_resets_undisturbed [OF undisturbed_upgrade_steps(1)]]
        installs_only_resets [OF only_resets_undisturbed [OF undisturbed_upgrade_steps(8)]]
        split: awaited.split)
  note quiet_steps = undisturbed_upgrade_steps [THEN only_resets_undisturbed, THEN installs_only_resets]
  have "emits (installs_only d) (if d = [] then ret (Inr (no_result, False))
      else if \<not> mReady (mStatus (obj s)) then ret (Inr (no_result, False))
      else try_or (retriggerStaleUpgradeFailure env helper) id (\<lambda>_.
        do { m \<leftarrow> get_obj;
             case mUpgradeState (mStatus m) of
               NoUpgrade \<Rightarrow>
                 (if d = [] then markInvalidImageRef env helper
                  else if upgradeAlreadyApplied m d then markUpgradeComplete env helper
                  else upgradeProbeAndIssue r env helper machine d)
             | InFlight \<Rightarrow> upgradeInFlight r env helper machine
             | UpgradeFailed \<Rightarrow> ret (Inr (no_result, True))
             | OtherUpgradeState _ \<Rightarrow> ret (Inr (no_result, True)) }))"
    by (auto intro!: emits_intros issue quiet_steps installs_only_resets [OF emits_inflight(3)]
        split: upgrade_state.split)
  then have "wp (ensureTalosVersion r env helper machine)
      (\<lambda>_ s'. \<exists>es. log s' = log s @ es \<and> list_all (installs_only d) es) s"
    unfolding ensureTalosVersion_def emits_def by (intro wp_get_objI) (simp add: Some)
  then show ?thesis
    by (rule wp_mono) (auto simp: installs_only_def Some elim!: list.pred_mono_strong)
qed

text \<open>C4. Writing ahead: in one run of the upgrade machine an installation is only started after a
  patch that records the attempt (state InFlight, at the current generation) was accepted, with
  the image that the spec asks for; and a reset only after a patch that records the failure was
  accepted. A crash between the two leaves a status that says what was under way. No
  configuration is applied.\<close>

theorem ensureTalosVersion_writes_ahead:
  assumes "run_state (ensureTalosVersion r env helper machine) s = (a, s')"
  shows "\<exists>es. log s' = log s @ es \<and>
      guarded is_install (accepted_patch recorded_intent) es \<and>
      guarded is_reset (accepted_patch recorded_failure) es \<and>
      list_all (\<lambda>e. \<not> is_apply e \<and> (\<forall>c i p. e = Talos (EvLifecycleUpgrade c i p) \<longrightarrow>
        mDesiredTalosVersion (mSpec (obj s)) = Some i)) es"
proof -
  obtain es where "log s' = log s @ es" "guarded is_install (accepted_patch recorded_intent) es"
    by (rule guards_run [OF guards_ensure_installs assms])
  moreover obtain es' where "log s' = log s @ es'" "guarded is_reset (accepted_patch recorded_failure) es'"
    by (rule guards_run [OF guards_ensure_resets assms])
  ultimately show ?thesis using wp_run [OF ensure_installs_only assms] by auto
qed


section \<open>Completion needs evidence of the reboot\<close>

definition rebooted :: "byot_machine \<Rightarrow> event list \<Rightarrow> bool" where
  "rebooted m es \<longleftrightarrow>
     (\<exists>c b. Talos (EvReadFile c bootIDPath (Inr b)) \<in> set es \<and> trim_space b \<noteq> [] \<and>
        mUpgradePreRebootBootID (mStatus m) \<noteq> [] \<and> trim_space b \<noteq> mUpgradePreRebootBootID (mStatus m)) \<or>
     (\<exists>c vi rest. Talos (EvVersion c (Inr (Some vi # rest))) \<in> set es \<and> viTag vi \<noteq> [] \<and>
        viTag vi \<noteq> mCurrentTalosVersion (mStatus m))"

lemma rebooted_mono: "rebooted m es \<Longrightarrow> set es \<subseteq> set es' \<Longrightarrow> rebooted m es'"
  unfolding rebooted_def by blast

lemma rebooted_append: "rebooted m es \<Longrightarrow> rebooted m (es @ es')"
  by (erule rebooted_mono) simp

lemma versionProbe_wp:
  "wp (versionProbeAuthenticated env eps cfg) (\<lambda>a s'. obj s' = obj s \<and> (\<exists>es. log s' = log s @ es \<and>
      (\<forall>tag. a = Inr tag \<longrightarrow> (\<exists>c vi rest. Talos (EvVersion c (Inr (Some vi # rest))) \<in> set es \<and> viTag vi = tag)))) s"
  by (auto simp: versionProbeAuthenticated_def versionProbeWithClient_def authenticatedClient_def
      dial_def wp_simps split: option.splits sum.splits list.splits)

lemma bootID_wp:
  "wp (bootIDAuthenticated env eps cfg) (\<lambda>a s'. obj s' = obj s \<and> (\<exists>es. log s' = log s @ es \<and>
      (\<forall>bid. a = (bid, None) \<longrightarrow> (\<exists>c b. Talos (EvReadFile c bootIDPath (Inr b)) \<in> set es \<and> trim_space b = bid)))) s"
  by (auto simp: bootIDAuthenticated_def readBootID_def authenticatedClient_def
      dial_def wp_simps split: option.splits sum.splits)

definition completed_post :: "byot_machine \<Rightarrow> (byot_machine, event) gst \<Rightarrow> (byot_machine, event) gst \<Rightarrow> bool" where
  "completed_post m s s' \<longleftrightarrow>
     (\<exists>es. log s' = log s @ es \<and> (mUpgradeState (mStatus (obj s')) = NoUpgrade \<longrightarrow> rebooted m es))"

lemma completed_post_later:
  "completed_post m t s' \<Longrightarrow> log t = log s @ es \<Longrightarrow> completed_post m s s'"
  unfolding completed_post_def
  by (elim exE conjE, rule_tac x = "es @ esa" in exI) (auto elim: rebooted_mono)

text \<open>Steps that never complete: they keep the upgrade state or end in Failed.\<close>

definition stays :: "(byot_machine, event) gst \<Rightarrow> (byot_machine, event) gst \<Rightarrow> bool" where
  "stays s s' \<longleftrightarrow> (\<exists>es. log s' = log s @ es) \<and>
     mUpgradeState (mStatus (obj s')) \<in> {mUpgradeState (mStatus (obj s)), UpgradeFailed}"

interpretation unfinished: stepwise stays
  by unfold_locales (auto simp: stays_def)

lemma resetAdopted_kept: "keeps (resetAdoptedHostImpl env)" "emits (\<lambda>_. True) (resetAdoptedHostImpl env)"
  unfolding resetAdoptedHostImpl_def
  by (intro keeps_intros, intro emits_intros emits_anything [OF emits_attemptReset], simp)

lemma finalize_stays: "unfinished.steps (finalizeUpgradeFailure r env reason err)"
  unfolding finalizeUpgradeFailure_def stampGeneration_def patchMachine_def
  by (intro unfinished.steps_intros unfinished.steps_kept [OF resetAdopted_kept] unfinished.steps_modify)
     (auto simp: stays_def markMachineFalse_def)

lemma record_stays: "unfinished.steps (recordUpgradeProbeFailure r env helper thr reason err rst)"
  unfolding recordUpgradeProbeFailure_def stampGeneration_def patchMachine_def
  by (intro unfinished.steps_intros finalize_stays unfinished.steps_modify)
     (auto simp: stays_def markMachineFalse_def)

lemma pollAgain_stays: "unfinished.steps (pollAgain r env helper)"
  unfolding pollAgain_def patchMachine_def by (intro unfinished.steps_intros)

lemma stays_completed:
  assumes "unfinished.steps m'" and "mUpgradeState (mStatus (obj t)) \<noteq> NoUpgrade"
  shows "wp m' (\<lambda>_. completed_post m t) t"
proof (rule wp_mono)
  show "wp m' (\<lambda>_. stays t) t" using assms(1) by (simp add: unfinished.steps_def)
qed (use assms(2) in \<open>auto simp: stays_def completed_post_def\<close>)

text \<open>The way to completion.\<close>

lemma markUpgradeComplete_post:
  assumes "rebooted m es" and "log t = log s @ es"
  shows "wp (markUpgradeComplete env helper) (\<lambda>_. completed_post m s) t"
proof -
  have "emits (\<lambda>_. True) (markUpgradeComplete env helper)"
    by (rule emits_anything [OF undisturbed_upgrade_steps(6)])
  then have "wp (markUpgradeComplete env helper) (\<lambda>_ s'. \<exists>es'. log s' = log t @ es' \<and> list_all (\<lambda>_. True) es') t"
    by (simp add: emits_def)
  then show ?thesis
    by (rule wp_mono)
       (use assms in \<open>auto simp: completed_post_def rebooted_append\<close>)
qed

lemma fallback_post:
  assumes "mUpgradeState (mStatus (obj s)) \<noteq> NoUpgrade"
  shows "wp (upgradeInFlightVersionFallback r env helper eps cfg) (\<lambda>_. completed_post (obj s) s) s"
  unfolding upgradeInFlightVersionFallback_def Let_def
proof (rule wp_get_objI, rule wp_bindI [OF versionProbe_wp], elim conjE exE, rule wp_case_sumI)
  fix a :: "string res" and t :: "(byot_machine, event) gst" and es e
  assume t: "obj t = obj s" "log t = log s @ es"
  show "wp (recordUpgradeProbeFailure r env helper (upgradeThreshold r) ''UpgradeFailed'' e True)
     (\<lambda>_. completed_post (obj s) s) t"
    by (rule wp_mono [OF stays_completed [OF record_stays]])
       (use t assms in \<open>auto intro: completed_post_later\<close>)
next
  fix a :: "string res" and t :: "(byot_machine, event) gst" and es tag
  assume t: "obj t = obj s" "log t = log s @ es" and a: "a = Inr tag"
    and ev: "\<forall>tag. a = Inr tag \<longrightarrow> (\<exists>c vi rest. Talos (EvVersion c (Inr (Some vi # rest))) \<in> set es \<and> viTag vi = tag)"
  let ?u = "t\<lparr>obj := mStatus_update (\<lambda>st. st\<lparr>mCurrentTalosVersion := tag, mUpgradeProbeFailures := 0\<rparr>) (obj t)\<rparr>"
  have "wp (pollAgain r env helper) (\<lambda>_. completed_post (obj s) s) ?u"
    by (rule wp_mono [OF stays_completed [OF pollAgain_stays]])
       (use t assms in \<open>auto intro: completed_post_later\<close>)
  moreover have "wp (markUpgradeComplete env helper) (\<lambda>_. completed_post (obj s) s) ?u"
    if "tag \<noteq> []" "tag \<noteq> mCurrentTalosVersion (mStatus (obj s))"
  proof (rule markUpgradeComplete_post [where es = es])
    show "rebooted (obj s) es" using ev a that unfolding rebooted_def by blast
  qed (use t in simp)
  ultimately show "wp (do { mod_machine (\<lambda>st. st\<lparr>mCurrentTalosVersion := tag, mUpgradeProbeFailures := 0\<rparr>);
       if tag = '''' \<or> tag = mCurrentTalosVersion (mStatus (obj s)) then pollAgain r env helper
       else markUpgradeComplete env helper }) (\<lambda>_. completed_post (obj s) s) t"
    by (simp add: wp_bind wp_modify_obj)
qed

lemma bootIDGate_post:
  assumes "mUpgradeState (mStatus (obj s)) \<noteq> NoUpgrade" and "mUpgradePreRebootBootID (mStatus (obj s)) \<noteq> []"
  shows "wp (upgradeInFlightBootIDGate r env helper eps cfg (mUpgradePreRebootBootID (mStatus (obj s))))
     (\<lambda>_. completed_post (obj s) s) s"
  unfolding upgradeInFlightBootIDGate_def
proof (rule wp_bindI [OF bootID_wp], elim conjE exE)
  fix live :: "string \<times> goerr option" and t :: "(byot_machine, event) gst" and es
  assume t: "obj t = obj s" "log t = log s @ es"
    and ev: "\<forall>bid. live = (bid, None) \<longrightarrow> (\<exists>c b. Talos (EvReadFile c bootIDPath (Inr b)) \<in> set es \<and> trim_space b = bid)"
  have lift: "wp m (\<lambda>_. completed_post (obj s) s) t" if "wp m (\<lambda>_. completed_post (obj t) t) t" for m :: "(byot_machine, 'a) act"
    by (rule wp_mono [OF that]) (use t in \<open>auto intro: completed_post_later\<close>)
  have live': "mUpgradeState (mStatus (obj t)) \<noteq> NoUpgrade" using t assms(1) by simp
  have fb: "wp (upgradeInFlightVersionFallback r env helper eps cfg) (\<lambda>_. completed_post (obj s) s) t"
    by (rule lift [OF fallback_post [OF live']])
  have rec: "wp (recordUpgradeProbeFailure r env helper thr why e rst) (\<lambda>_. completed_post (obj s) s) t" for thr why e rst
    by (rule lift [OF stays_completed [OF record_stays live']])
  have poll: "wp (pollAgain r env helper) (\<lambda>_. completed_post (obj s) s) t"
    by (rule lift [OF stays_completed [OF pollAgain_stays live']])
  have completed: "wp (do { probed \<leftarrow> versionProbeAuthenticated env eps cfg;
                            mod_machine (\<lambda>st. case probed of
                                Inl _ \<Rightarrow> st
                              | Inr tag \<Rightarrow> if tag \<noteq> '''' then st\<lparr>mCurrentTalosVersion := tag\<rparr> else st);
                            markUpgradeComplete env helper }) (\<lambda>_. completed_post (obj s) s) t"
    if "rebooted (obj s) es"
  proof (rule wp_bindI [OF versionProbe_wp], elim conjE exE)
    fix probed :: "string res" and u :: "(byot_machine, event) gst" and es2
    assume "obj u = obj t" "log u = log t @ es2"
    then show "wp (do { _ \<leftarrow> mod_machine (\<lambda>st. case probed of
                                Inl _ \<Rightarrow> st
                              | Inr tag \<Rightarrow> if tag \<noteq> '''' then st\<lparr>mCurrentTalosVersion := tag\<rparr> else st);
                            markUpgradeComplete env helper }) (\<lambda>_. completed_post (obj s) s) u"
      unfolding wp_bind wp_modify_obj
      by (intro markUpgradeComplete_post [where es = "es @ es2"] rebooted_append that) (simp add: t)
  qed
  have evid: "rebooted (obj s) es" if "live = (bid, None)" "bid \<noteq> []" "bid \<noteq> mUpgradePreRebootBootID (mStatus (obj s))" for bid
    using ev that assms(2) unfolding rebooted_def by blast
  obtain bid err where live: "live = (bid, err)" by (cases live)
  show "wp (case live of (liveBootID, bootErr) \<Rightarrow>
        case bootErr of
          None \<Rightarrow>
            if liveBootID \<noteq> '''' \<and> liveBootID \<noteq> mUpgradePreRebootBootID (mStatus (obj s))
            then do { probed \<leftarrow> versionProbeAuthenticated env eps cfg;
                      mod_machine (\<lambda>st. case probed of
                          Inl _ \<Rightarrow> st
                        | Inr tag \<Rightarrow> if tag \<noteq> '''' then st\<lparr>mCurrentTalosVersion := tag\<rparr> else st);
                      markUpgradeComplete env helper }
            else pollAgain r env helper
        | Some err \<Rightarrow>
            if errors_is err ErrBootIDUnauthorized
            then upgradeInFlightVersionFallback r env helper eps cfg
            else recordUpgradeProbeFailure r env helper (upgradeThreshold r) ''UpgradeFailed'' err True)
      (\<lambda>_. completed_post (obj s) s) t"
    using completed evid poll fb rec by (auto simp: live split: option.split)
qed

lemma await_wp:
  "wp (awaitClusterTalosConfig r env c) (\<lambda>_ s'. obj s' = obj s \<and> (\<exists>es. log s' = log s @ es)) s"
proof (rule wp_opaque [of "\<lambda>_. True"])
  show "emits (\<lambda>_. True) (awaitClusterTalosConfig r env c)"
    by (rule emits_anything [OF undisturbed_upgrade_steps(1)])
  show "keeps (awaitClusterTalosConfig r env c)"
    unfolding awaitClusterTalosConfig_def by (intro keeps_intros)
qed auto

lemma upgradeInFlight_post:
  assumes "mUpgradeState (mStatus (obj s)) \<noteq> NoUpgrade"
  shows "wp (upgradeInFlight r env helper machine) (\<lambda>_. completed_post (obj s) s) s"
  unfolding upgradeInFlight_def
proof (rule wp_try_orI [OF await_wp]; elim conjE exE)
  fix e :: goerr and es and t :: "(byot_machine, event) gst"
  assume t: "obj t = obj s" "log t = log s @ es"
  then show "completed_post (obj s) s t" using assms by (simp add: completed_post_def)
next
  fix await :: "bytes awaited" and es and t :: "(byot_machine, event) gst"
  assume t: "obj t = obj s" "log t = log s @ es"
  then have live: "mUpgradeState (mStatus (obj t)) \<noteq> NoUpgrade" using assms by simp
  have lift: "wp m (\<lambda>_. completed_post (obj s) s) t" if "wp m (\<lambda>_. completed_post (obj t) t) t" for m :: "(byot_machine, 'a) act"
    by (rule wp_mono [OF that]) (use t in \<open>auto intro: completed_post_later\<close>)
  show "wp (case await of
         Wait result \<Rightarrow> ret (Inr (result, True))
       | Have talosConfig \<Rightarrow>
           do { m \<leftarrow> get_obj;
                if mUpgradePreRebootBootID (mStatus m) \<noteq> ''''
                then upgradeInFlightBootIDGate r env helper (machineEndpoints m) talosConfig
                       (mUpgradePreRebootBootID (mStatus m))
                else upgradeInFlightVersionFallback r env helper (machineEndpoints m) talosConfig })
     (\<lambda>_. completed_post (obj s) s) t"
    by (rule lift)
       (auto simp: wp_ret completed_post_def [of "obj t" t t] live split: awaited.split
          intro!: wp_get_objI wp_ifI fallback_post bootIDGate_post live)
qed

text \<open>C20. Completion needs evidence: an upgrade in flight is only marked complete in a run in which
  the machine reported a boot-id that differs from the one stored before the reboot, or a
  version that differs from the one recorded before the upgrade.\<close>

theorem upgrade_completes_on_evidence:
  assumes "mUpgradeState (mStatus (obj s)) = InFlight"
    and "run_state (ensureTalosVersion r env helper machine) s = (a, s')"
    and "mUpgradeState (mStatus (obj s')) = NoUpgrade"
  shows "\<exists>es. log s' = log s @ es \<and> rebooted (obj s) es"
proof -
  have live: "mUpgradeState (mStatus (obj s)) \<noteq> NoUpgrade" using assms(1) by simp
  have idle: "completed_post (obj s) s s" using live by (simp add: completed_post_def)
  have "wp (ensureTalosVersion r env helper machine) (\<lambda>_. completed_post (obj s) s) s"
    unfolding ensureTalosVersion_def retriggerStaleUpgradeFailure_def
    using upgradeInFlight_post [OF live] idle
    by (auto simp: wp_simps assms(1) split: option.split)
  from wp_run [OF this assms(2)] assms(3) show ?thesis by (simp add: completed_post_def)
qed

text \<open>When nothing is to be done.\<close>

definition stays_clear :: "(byot_machine, event) gst \<Rightarrow> (byot_machine, event) gst \<Rightarrow> bool" where
  "stays_clear s s' \<longleftrightarrow>
     (mUpgradeState (mStatus (obj s)) = NoUpgrade \<longrightarrow> mUpgradeState (mStatus (obj s')) = NoUpgrade)"

interpretation clear: stepwise stays_clear
  by unfold_locales (auto simp: stays_clear_def)

lemma syncHost_kept: "keeps (syncHostTalosVersion env)" "emits (\<lambda>_. True) (syncHostTalosVersion env)"
  unfolding syncHostTalosVersion_def Let_def by (intro keeps_intros, intro emits_intros TrueI)

lemma markUpgradeComplete_clear: "clear.steps (markUpgradeComplete env helper)"
  unfolding markUpgradeComplete_def stampGeneration_def patchMachine_def
  by (intro clear.steps_intros clear.steps_kept [OF syncHost_kept] clear.steps_modify)
     (auto simp: stays_clear_def split: option.split)

lemma markUpgradeComplete_quiet: "emits (\<lambda>e. \<not> talos_only e) (markUpgradeComplete env helper)"
  unfolding markUpgradeComplete_def stampGeneration_def syncHostTalosVersion_def Let_def
  by (intro emits_intros; simp)

lemma ensureTalosVersion_applied:
  assumes "mUpgradeState (mStatus (obj s)) = NoUpgrade"
    and "mDesiredTalosVersion (mSpec (obj s)) = Some d" and "upgradeAlreadyApplied (obj s) d"
  shows "wp (ensureTalosVersion r env helper machine) (\<lambda>_ s'. stays_clear s s' \<and>
       (\<exists>es. log s' = log s @ es \<and> list_all (\<lambda>e. \<not> talos_only e) es)) s"
proof -
  have "wp (markUpgradeComplete env helper) (\<lambda>_ s'. stays_clear s s' \<and>
       (\<exists>es. log s' = log s @ es \<and> list_all (\<lambda>e. \<not> talos_only e) es)) s"
    using markUpgradeComplete_clear markUpgradeComplete_quiet
    by (intro wp_conj) (simp_all add: clear.steps_def emits_def)
  then show ?thesis
    unfolding ensureTalosVersion_def retriggerStaleUpgradeFailure_def
    by (simp add: wp_simps assms stays_clear_def)
qed

text \<open>When nothing is to be done the machine is not contacted: without a desired version, or
  before the machine is adopted, the run changes nothing and calls nothing; when the desired
  image was already applied at this generation, it makes no Talos call and keeps the upgrade
  state clear.\<close>

theorem ensureTalosVersion_idle:
  assumes "run_state (ensureTalosVersion r env helper machine) s = (a, s')"
  shows "(mDesiredTalosVersion (mSpec (obj s)) \<in> {None, Some ''''} \<or> \<not> mReady (mStatus (obj s)) \<longrightarrow>
            (a, s') = (Inr (no_result, False), s)) \<and>
    (mUpgradeState (mStatus (obj s)) = NoUpgrade \<and>
       (\<exists>d. mDesiredTalosVersion (mSpec (obj s)) = Some d \<and> upgradeAlreadyApplied (obj s) d) \<longrightarrow>
       mUpgradeState (mStatus (obj s')) = NoUpgrade \<and>
       (\<exists>es. log s' = log s @ es \<and> list_all (\<lambda>e. \<not> talos_only e) es))"
proof (rule conjI; rule impI)
  assume "mDesiredTalosVersion (mSpec (obj s)) \<in> {None, Some ''''} \<or> \<not> mReady (mStatus (obj s))"
  then have "wp (ensureTalosVersion r env helper machine) (\<lambda>a s'. (a, s') = (Inr (no_result, False), s)) s"
    by (auto simp: ensureTalosVersion_def wp_simps split: option.split)
  from wp_run [OF this assms] show "(a, s') = (Inr (no_result, False), s)" .
next
  assume "mUpgradeState (mStatus (obj s)) = NoUpgrade \<and>
       (\<exists>d. mDesiredTalosVersion (mSpec (obj s)) = Some d \<and> upgradeAlreadyApplied (obj s) d)"
  then show "mUpgradeState (mStatus (obj s')) = NoUpgrade \<and>
       (\<exists>es. log s' = log s @ es \<and> list_all (\<lambda>e. \<not> talos_only e) es)"
    using wp_run [OF ensureTalosVersion_applied assms] by (auto simp: stays_clear_def)
qed

section \<open>Where a completion is booked\<close>

text \<open>Whenever the upgrade state is clear, the desired image counts as applied at this generation:
  every step of an upgrade in flight keeps that.\<close>

definition booked :: "byot_machine \<Rightarrow> bool" where
  "booked m \<longleftrightarrow> (mUpgradeState (mStatus m) = NoUpgrade \<longrightarrow>
     (\<forall>d. mDesiredTalosVersion (mSpec m) = Some d \<longrightarrow> upgradeAlreadyApplied m d))"

definition books :: "(byot_machine, event) gst \<Rightarrow> (byot_machine, event) gst \<Rightarrow> bool" where
  "books s s' \<longleftrightarrow> mSpec (obj s') = mSpec (obj s) \<and> mMeta (obj s') = mMeta (obj s) \<and>
     (booked (obj s) \<longrightarrow> booked (obj s'))"

interpretation booking: stepwise books
  by unfold_locales (auto simp: books_def)

lemma books_status:
  "(\<And>st. mUpgradeState (f st) \<in> {mUpgradeState st, UpgradeFailed, InFlight}) \<Longrightarrow>
   (\<And>st. mUpgradeAppliedImageRef (f st) = mUpgradeAppliedImageRef st) \<Longrightarrow>
   (\<And>st. mUpgradeAttemptGeneration (f st) = mUpgradeAttemptGeneration st) \<Longrightarrow>
   books s (s\<lparr>obj := mStatus_update f (obj s)\<rparr>)"
  unfolding books_def booked_def upgradeAlreadyApplied_def
  by (simp, metis insertE singletonD upgrade_state.distinct(1,3))

lemma stampGeneration_books: "booking.steps stampGeneration"
  unfolding stampGeneration_def
  by (rule booking.steps_modify) (auto simp: books_def booked_def upgradeAlreadyApplied_def)

lemma patchMachine_books: "booking.steps (patchMachine env helper own what)"
  unfolding patchMachine_def by (intro booking.steps_intros)

lemma await_books: "booking.steps (awaitClusterTalosConfig r env c)"
  by (rule booking.steps_kept [OF _ emits_anything [OF undisturbed_upgrade_steps(1)]])
     (unfold awaitClusterTalosConfig_def, intro keeps_intros)

lemma probes_book:
  "booking.steps (versionProbeAuthenticated env eps cfg)" "booking.steps (bootIDAuthenticated env eps cfg)"
  by (rule booking.steps_kept; intro keeps_intros emits_anything [OF undisturbed_upgrade_steps(8)]
      emits_anything [OF undisturbed_upgrade_steps(9)])+

lemma failure_books:
  "booking.steps (finalizeUpgradeFailure r env reason err)"
  "booking.steps (recordUpgradeProbeFailure r env helper thr reason err rst)"
proof -
  show fin: "booking.steps (finalizeUpgradeFailure r env reason err)" for reason err
    unfolding finalizeUpgradeFailure_def
    by (intro booking.steps_intros booking.steps_kept [OF resetAdopted_kept] patchMachine_books
        stampGeneration_books booking.steps_modify books_status)
       (auto simp: markMachineFalse_def)
  show "booking.steps (recordUpgradeProbeFailure r env helper thr reason err rst)"
    unfolding recordUpgradeProbeFailure_def
    by (intro booking.steps_intros patchMachine_books
        stampGeneration_books booking.steps_modify books_status fin)
       (auto simp: markMachineFalse_def)
qed

lemma markUpgradeComplete_books: "booking.steps (markUpgradeComplete env helper)"
proof -
  have rest: "booking.steps (do { mod_machine (\<lambda>st. st\<lparr>mConditions := l_cond_set env (mConditions st) upgraded_condition\<rparr>);
          try_or (patchMachine env helper [] ''failed to patch ByotMachine on upgrade complete'') id (\<lambda>_.
            try_or (syncHostTalosVersion env) id (\<lambda>_. ret (Inr (no_result, False)))) })"
    by (intro booking.steps_intros patchMachine_books booking.steps_kept [OF syncHost_kept]
        booking.steps_modify books_status) auto
  show ?thesis
    unfolding markUpgradeComplete_def stampGeneration_def booking.steps_def wp_bind wp_modify_obj
    by (intro allI wp_mono [OF rest [unfolded booking.steps_def wp_bind wp_modify_obj, THEN spec]])
       (auto simp: books_def booked_def upgradeAlreadyApplied_def split: option.splits)
qed

lemma upgradeInFlight_books: "booking.steps (upgradeInFlight r env helper machine)"
proof -
  have fb: "booking.steps (upgradeInFlightVersionFallback r env helper eps cfg)" for eps cfg
    unfolding upgradeInFlightVersionFallback_def Let_def pollAgain_def
    by (intro booking.steps_intros probes_book failure_books patchMachine_books
        markUpgradeComplete_books booking.steps_modify books_status) auto
  have gate: "booking.steps (upgradeInFlightBootIDGate r env helper eps cfg b)" for eps cfg b
    unfolding upgradeInFlightBootIDGate_def pollAgain_def
    by (intro booking.steps_intros probes_book failure_books patchMachine_books
        markUpgradeComplete_books booking.steps_modify books_status fb)
       (auto split: sum.split)
  have "booking.steps (case a of Wait result \<Rightarrow> ret (Inr (result, True))
      | Have talosConfig \<Rightarrow>
           do { m \<leftarrow> get_obj;
                if mUpgradePreRebootBootID (mStatus m) \<noteq> ''''
                then upgradeInFlightBootIDGate r env helper (machineEndpoints m) talosConfig
                       (mUpgradePreRebootBootID (mStatus m))
                else upgradeInFlightVersionFallback r env helper (machineEndpoints m) talosConfig })" for a
    by (cases a) (auto intro!: booking.steps_intros fb gate)
  then show ?thesis
    unfolding upgradeInFlight_def by (intro booking.steps_intros await_books)
qed

text \<open>C23. An upgrade in flight is booked under the image and generation that the spec has when it
  completes, and no image is installed in that run. An image that was edited in while the
  earlier one was being installed is thereby recorded as applied without ever being installed,
  and \<open>ensureTalosVersion\<close> does not issue it afterwards.\<close>

theorem completion_books_current_spec:
  assumes "mUpgradeState (mStatus (obj s)) = InFlight"
    and "mReady (mStatus (obj s))" and "mDesiredTalosVersion (mSpec (obj s)) = Some d" and "d \<noteq> ''''"
    and "run_state (ensureTalosVersion r env helper machine) s = (a, s')"
    and "mUpgradeState (mStatus (obj s')) = NoUpgrade"
  shows "upgradeAlreadyApplied (obj s') d \<and> mDesiredTalosVersion (mSpec (obj s')) = Some d \<and>
    (\<exists>es. log s' = log s @ es \<and> list_all (\<lambda>e. \<not> is_install e) es)"
proof -
  have red: "wp (ensureTalosVersion r env helper machine) Q s = wp (upgradeInFlight r env helper machine) Q s" for Q
    unfolding ensureTalosVersion_def retriggerStaleUpgradeFailure_def
    by (simp add: wp_simps assms(1-4))
  have "wp (upgradeInFlight r env helper machine) (\<lambda>_ s'. books s s' \<and>
      (\<exists>es. log s' = log s @ es \<and> list_all only_resets es)) s"
    using upgradeInFlight_books emits_inflight(3)
    by (intro wp_conj) (simp_all add: booking.steps_def emits_def)
  then have "wp (ensureTalosVersion r env helper machine) (\<lambda>_ s'. books s s' \<and>
      (\<exists>es. log s' = log s @ es \<and> list_all only_resets es)) s"
    by (simp only: red)
  from wp_run [OF this assms(5)] assms(1,3,6) show ?thesis
    by (auto simp: books_def booked_def only_resets_def elim!: list.pred_mono_strong)
qed

section \<open>An interrupted upgrade\<close>

primrec upgrade_rounds :: "byot_machine_reconciler \<Rightarrow> env \<Rightarrow> capi_machine \<Rightarrow> nat \<Rightarrow>
    (byot_machine, event) gst \<Rightarrow> (byot_machine, event) gst" where
  "upgrade_rounds r env machine 0 s = s"
| "upgrade_rounds r env machine (Suc n) s =
     (let t = upgrade_rounds r env machine n s
      in snd (run_state (ensureTalosVersion r env (obj t) machine) t))"

text \<open>The machine is reachable and still runs the version recorded before the upgrade.\<close>

definition answers_version :: "env \<Rightarrow> string \<Rightarrow> bool" where
  "answers_version env tag \<longleftrightarrow> (\<forall>h c. t_dial env h c = None) \<and>
     (\<forall>cfg. l_parse_talosconfig env cfg = None) \<and>
     (\<forall>h c. \<exists>arch. t_version env h c = Inr [Some \<lparr>viTag = tag, viArch = arch\<rparr>])"

text \<open>The state that the patch before the upgrade leaves: in flight, and no boot-id yet.\<close>

definition unissued :: "string \<Rightarrow> byot_machine \<Rightarrow> bool" where
  "unissued tag m \<longleftrightarrow> mUpgradeState (mStatus m) = InFlight \<and> mUpgradePreRebootBootID (mStatus m) = '''' \<and>
     mCurrentTalosVersion (mStatus m) = tag"

lemma probe_answered:
  assumes "answers_version env tag"
  shows "wp (versionProbeAuthenticated env eps cfg) (\<lambda>a s'. a = Inr tag \<and> obj s' = obj s \<and>
      (\<exists>es. log s' = log s @ es \<and> list_all (\<lambda>e. \<not> is_disruptive e) es)) s"
proof -
  from assms have "\<forall>h. \<exists>f. \<forall>c. t_version env h c = Inr [Some \<lparr>viTag = tag, viArch = f c\<rparr>]"
    unfolding answers_version_def by (intro allI choice) blast
  then obtain f where f: "t_version env h c = Inr [Some \<lparr>viTag = tag, viArch = f h c\<rparr>]" for h c
    using choice [of "\<lambda>h f. \<forall>c. t_version env h c = Inr [Some \<lparr>viTag = tag, viArch = f c\<rparr>]"] by blast
  from assms have "t_dial env h c = None" "l_parse_talosconfig env cfg = None" for h c cfg
    by (simp_all add: answers_version_def)
  with f have "wp (versionProbeAuthenticated env eps cfg) (\<lambda>a s'. a = Inr tag) s"
    by (simp add: versionProbeAuthenticated_def versionProbeWithClient_def
        authenticatedClient_def dial_def wp_simps)
  moreover have "wp (versionProbeAuthenticated env eps cfg) (\<lambda>a s'. obj s' = obj s) s"
    by (rule keeps_probes(8) [unfolded keeps_def, THEN spec])
  moreover have "wp (versionProbeAuthenticated env eps cfg)
      (\<lambda>_ s'. \<exists>es. log s' = log s @ es \<and> list_all (\<lambda>e. \<not> is_disruptive e) es) s"
    by (rule undisturbed_upgrade_steps(8) [unfolded emits_def, THEN spec])
  ultimately show ?thesis by (intro wp_conj)
qed

lemma unissued_round:
  assumes "answers_version env tag" and "unissued tag (obj s)"
  shows "wp (ensureTalosVersion r env helper machine) (\<lambda>_ s'. unissued tag (obj s') \<and>
      (\<exists>es. log s' = log s @ es \<and> list_all (\<lambda>e. \<not> is_disruptive e) es)) s"
    (is "wp _ ?Q s")
proof -
  have fb: "wp (upgradeInFlightVersionFallback r env helper eps cfg) ?Q t"
    if t: "obj t = obj s" "log t = log s @ es" "list_all (\<lambda>e. \<not> is_disruptive e) es" for t es eps cfg
    unfolding upgradeInFlightVersionFallback_def Let_def
  proof (intro wp_get_objI, rule wp_bindI [OF probe_answered [OF assms(1)]], elim conjE exE)
    fix a :: "string res" and u :: "(byot_machine, event) gst" and es'
    assume "a = Inr tag" "obj u = obj t" "log u = log t @ es'" "list_all (\<lambda>e. \<not> is_disruptive e) es'"
    with t assms(2)
    show "wp (case a of
            Inl probeErr \<Rightarrow> recordUpgradeProbeFailure r env helper (upgradeThreshold r)
                              ''UpgradeFailed'' probeErr True
          | Inr tag \<Rightarrow>
              do { mod_machine (\<lambda>st. st\<lparr>mCurrentTalosVersion := tag, mUpgradeProbeFailures := 0\<rparr>);
                   if tag = '''' \<or> tag = mCurrentTalosVersion (mStatus (obj t)) then pollAgain r env helper
                   else markUpgradeComplete env helper }) ?Q u"
      by (auto simp: pollAgain_def patchMachine_def wp_simps unissued_def split: option.split)
  qed
  have await: "wp (awaitClusterTalosConfig r env c) (\<lambda>_ s'. obj s' = obj s \<and>
      (\<exists>es. log s' = log s @ es \<and> list_all (\<lambda>e. \<not> is_disruptive e) es)) s" for c
  proof (rule wp_opaque [OF undisturbed_upgrade_steps(1)])
    show "keeps (awaitClusterTalosConfig r env c)"
      unfolding awaitClusterTalosConfig_def by (intro keeps_intros)
  qed auto
  have "wp (upgradeInFlight r env helper machine) ?Q s"
    unfolding upgradeInFlight_def
  proof (rule wp_try_orI [OF await]; elim conjE exE)
    fix e :: goerr and t :: "(byot_machine, event) gst" and es
    assume "obj t = obj s" "log t = log s @ es" "list_all (\<lambda>e. \<not> is_disruptive e) es"
    then show "?Q (Inl (id e)) t" using assms(2) by auto
  next
    fix await :: "bytes awaited" and t :: "(byot_machine, event) gst" and es
    assume t: "obj t = obj s" "log t = log s @ es" "list_all (\<lambda>e. \<not> is_disruptive e) es"
    then show "wp (case await of
         Wait result \<Rightarrow> ret (Inr (result, True))
       | Have talosConfig \<Rightarrow>
           do { m \<leftarrow> get_obj;
                if mUpgradePreRebootBootID (mStatus m) \<noteq> ''''
                then upgradeInFlightBootIDGate r env helper (machineEndpoints m) talosConfig
                       (mUpgradePreRebootBootID (mStatus m))
                else upgradeInFlightVersionFallback r env helper (machineEndpoints m) talosConfig }) ?Q t"
      using assms(2) fb [OF t]
      by (cases await) (auto simp: wp_ret unissued_def intro!: wp_get_objI)
  qed
  moreover have "?Q x s" for x using assms(2) by auto
  ultimately show ?thesis
    using assms(2) unfolding ensureTalosVersion_def retriggerStaleUpgradeFailure_def
    by (auto simp: wp_simps unissued_def split: option.split)
qed

text \<open>C22. A run that stops between the patch that records the attempt and the upgrade call is not
  repaired: as long as the machine answers with the version it had, any number of later runs
  leaves the upgrade in flight without a boot-id, and never issues it.\<close>

theorem interrupted_upgrade_never_issued:
  assumes "answers_version env tag" and "unissued tag (obj s)"
  shows "unissued tag (obj (upgrade_rounds r env machine n s)) \<and>
    (\<exists>es. log (upgrade_rounds r env machine n s) = log s @ es \<and> list_all (\<lambda>e. \<not> is_disruptive e) es)"
proof (induction n)
  case 0
  then show ?case using assms(2) by simp
next
  case (Suc n)
  let ?t = "upgrade_rounds r env machine n s"
  obtain a u where run: "run_state (ensureTalosVersion r env (obj ?t) machine) ?t = (a, u)" by fastforce
  from Suc obtain es where "log ?t = log s @ es" "list_all (\<lambda>e. \<not> is_disruptive e) es" by blast
  moreover from wp_run [OF unissued_round [OF assms(1) conjunct1 [OF Suc]] run]
  obtain es' where "unissued tag (obj u)" "log u = log ?t @ es'" "list_all (\<lambda>e. \<not> is_disruptive e) es'"
    by blast
  ultimately show ?case by (auto simp: Let_def run intro!: exI [of _ "es @ es'"])
qed


section \<open>Examples\<close>

text \<open>An adopted machine, the cluster's talosconfig in place, and an upgrade at some stage.\<close>

definition upgrade_env :: env where
  "upgrade_env = sample_env\<lparr>k_get_secret := \<lambda>h k. Inr (fmap_of_list [(talosConfigSecretDataKey, ''cfg'')]),
     l_parse_talosconfig := \<lambda>b. None\<rparr>"

definition owner :: capi_machine where
  "owner = \<lparr>cmMeta = sample_meta ''cm'' ''cm-uid'', cmClusterName = ''c'', cmDataSecretName = None,
            cmNodeRef = None\<rparr>"

definition upgrading :: "upgrade_state \<Rightarrow> string \<Rightarrow> string \<Rightarrow> byot_machine" where
  "upgrading state version bootID = sample_machine
     \<lparr>mSpec := (mSpec sample_machine)\<lparr>mDesiredTalosVersion := Some ''img''\<rparr>,
      mStatus := (mStatus sample_machine)\<lparr>mReady := True, mResolvedPublicIP := ''203.0.113.7'',
        mUpgradeState := state, mCurrentTalosVersion := version, mUpgradePreRebootBootID := bootID\<rparr>\<rparr>"

lemma ensureTalosVersion_writes_ahead_witness:
  "\<exists>es. log (snd (run_state (ensureTalosVersion NewByotMachineReconciler upgrade_env (upgrading NoUpgrade '''' '''') owner)
        (start (upgrading NoUpgrade '''' '''')))) = es \<and>
     guarded is_install (accepted_patch recorded_intent) es \<and>
     guarded is_reset (accepted_patch recorded_failure) es"
  using ensureTalosVersion_writes_ahead [where r = NewByotMachineReconciler and env = upgrade_env
      and helper = "upgrading NoUpgrade '''' ''''" and machine = owner
      and s = "start (upgrading NoUpgrade '''' '''')", OF prod.collapse [symmetric]]
  by auto

lemma ensureTalosVersion_idle_witness:
  "run_state (ensureTalosVersion NewByotMachineReconciler upgrade_env sample_machine owner) (start sample_machine)
     = (Inr (no_result, False), start sample_machine)"
  using ensureTalosVersion_idle [where r = NewByotMachineReconciler and env = upgrade_env
      and helper = sample_machine and machine = owner and s = "start sample_machine",
      OF prod.collapse [symmetric]]
  by (simp add: sample_machine_def)

lemma upgrade_env_answers:
  "k_get_secret upgrade_env h k = Inr (fmap_of_list [(talosConfigSecretDataKey, ''cfg'')])"
  "l_parse_talosconfig upgrade_env cfg = None" "t_dial upgrade_env h c = None"
  "t_version upgrade_env h c = Inr [Some \<lparr>viTag = ''v1.9.0'', viArch = ''amd64''\<rparr>]"
  "t_read_open upgrade_env h c p = None" "t_read_all upgrade_env h c p = Inr ''boot-1''"
  "t_read_close upgrade_env h c p = None" "k_patch_machine upgrade_env h b x own = None"
  by (simp_all add: upgrade_env_def sample_env_def)

lemma upgrading_fields:
  "mUpgradeState (mStatus (upgrading st v b)) = st" "mReady (mStatus (upgrading st v b))"
  "mDesiredTalosVersion (mSpec (upgrading st v b)) = Some ''img''"
  "mUpgradePreRebootBootID (mStatus (upgrading st v b)) = b"
  "mCurrentTalosVersion (mStatus (upgrading st v b)) = v"
  "mResolvedHost (mStatus (upgrading st v b)) = ''''"
  by (simp_all add: upgrading_def sample_machine_def)

lemma upgrading_completes:
  "wp (ensureTalosVersion NewByotMachineReconciler upgrade_env (upgrading InFlight ''v1.8.0'' ''boot-0'') owner)
     (\<lambda>_ s'. mUpgradeState (mStatus (obj s')) = NoUpgrade)
     (start (upgrading InFlight ''v1.8.0'' ''boot-0''))"
  unfolding ensureTalosVersion_def retriggerStaleUpgradeFailure_def upgradeInFlight_def
    awaitClusterTalosConfig_def clusterTalosConfig_def referencedTalosConfig_def
    upgradeInFlightBootIDGate_def bootIDAuthenticated_def readBootID_def versionProbeAuthenticated_def
    versionProbeWithClient_def authenticatedClient_def dial_def markUpgradeComplete_def
    stampGeneration_def patchMachine_def syncHostTalosVersion_def Let_def
  by (simp add: wp_simps upgrade_env_answers upgrading_fields trim_space_def is_space_def fmlookup_of_list)

lemma upgrade_completes_on_evidence_witness:
  "\<exists>es. log (snd (run_state (ensureTalosVersion NewByotMachineReconciler upgrade_env
        (upgrading InFlight ''v1.8.0'' ''boot-0'') owner) (start (upgrading InFlight ''v1.8.0'' ''boot-0'')))) = es \<and>
     rebooted (upgrading InFlight ''v1.8.0'' ''boot-0'') es"
  using upgrade_completes_on_evidence [OF _ prod.collapse [symmetric]
      wp_run [OF upgrading_completes prod.collapse [symmetric]]]
  by (simp add: upgrading_fields)

lemma completion_books_current_spec_witness:
  "upgradeAlreadyApplied (obj (snd (run_state (ensureTalosVersion NewByotMachineReconciler upgrade_env
        (upgrading InFlight ''v1.8.0'' ''boot-0'') owner) (start (upgrading InFlight ''v1.8.0'' ''boot-0''))))) ''img''"
  using completion_books_current_spec [OF _ _ _ _ prod.collapse [symmetric]
      wp_run [OF upgrading_completes prod.collapse [symmetric]], of "''img''"]
  by (simp add: upgrading_fields)

lemma interrupted_upgrade_never_issued_witness:
  "unissued ''v1.9.0'' (obj (upgrade_rounds NewByotMachineReconciler upgrade_env owner 5
      (start (upgrading InFlight ''v1.9.0'' ''''))))"
  using interrupted_upgrade_never_issued [of upgrade_env "''v1.9.0''" "start (upgrading InFlight ''v1.9.0'' '''')"
      NewByotMachineReconciler owner 5]
  by (simp add: answers_version_def unissued_def upgrade_env_answers upgrading_fields)

end
