(* ===== verification/MachineConfig.thy ===== *)
theory MachineConfig
  imports TalosClient Sample
begin

text \<open>
  The edits of the machine configuration before it is applied (\<open>talos_apply.go\<close>: install
  disk, machine and API server certSANs). A configuration is a stream of YAML documents; the
  edits are maps over the documents. The YAML codec itself is a parameter.

  The three edits share one contract, the locale \<open>doc_injector\<close>: a document without the
  section is left alone, other keys are kept, the value is present afterwards, values present
  before stay, and a value that is present already changes nothing.
\<close>

section \<open>Decoding and encoding\<close>

definition decodeMachineConfigDocs :: "'z lib_scheme \<Rightarrow> bytes \<Rightarrow> ydoc list res" where
  "decodeMachineConfigDocs L machineConfig =
     (let st = l_yaml_stream L machineConfig
      in case finish st of
           None \<Rightarrow> Inr (msgs st)
         | Some e \<Rightarrow> Inl (errorf ''failed to parse machine config'' e))"

fun encode_loop :: "'z lib_scheme \<Rightarrow> ydoc list \<Rightarrow> bytes list \<Rightarrow> bytes res" where
  "encode_loop L [] out =
     (case l_yaml_join L out of
        Inl e \<Rightarrow> Inl (errorf ''failed to flush machine config'' e)
      | Inr b \<Rightarrow> Inr b)"
| "encode_loop L (doc # docs) out =
     (case l_yaml_encode_doc L doc of
        Inl e \<Rightarrow> Inl (errorf ''failed to serialize machine config'' e)
      | Inr b \<Rightarrow> encode_loop L docs (out @ [b]))"

definition encodeMachineConfigDocs :: "'z lib_scheme \<Rightarrow> ydoc list \<Rightarrow> bytes res" where
  "encodeMachineConfigDocs L docs = encode_loop L docs []"


section \<open>The edits\<close>

text \<open>\<open>m[key].(map[string]any)\<close> and \<open>m[key].([]any)\<close>: nil unless the key holds one.\<close>

type_synonym ymap = "(string, yany) fmap"

definition map_at :: "string \<Rightarrow> ymap \<Rightarrow> ymap option" where
  "map_at k m = (case fmlookup m k of Some (YMap s) \<Rightarrow> Some s | _ \<Rightarrow> None)"

definition list_at :: "string \<Rightarrow> ymap \<Rightarrow> yany list" where
  "list_at k m = (case fmlookup m k of Some (YSeq xs) \<Rightarrow> xs | _ \<Rightarrow> [])"

definition containsStringAny :: "yany list \<Rightarrow> string \<Rightarrow> bool" where
  "containsStringAny values ipAddress = list_ex (\<lambda>v. v = YStr ipAddress) values"

definition map_or_empty :: "string \<Rightarrow> ymap \<Rightarrow> ymap" where
  "map_or_empty k m = (case map_at k m of None \<Rightarrow> fmempty | Some s \<Rightarrow> s)"

text \<open>Edit the map under a key of a document; nothing when there is none.\<close>

definition edit_section :: "string \<Rightarrow> (ymap \<Rightarrow> ymap) \<Rightarrow> ydoc \<Rightarrow> ydoc" where
  "edit_section k f doc =
     (case doc of
        None \<Rightarrow> None
      | Some m \<Rightarrow> (case map_at k m of None \<Rightarrow> Some m | Some s \<Rightarrow> Some (fmupd k (YMap (f s)) m)))"

definition put_disk :: "string \<Rightarrow> ymap \<Rightarrow> ymap" where
  "put_disk disk machine =
     (let install = map_or_empty ''install'' machine;
          install = (if fmlookup install ''disk'' = None \<and> fmlookup install ''diskSelector'' = None
                     then fmupd ''disk'' (YStr disk) install else install)
      in fmupd ''install'' (YMap install) machine)"

definition put_san :: "string \<Rightarrow> ymap \<Rightarrow> ymap" where
  "put_san ipAddress m =
     (let sans = list_at ''certSANs'' m in
      if containsStringAny sans ipAddress then m
      else fmupd ''certSANs'' (YSeq (sans @ [YStr ipAddress])) m)"

definition put_api_san :: "string \<Rightarrow> ymap \<Rightarrow> ymap" where
  "put_api_san ipAddress cluster =
     (let apiServer = map_or_empty ''apiServer'' cluster in
      if containsStringAny (list_at ''certSANs'' apiServer) ipAddress then cluster
      else fmupd ''apiServer'' (YMap (put_san ipAddress apiServer)) cluster)"

definition setInstallDisk :: "ydoc list \<Rightarrow> string \<Rightarrow> ydoc list" where
  "setInstallDisk docs disk = map (edit_section ''machine'' (put_disk disk)) docs"

definition setCertSANs :: "ydoc list \<Rightarrow> string \<Rightarrow> ydoc list" where
  "setCertSANs docs ipAddress = map (edit_section ''machine'' (put_san ipAddress)) docs"

definition setClusterAPIServerCertSANs :: "ydoc list \<Rightarrow> string \<Rightarrow> ydoc list" where
  "setClusterAPIServerCertSANs docs ipAddress =
     map (edit_section ''cluster'' (put_api_san ipAddress)) docs"

definition injectInstallDisk :: "'z lib_scheme \<Rightarrow> bytes \<Rightarrow> string \<Rightarrow> bytes res" where
  "injectInstallDisk L machineConfig disk =
     (case decodeMachineConfigDocs L machineConfig of
        Inl e \<Rightarrow> Inl e
      | Inr docs \<Rightarrow> encodeMachineConfigDocs L (setInstallDisk docs disk))"

definition injectCertSANs :: "'z lib_scheme \<Rightarrow> bytes \<Rightarrow> endpoints \<Rightarrow> bytes res" where
  "injectCertSANs L machineConfig ipAddresses =
     (case decodeMachineConfigDocs L machineConfig of
        Inl e \<Rightarrow> Inl e
      | Inr docs \<Rightarrow> encodeMachineConfigDocs L (foldl setCertSANs docs ipAddresses))"

definition injectClusterAPIServerCertSANs :: "'z lib_scheme \<Rightarrow> bytes \<Rightarrow> endpoints \<Rightarrow> bytes res" where
  "injectClusterAPIServerCertSANs L machineConfig ipAddresses =
     (case decodeMachineConfigDocs L machineConfig of
        Inl e \<Rightarrow> Inl e
      | Inr docs \<Rightarrow> encodeMachineConfigDocs L (foldl setClusterAPIServerCertSANs docs ipAddresses))"


section \<open>The contract of the edits\<close>

definition section_at :: "string \<Rightarrow> ydoc \<Rightarrow> ymap option" where
  "section_at k doc = (case doc of None \<Rightarrow> None | Some m \<Rightarrow> map_at k m)"

locale doc_injector =
  fixes key :: string
    and put :: "'v \<Rightarrow> ymap \<Rightarrow> ymap"
    and present :: "'v \<Rightarrow> ymap \<Rightarrow> bool"
  assumes established: "present v (put v s)"
    and stable: "present w s \<Longrightarrow> present w (put v s)"
    and settled: "present v s \<Longrightarrow> put v s = s"
begin

definition doc_has :: "'v \<Rightarrow> ydoc \<Rightarrow> bool" where
  "doc_has v doc \<longleftrightarrow> (\<forall>s. section_at key doc = Some s \<longrightarrow> present v s)"

lemma section_at_edit:
  "section_at key (edit_section key f doc) = map_option f (section_at key doc)"
  by (auto simp: section_at_def edit_section_def map_at_def split: option.splits yany.splits)

lemma edit_untouched: "section_at key doc = None \<Longrightarrow> edit_section key f doc = doc"
  by (simp add: section_at_def edit_section_def split: option.splits)

lemma edit_other_keys:
  "edit_section key f doc = Some m' \<Longrightarrow> \<exists>m. doc = Some m \<and> (\<forall>k. k \<noteq> key \<longrightarrow> fmlookup m' k = fmlookup m k)"
  by (cases doc) (auto simp: edit_section_def split: option.splits)

lemma edit_settled: "doc_has v doc \<Longrightarrow> edit_section key (put v) doc = doc"
  by (auto simp: doc_has_def edit_section_def section_at_def map_at_def settled
      split: option.splits yany.splits intro!: fmap_ext)

lemma doc_has_edit: "doc_has v (edit_section key (put v) doc)"
  by (auto simp: doc_has_def section_at_edit established)

lemma doc_has_stable: "doc_has w doc \<Longrightarrow> doc_has w (edit_section key (put v) doc)"
  by (auto simp: doc_has_def section_at_edit stable)

text \<open>A whole stream, and a list of values.\<close>

abbreviation inject :: "ydoc list \<Rightarrow> 'v \<Rightarrow> ydoc list" where
  "inject docs v \<equiv> map (edit_section key (put v)) docs"

lemma inject_all_stable:
  "list_all (doc_has w) docs \<Longrightarrow> list_all (doc_has w) (foldl inject docs vs)"
proof (induction vs arbitrary: docs)
  case (Cons v vs)
  then have "list_all (doc_has w) (inject docs v)" by (auto simp: list_all_iff doc_has_stable)
  with Cons.IH show ?case by simp
qed simp

lemma inject_all_has: "v \<in> set vs \<Longrightarrow> list_all (doc_has v) (foldl inject docs vs)"
proof (induction vs arbitrary: docs)
  case (Cons w vs)
  show ?case
  proof (cases "v = w")
    case True
    have "list_all (doc_has v) (inject docs v)" by (simp add: list_all_iff doc_has_edit)
    with True show ?thesis by (simp add: inject_all_stable)
  next
    case False
    with Cons show ?thesis by simp
  qed
qed simp

lemma inject_settled: "list_all (doc_has v) docs \<Longrightarrow> inject docs v = docs"
  by (induction docs) (auto simp: edit_settled)

lemma inject_all_settled: "\<forall>v \<in> set vs. list_all (doc_has v) docs \<Longrightarrow> foldl inject docs vs = docs"
  by (induction vs) (auto simp: inject_settled)

lemma inject_all_idem: "foldl inject (foldl inject docs vs) vs = foldl inject docs vs"
  by (rule inject_all_settled) (simp add: inject_all_has)

lemma inject_all_length: "length (foldl inject docs vs) = length docs"
  by (induction vs arbitrary: docs) auto

lemma inject_all_untouched:
  "i < length docs \<Longrightarrow> section_at key (docs ! i) = None \<Longrightarrow> foldl inject docs vs ! i = docs ! i"
  by (induction vs arbitrary: docs) (auto simp: edit_untouched)

lemma inject_all_other_keys:
  "i < length docs \<Longrightarrow> k \<noteq> key \<Longrightarrow>
     map_option (\<lambda>m. fmlookup m k) (foldl inject docs vs ! i) = map_option (\<lambda>m. fmlookup m k) (docs ! i)"
proof (induction vs arbitrary: docs)
  case (Cons v vs)
  have "map_option (\<lambda>m. fmlookup m k) (edit_section key (put v) d) = map_option (\<lambda>m. fmlookup m k) d" for d
    using Cons.prems(2) by (cases d) (auto simp: edit_section_def split: option.splits)
  with Cons show ?case by simp
qed simp

lemma inject_all_section:
  "i < length docs \<Longrightarrow> section_at key (foldl inject docs vs ! i) =
     map_option (\<lambda>s. foldl (\<lambda>s v. put v s) s vs) (section_at key (docs ! i))"
  by (induction vs arbitrary: docs) (simp_all add: section_at_edit option.map_comp o_def option.map_ident)

end


section \<open>The three edits are instances\<close>

definition has_disk :: "string \<Rightarrow> ymap \<Rightarrow> bool" where
  "has_disk disk machine \<longleftrightarrow>
     (case map_at ''install'' machine of
        None \<Rightarrow> False
      | Some i \<Rightarrow> fmlookup i ''disk'' \<noteq> None \<or> fmlookup i ''diskSelector'' \<noteq> None)"

definition has_san :: "string \<Rightarrow> ymap \<Rightarrow> bool" where
  "has_san ip m \<longleftrightarrow> YStr ip \<in> set (list_at ''certSANs'' m)"

definition has_api_san :: "string \<Rightarrow> ymap \<Rightarrow> bool" where
  "has_api_san ip cluster \<longleftrightarrow> has_san ip (map_or_empty ''apiServer'' cluster)"

lemma map_at_upd [simp]: "map_at k (fmupd k (YMap s) m) = Some s"
  by (simp add: map_at_def)

lemma map_or_empty_upd [simp]: "map_or_empty k (fmupd k (YMap s) m) = s"
  by (simp add: map_or_empty_def)

lemma list_at_upd [simp]: "list_at k (fmupd k (YSeq xs) m) = xs"
  by (simp add: list_at_def)

lemma fmupd_same: "fmlookup m k = Some v \<Longrightarrow> fmupd k v m = m"
  by (rule fmap_ext) auto

lemma map_at_SomeD: "map_at k m = Some s \<Longrightarrow> fmlookup m k = Some (YMap s)"
  by (auto simp: map_at_def split: option.splits yany.splits)

lemma contains_iff [simp]: "containsStringAny xs ip \<longleftrightarrow> YStr ip \<in> set xs"
  by (auto simp: containsStringAny_def list_ex_iff)

interpretation install_disk_edit: doc_injector "''machine''" put_disk has_disk
proof
  show "has_disk v (put_disk v s)" for v s
    by (auto simp: has_disk_def put_disk_def Let_def)
  show "has_disk w s \<Longrightarrow> has_disk w (put_disk v s)" for v w s
    by (auto simp: has_disk_def put_disk_def Let_def map_or_empty_def split: option.splits)
  show "has_disk v s \<Longrightarrow> put_disk v s = s" for v s
    by (auto simp: has_disk_def put_disk_def Let_def map_or_empty_def
        intro: fmupd_same dest: map_at_SomeD split: option.splits)
qed

interpretation cert_san_edit: doc_injector "''machine''" put_san has_san
proof
  show "has_san v (put_san v s)" for v s
    by (simp add: has_san_def put_san_def Let_def)
  show "has_san w s \<Longrightarrow> has_san w (put_san v s)" for v w s
    by (simp add: has_san_def put_san_def Let_def)
  show "has_san v s \<Longrightarrow> put_san v s = s" for v s
    by (simp add: has_san_def put_san_def Let_def)
qed

interpretation api_san_edit: doc_injector "''cluster''" put_api_san has_api_san
proof
  show "has_api_san v (put_api_san v s)" for v s
    using cert_san_edit.established by (simp add: has_api_san_def put_api_san_def Let_def has_san_def)
  show "has_api_san w s \<Longrightarrow> has_api_san w (put_api_san v s)" for v w s
    using cert_san_edit.stable by (simp add: has_api_san_def put_api_san_def Let_def has_san_def)
  show "has_api_san v s \<Longrightarrow> put_api_san v s = s" for v s
    by (simp add: has_api_san_def put_api_san_def Let_def has_san_def)
qed

section \<open>What the edits guarantee\<close>


lemma put_sans_prefix:
  "\<exists>new. list_at ''certSANs'' (foldl (\<lambda>s v. put_san v s) s ips) = list_at ''certSANs'' s @ map YStr new \<and>
     set new \<subseteq> set ips"
proof (induction ips arbitrary: s)
  case (Cons ip ips)
  obtain new where new: "list_at ''certSANs'' (foldl (\<lambda>s v. put_san v s) (put_san ip s) ips)
      = list_at ''certSANs'' (put_san ip s) @ map YStr new" "set new \<subseteq> set ips"
    using Cons.IH by blast
  show ?case
  proof (cases "YStr ip \<in> set (list_at ''certSANs'' s)")
    case True
    with new show ?thesis by (intro exI [of _ new]) (auto simp: put_san_def Let_def)
  next
    case False
    with new show ?thesis by (intro exI [of _ "ip # new"]) (auto simp: put_san_def Let_def)
  qed
qed simp

lemma setCertSANs_inject: "setCertSANs = (\<lambda>docs v. map (edit_section ''machine'' (put_san v)) docs)"
  by (intro ext) (simp add: setCertSANs_def)

lemma setAPISANs_inject:
  "setClusterAPIServerCertSANs = (\<lambda>docs v. map (edit_section ''cluster'' (put_api_san v)) docs)"
  by (intro ext) (simp add: setClusterAPIServerCertSANs_def)


text \<open>C32. Both SAN injections are idempotent on configurations: a configuration that came out of
  an injection is reproduced byte for byte by the same injection, given that the codec reads
  back the documents it wrote. (So a re-adoption does not drift the configuration.)\<close>

theorem injectSANs_idempotent:
  assumes "decodeMachineConfigDocs L mc = Inr docs"
    and "injectCertSANs L mc ips = Inr out"
    and "decodeMachineConfigDocs L out = Inr (foldl setCertSANs docs ips)"
    and "injectClusterAPIServerCertSANs L mc ips = Inr out2"
    and "decodeMachineConfigDocs L out2 = Inr (foldl setClusterAPIServerCertSANs docs ips)"
  shows "injectCertSANs L out ips = Inr out \<and> injectClusterAPIServerCertSANs L out2 ips = Inr out2"
proof
  show "injectCertSANs L out ips = Inr out"
    using assms(1-3) by (simp add: injectCertSANs_def setCertSANs_inject cert_san_edit.inject_all_idem)
  show "injectClusterAPIServerCertSANs L out2 ips = Inr out2"
    using assms(1,4,5)
    by (simp add: injectClusterAPIServerCertSANs_def setAPISANs_inject api_san_edit.inject_all_idem)
qed


section \<open>The theorems at a concrete configuration\<close>

text \<open>A machine document with one SAN of the operator, and a document of another kind.\<close>

definition sample_docs :: "ydoc list" where
  "sample_docs =
     [Some (fmap_of_list [(''machine'', YMap (fmap_of_list [(''certSANs'', YSeq [YStr ''10.0.0.1''])])),
                          (''cluster'', YMap fmempty)]),
      Some (fmap_of_list [(''kind'', YStr ''HostnameConfig'')])]"

lemma sample_docs_section:
  "section_at ''machine'' (sample_docs ! 0) = Some (fmap_of_list [(''certSANs'', YSeq [YStr ''10.0.0.1''])])"
  by (simp add: sample_docs_def section_at_def map_at_def fmlookup_of_list)



text \<open>A codec that knows two streams: the sample documents and the edited ones.\<close>

definition sample_codec :: lib where
  "sample_codec = sample_lib\<lparr>
     l_yaml_stream := \<lambda>b. \<lparr>msgs =
        (if b = ''in'' then sample_docs
         else if b = ''a'' then foldl setCertSANs sample_docs [''10.0.0.2'']
         else foldl setClusterAPIServerCertSANs sample_docs [''10.0.0.2'']), finish = None\<rparr>,
     l_yaml_encode_doc := \<lambda>d. Inr (case section_at ''machine'' d of
        None \<Rightarrow> ''''
      | Some m \<Rightarrow> if has_san ''10.0.0.2'' m then ''a'' else ''b'')\<rparr>"

lemma injectSANs_idempotent_witness:
  "injectCertSANs sample_codec ''a'' [''10.0.0.2''] = Inr ''a'' \<and>
   injectClusterAPIServerCertSANs sample_codec ''b'' [''10.0.0.2''] = Inr ''b''"
proof (rule injectSANs_idempotent)
  show "decodeMachineConfigDocs sample_codec ''in'' = Inr sample_docs"
    "decodeMachineConfigDocs sample_codec ''a'' = Inr (foldl setCertSANs sample_docs [''10.0.0.2''])"
    "decodeMachineConfigDocs sample_codec ''b'' =
       Inr (foldl setClusterAPIServerCertSANs sample_docs [''10.0.0.2''])"
    by (simp_all add: decodeMachineConfigDocs_def sample_codec_def)
  show "injectCertSANs sample_codec ''in'' [''10.0.0.2''] = Inr ''a''"
    by (simp add: injectCertSANs_def decodeMachineConfigDocs_def sample_codec_def sample_lib_def
        encodeMachineConfigDocs_def setCertSANs_def sample_docs_def edit_section_def map_at_def
        fmlookup_of_list put_san_def list_at_def section_at_def has_san_def)
  show "injectClusterAPIServerCertSANs sample_codec ''in'' [''10.0.0.2''] = Inr ''b''"
    by (simp add: injectClusterAPIServerCertSANs_def decodeMachineConfigDocs_def sample_codec_def
        sample_lib_def encodeMachineConfigDocs_def setClusterAPIServerCertSANs_def sample_docs_def
        edit_section_def map_at_def fmlookup_of_list put_api_san_def put_san_def list_at_def
        section_at_def has_san_def map_or_empty_def Let_def)
qed

end
