(* ===== verification/Adoption.thy ===== *)
theory Adoption
  imports Upgrade MachineConfig
begin

text \<open>
  What happens between a claim and an adopted machine (\<open>byotmachine_controller.go\<close>): the
  owner Machine and its bootstrap data, the join preflight that picks the credentials of the
  apply, the gate on the control plane, the edits of the configuration, and the bookkeeping
  after the apply. The apply itself is composed in theory MachineController.

  The preflight returns credentials and whether the machine carries this cluster's bundle
  (\<open>bundleMatch\<close>); nil credentials select the maintenance client.
\<close>

section \<open>Inputs\<close>

definition MachineAdoptedCondition :: string where
  "MachineAdoptedCondition = ''MachineAdopted''"

definition JoinPreflightCondition :: string where
  "JoinPreflightCondition = ''JoinPreflight''"

definition KubeletRestartNudgeCondition :: string where
  "KubeletRestartNudgeCondition = ''KubeletRestartNudge''"

definition bootstrapData :: "env \<Rightarrow> capi_machine \<Rightarrow> (byot_machine, bytes res) act" where
  "bootstrapData env machine =
     (case cmDataSecretName machine of
        None \<Rightarrow> ret (Inl ErrBootstrapDataNotReady)
      | Some name \<Rightarrow>
          (let secretKey = (oNamespace (cmMeta machine), name) in
           do { got \<leftarrow> kGetSecret env secretKey;
                ret (case got of
                   Inl err \<Rightarrow>
                     (if is_not_found err then Inl ErrBootstrapDataNotReady
                      else Inl (errorf (''failed to get bootstrap secret '' @ key_text secretKey) err))
                 | Inr secret \<Rightarrow>
                     (case fmlookup secret bootstrapSecretDataKey of
                        None \<Rightarrow> Inl ErrBootstrapDataEmpty
                      | Some data \<Rightarrow> (if data = [] then Inl ErrBootstrapDataEmpty else Inr data))) }))"

definition adoptionInputs ::
  "byot_machine_reconciler \<Rightarrow> env \<Rightarrow> (byot_machine, (capi_machine \<times> bytes) awaited res) act" where
  "adoptionInputs r env =
     do { byotMachine \<leftarrow> get_obj;
          try_or (kGetOwnerMachine env (mMeta byotMachine)) (errorf ''failed to get owner Machine'')
            (\<lambda>found. case found of
               None \<Rightarrow> ret (Inr (Wait (requeue_after (requeueAfterBootstrap r))))
             | Some machine \<Rightarrow>
                 do { got \<leftarrow> bootstrapData env machine;
                      ret (case got of
                         Inr machineConfig \<Rightarrow> Inr (Have (machine, machineConfig))
                       | Inl err \<Rightarrow>
                           (if errors_is err ErrBootstrapDataNotReady
                            then Inr (Wait (requeue_after (requeueAfterBootstrap r)))
                            else Inl err)) }) }"


section \<open>Join preflight\<close>

definition preflight_passed :: "string \<Rightarrow> condition" where
  "preflight_passed reason =
     \<lparr>cType = JoinPreflightCondition, cStatus = CondTrue, cReason = reason, cSeverity = SevNone,
      cMessage = ''''\<rparr>"

definition recordPreflightFailure ::
  "env \<Rightarrow> byot_machine \<Rightarrow> string \<Rightarrow> goerr \<Rightarrow> (byot_machine, goerr) act" where
  "recordPreflightFailure env helper reason preflightErr =
     do { mod_machine (markMachineFalse env JoinPreflightCondition reason SevError (error_text preflightErr));
          patched \<leftarrow> patchMachine env helper [] ''failed to patch ByotMachine after join preflight failure'';
          ret (case patched of Inl err \<Rightarrow> err | Inr _ \<Rightarrow> preflightErr) }"

definition preflightForeignMachine ::
  "byot_machine_reconciler \<Rightarrow> env \<Rightarrow> byot_machine \<Rightarrow> (byot_machine, bytes option awaited res) act" where
  "preflightForeignMachine r env helper =
     do { byotMachine \<leftarrow> get_obj;
          case mTalosConfigSecretRef (mSpec byotMachine) of
            None \<Rightarrow>
              do { err \<leftarrow> recordPreflightFailure env helper ''NoCredentials'' ErrJoinNoCredentials;
                   ret (Inl err) }
          | Some name \<Rightarrow>
              do { got \<leftarrow> referencedTalosConfig env name (oNamespace (mMeta byotMachine));
                   case got of
                     Inl err \<Rightarrow>
                       (if errors_is err ErrClusterTalosConfigNotReady
                        then ret (Inr (Wait (requeue_after (requeueAfterBootstrap r))))
                        else ret (Inl err))
                   | Inr talosConfig \<Rightarrow>
                       do { answers \<leftarrow> probeAuthenticated env (machineEndpoints byotMachine) talosConfig;
                            if answers
                            then do { err \<leftarrow> recordPreflightFailure env helper ''BundleMismatch'' ErrJoinBundleMismatch;
                                      ret (Inl err) }
                            else ret (Inr (Have (Some talosConfig))) } } }"

definition preflightJoin ::
  "byot_machine_reconciler \<Rightarrow> env \<Rightarrow> byot_machine \<Rightarrow> capi_machine
     \<Rightarrow> (byot_machine, (bytes option \<times> bool) awaited res) act" where
  "preflightJoin r env helper machine =
     do { byotMachine \<leftarrow> get_obj;
          let endpoints = machineEndpoints byotMachine;
          maintenance \<leftarrow> probeMaintenance env endpoints;
          if maintenance
          then do { mod_machine (\<lambda>st. st\<lparr>mConditions :=
                      l_cond_set env (mConditions st) (preflight_passed ''MaintenanceMode'')\<rparr>);
                    ret (Inr (Have (None, False))) }
          else do {
            got \<leftarrow> clusterTalosConfig env (cmClusterName machine) (oNamespace (mMeta byotMachine));
            case got of
              Inl err \<Rightarrow>
                (if errors_is err ErrClusterTalosConfigNotReady
                 then ret (Inr (Wait (requeue_after (requeueAfterBootstrap r))))
                 else ret (Inl err))
            | Inr talosConfig \<Rightarrow>
                do { ours \<leftarrow> probeAuthenticated env endpoints talosConfig;
                     if ours
                     then do { mod_machine (\<lambda>st. st\<lparr>mConditions :=
                                 l_cond_set env (mConditions st) (preflight_passed ''BundleMatch'')\<rparr>);
                               ret (Inr (Have (Some talosConfig, True))) }
                     else try_or (preflightForeignMachine r env helper) id (\<lambda>foreign.
                       ret (Inr (case foreign of
                                   Wait result \<Rightarrow> Wait result
                                 | Have cfg \<Rightarrow> Have (cfg, False)))) } } }"

definition resolveApplyAuth ::
  "byot_machine_reconciler \<Rightarrow> env \<Rightarrow> byot_machine \<Rightarrow> capi_machine
     \<Rightarrow> (byot_machine, (bytes option \<times> bool) awaited res) act" where
  "resolveApplyAuth r env helper machine =
     do { byotMachine \<leftarrow> get_obj;
          if mReady (mStatus byotMachine)
          then try_or (awaitClusterTalosConfig r env (cmClusterName machine)) id (\<lambda>await.
                 ret (Inr (case await of
                             Wait result \<Rightarrow> Wait result
                           | Have talosConfig \<Rightarrow> Have (Some talosConfig, True))))
          else preflightJoin r env helper machine }"


section \<open>The gate on the control plane\<close>

text \<open>Constants of Cluster API.\<close>

definition MachineControlPlaneLabel :: string where
  "MachineControlPlaneLabel = ''cluster.x-k8s.io/control-plane''"

definition ControlPlaneReadyCondition :: string where
  "ControlPlaneReadyCondition = ''ControlPlaneReady''"

definition clusterControlPlaneReady :: "env \<Rightarrow> string \<Rightarrow> string \<Rightarrow> (byot_machine, bool res) act" where
  "clusterControlPlaneReady env clusterName namespace =
     do { got \<leftarrow> kGetCapiCluster env (namespace, clusterName);
          ret (case got of
             Inl err \<Rightarrow>
               (if is_not_found err then Inr False
                else Inl (errorf (''failed to get Cluster '' @ namespace @ ''/'' @ clusterName) err))
           | Inr cluster \<Rightarrow> Inr (l_cond_is_true env (ccConditions cluster) ControlPlaneReadyCondition)) }"

definition awaitControlPlaneReady ::
  "byot_machine_reconciler \<Rightarrow> env \<Rightarrow> byot_machine \<Rightarrow> capi_machine
     \<Rightarrow> (byot_machine, unit awaited res) act" where
  "awaitControlPlaneReady r env helper machine =
     (if fmlookup (oLabels (cmMeta machine)) MachineControlPlaneLabel \<noteq> None
      then ret (Inr (Have ()))
      else do {
        byotMachine \<leftarrow> get_obj;
        try_or (clusterControlPlaneReady env (cmClusterName machine) (oNamespace (mMeta byotMachine))) id
          (\<lambda>ready.
             if ready then ret (Inr (Have ()))
             else do {
               mod_machine (markMachineFalse env MachineAdoptedCondition ''WaitingForControlPlane'' SevInfo
                 ''worker adoption is gated on the cluster control plane being Ready'');
               try_or (patchMachine env helper [] ''failed to patch ByotMachine'') id
                 (\<lambda>_. ret (Inr (Wait (requeue_after (requeueAfterBootstrap r))))) }) })"


section \<open>The configuration that is applied\<close>

definition resolveInstallDisk ::
  "env \<Rightarrow> bytes \<Rightarrow> bytes option \<Rightarrow> (byot_machine, bytes res) act" where
  "resolveInstallDisk env machineConfig talosConfig =
     do { byotMachine \<leftarrow> get_obj;
          let wanted = (case mInstallDisk (mSpec byotMachine) of None \<Rightarrow> '''' | Some d \<Rightarrow> d);
          installDisk \<leftarrow>
            (if wanted \<noteq> '''' then ret wanted
             else do { detected \<leftarrow> detectSystemDisk env (machineEndpoints byotMachine) talosConfig;
                       ret (case detected of Inl _ \<Rightarrow> '''' | Inr d \<Rightarrow> d) });
          if installDisk = '''' then ret (Inr machineConfig)
          else ret (injectInstallDisk env machineConfig installDisk) }"

definition injectHostCertSANs :: "'z lib_scheme \<Rightarrow> bytes \<Rightarrow> endpoints \<Rightarrow> bytes res" where
  "injectHostCertSANs L machineConfig endpoints =
     (case injectCertSANs L machineConfig endpoints of
        Inl e \<Rightarrow> Inl e
      | Inr config \<Rightarrow> injectClusterAPIServerCertSANs L config endpoints)"

definition recordApplyFailure ::
  "env \<Rightarrow> byot_machine \<Rightarrow> goerr \<Rightarrow> (byot_machine, goerr) act" where
  "recordApplyFailure env helper applyErr =
     do { mod_machine (markMachineFalse env MachineAdoptedCondition ''ApplyFailed'' SevWarning (error_text applyErr));
          patched \<leftarrow> patchMachine env helper [] ''failed to patch ByotMachine after apply failure'';
          ret (case patched of Inl err \<Rightarrow> err | Inr _ \<Rightarrow> applyErr) }"


section \<open>Bookkeeping\<close>

definition hex_digit :: "nat \<Rightarrow> char" where
  "hex_digit n = (if n < 10 then char_of (48 + n) else char_of (87 + n))"

text \<open>\<open>hex.EncodeToString\<close>.\<close>

definition hex_encode :: "bytes \<Rightarrow> string" where
  "hex_encode bs = concat (map (\<lambda>c. [hex_digit (of_char c div 16), hex_digit (of_char c mod 16)]) bs)"

definition sha256Hex :: "'z lib_scheme \<Rightarrow> bytes \<Rightarrow> string" where
  "sha256Hex L data = hex_encode (l_sha256 L data)"

definition configUnchanged :: "byot_machine \<Rightarrow> string \<Rightarrow> bool" where
  "configUnchanged byotMachine configHash \<longleftrightarrow>
     mReady (mStatus byotMachine) \<and> mProviderID (mSpec byotMachine) \<noteq> None \<and>
     mLastAppliedConfigSHA (mStatus byotMachine) = configHash"

definition markAdopted :: "env \<Rightarrow> string \<Rightarrow> byot_machine \<Rightarrow> byot_machine" where
  "markAdopted env configHash byotMachine =
     (let providerID = ProviderIDPrefix @ mResolvedPublicIP (mStatus byotMachine);
          addresses = [(MachineExternalIP, mResolvedPublicIP (mStatus byotMachine))] @
            (if mResolvedInternalIP (mStatus byotMachine) \<noteq> ''''
             then [(MachineInternalIP, mResolvedInternalIP (mStatus byotMachine))] else [])
      in byotMachine
         \<lparr>mSpec := (mSpec byotMachine)\<lparr>mProviderID := Some providerID\<rparr>,
          mStatus := markMachineTrue env MachineAdoptedCondition
            ((mStatus byotMachine)\<lparr>mReady := True, mLastAppliedConfigSHA := configHash,
               mAddresses := addresses\<rparr>)\<rparr>)"

text \<open>The restart of the kubelet after a re-adoption; its outcome is only recorded. A nil
  talosconfig is the empty document.\<close>

definition nudgeKubeletAfterReadopt ::
  "env \<Rightarrow> bytes option \<Rightarrow> bool \<Rightarrow> bool \<Rightarrow> (byot_machine, unit) act" where
  "nudgeKubeletAfterReadopt env talosConfig bundleMatch wasReady =
     (if \<not> bundleMatch \<or> wasReady then ret ()
      else do {
        byotMachine \<leftarrow> get_obj;
        let endpoints = machineEndpoints byotMachine;
        let cfg = (case talosConfig of None \<Rightarrow> [] | Some c \<Rightarrow> c);
        running \<leftarrow> serviceRunning env endpoints cfg kubeletServiceID;
        case running of
          Inl _ \<Rightarrow> ret ()
        | Inr isRunning \<Rightarrow>
            (if \<not> isRunning then ret ()
             else do {
               restarted \<leftarrow> restartService env endpoints cfg kubeletServiceID;
               case restarted of
                 Inl err \<Rightarrow> mod_machine (markMachineFalse env KubeletRestartNudgeCondition
                              ''RestartFailed'' SevWarning (error_text err))
               | Inr _ \<Rightarrow> mod_machine (markMachineTrue env KubeletRestartNudgeCondition) }) })"

section \<open>What the preflight establishes\<close>

text \<open>The machine answered a Version call of the client with these credentials.\<close>

definition answered :: "endpoints \<Rightarrow> bytes option \<Rightarrow> event list \<Rightarrow> bool" where
  "answered eps cfg es \<longleftrightarrow>
     (\<exists>v. Talos (EvVersion \<lparr>tcTalosConfig = cfg, tcEndpoints = eps\<rparr> (Inr v)) \<in> set es)"

definition held_secret :: "object_key \<Rightarrow> bytes \<Rightarrow> event list \<Rightarrow> bool" where
  "held_secret k cfg es \<longleftrightarrow>
     (\<exists>secret. Kube (EvGetSecret k (Inr secret)) \<in> set es \<and> fmlookup secret talosConfigSecretDataKey = Some cfg)"

lemma answered_simps [simp]:
  "\<not> answered eps cfg []"
  "answered eps cfg (Kube k # es) = answered eps cfg es"
  "answered eps cfg (Talos (EvDial c r) # es) = answered eps cfg es"
  "answered eps cfg (Talos (EvVersion c (Inl e)) # es) = answered eps cfg es"
  "answered eps cfg (Talos (EvVersion c (Inr v)) # es) \<longleftrightarrow>
     c = \<lparr>tcTalosConfig = cfg, tcEndpoints = eps\<rparr> \<or> answered eps cfg es"
  "answered eps cfg (es @ es') \<longleftrightarrow> answered eps cfg es \<or> answered eps cfg es'"
  by (auto simp: answered_def)

lemma held_secret_simps [simp]:
  "\<not> held_secret k cfg []"
  "held_secret k cfg (Talos t # es) = held_secret k cfg es"
  "held_secret k cfg (Kube (EvGetSecret k' (Inr secret)) # es) \<longleftrightarrow>
     k = k' \<and> fmlookup secret talosConfigSecretDataKey = Some cfg \<or> held_secret k cfg es"
  "held_secret k cfg (es @ es') \<longleftrightarrow> held_secret k cfg es \<or> held_secret k cfg es'"
  by (auto simp: held_secret_def)

lemma probe_wp:
  "wp (probeMaintenance env eps) (\<lambda>ok s'. obj s' = obj s \<and> (\<exists>es. log s' = log s @ es \<and>
      (ok \<longleftrightarrow> answered eps None es) \<and> (\<forall>cfg. \<not> answered eps (Some cfg) es))) s"
  "wp (probeAuthenticated env eps cfg) (\<lambda>ok s'. obj s' = obj s \<and> (\<exists>es. log s' = log s @ es \<and>
      (ok \<longleftrightarrow> answered eps (Some cfg) es) \<and> (\<forall>c. c \<noteq> Some cfg \<longrightarrow> \<not> answered eps c es))) s"
  unfolding probeMaintenance_def probeAuthenticated_def version_ok_def maintenanceClient_def
    authenticatedClient_def dial_def
  by (auto simp: wp_simps split: sum.split option.split)

lemma talosconfig_wp:
  "wp (referencedTalosConfig env name ns) (\<lambda>a s'. obj s' = obj s \<and> (\<exists>es. log s' = log s @ es \<and>
      (\<forall>eps c. \<not> answered eps c es) \<and>
      (case a of Inr cfg \<Rightarrow> held_secret (ns, name) cfg es \<and> cfg \<noteq> [] | Inl _ \<Rightarrow> True))) s"
  unfolding referencedTalosConfig_def
  by (auto simp: wp_simps held_secret_def answered_def split: sum.split option.split)

text \<open>The evidence for each pair of credentials and \<open>bundleMatch\<close>.\<close>

definition credentials_ok ::
  "byot_machine \<Rightarrow> capi_machine \<Rightarrow> bytes option \<Rightarrow> bool \<Rightarrow> event list \<Rightarrow> bool" where
  "credentials_ok m machine cfg bundleMatch es \<longleftrightarrow>
     (let eps = machineEndpoints m; ns = oNamespace (mMeta m) in
      case cfg of
        None \<Rightarrow> \<not> bundleMatch \<and> answered eps None es
      | Some c \<Rightarrow>
          \<not> answered eps None es \<and> c \<noteq> [] \<and>
          (if bundleMatch
           then answered eps (Some c) es \<and> held_secret (ns, cmClusterName machine @ clusterTalosConfigSecretSuffix) c es
           else (\<exists>n. mTalosConfigSecretRef (mSpec m) = Some n \<and> held_secret (ns, n) c es) \<and>
                \<not> answered eps (Some c) es))"

lemma machineEndpoints_status:
  "mResolvedInternalIP (mStatus m) = mResolvedInternalIP (mStatus m') \<Longrightarrow>
   mResolvedPublicIP (mStatus m) = mResolvedPublicIP (mStatus m') \<Longrightarrow> machineEndpoints m = machineEndpoints m'"
  by (simp add: machineEndpoints_def)

definition preflight_post ::
  "capi_machine \<Rightarrow> (byot_machine, event) gst \<Rightarrow> (bytes option \<times> bool) awaited res
     \<Rightarrow> (byot_machine, event) gst \<Rightarrow> bool" where
  "preflight_post machine s a s' \<longleftrightarrow> (\<exists>es. log s' = log s @ es \<and>
     (\<forall>cfg b. a = Inr (Have (cfg, b)) \<longrightarrow> credentials_ok (obj s) machine cfg b es) \<and>
     (answered (machineEndpoints (obj s)) None es \<longrightarrow> a = Inr (Have (None, False))))"

lemma recordPreflightFailure_wp:
  "wp (recordPreflightFailure env helper reason err) (\<lambda>_ s'. \<exists>es. log s' = log s @ es \<and>
      (\<forall>eps c. \<not> answered eps c es)) s"
  unfolding recordPreflightFailure_def patchMachine_def
  by (auto simp: wp_simps split: option.split sum.split)

lemma foreign_wp:
  "wp (preflightForeignMachine r env helper) (\<lambda>a s'. \<exists>es. log s' = log s @ es \<and>
      \<not> answered (machineEndpoints (obj s)) None es \<and>
      (\<forall>cfg. a = Inr (Have cfg) \<longrightarrow> (\<exists>c n. cfg = Some c \<and> c \<noteq> [] \<and> mTalosConfigSecretRef (mSpec (obj s)) = Some n \<and>
          held_secret (oNamespace (mMeta (obj s)), n) c es \<and> \<not> answered (machineEndpoints (obj s)) (Some c) es))) s"
    (is "wp _ ?Q s")
proof -
  have "wp (case ref of
            None \<Rightarrow>
              do { err \<leftarrow> recordPreflightFailure env helper ''NoCredentials'' ErrJoinNoCredentials;
                   ret (Inl err) }
          | Some name \<Rightarrow>
              do { got \<leftarrow> referencedTalosConfig env name (oNamespace (mMeta (obj s)));
                   case got of
                     Inl err \<Rightarrow>
                       (if errors_is err ErrClusterTalosConfigNotReady
                        then ret (Inr (Wait (requeue_after (requeueAfterBootstrap r))))
                        else ret (Inl err))
                   | Inr talosConfig \<Rightarrow>
                       do { answers \<leftarrow> probeAuthenticated env (machineEndpoints (obj s)) talosConfig;
                            if answers
                            then do { err \<leftarrow> recordPreflightFailure env helper ''BundleMismatch'' ErrJoinBundleMismatch;
                                      ret (Inl err) }
                            else ret (Inr (Have (Some talosConfig))) } }) ?Q s"
    if ref: "mTalosConfigSecretRef (mSpec (obj s)) = ref" for ref
  proof (cases ref)
    case None
    show ?thesis
      unfolding None option.case by (rule wp_bindI [OF recordPreflightFailure_wp]) (auto simp: wp_ret)
  next
    case (Some n)
    show ?thesis
      unfolding Some option.case
    proof (rule wp_bindI [OF talosconfig_wp], elim conjE exE, rule wp_case_sumI)
      fix a :: "bytes res" and t :: "(byot_machine, event) gst" and es e
      assume "log t = log s @ es" "\<forall>eps c. \<not> answered eps c es"
      then show "wp (if errors_is e ErrClusterTalosConfigNotReady
            then ret (Inr (Wait (requeue_after (requeueAfterBootstrap r)))) else ret (Inl e)) ?Q t"
        by (auto simp: wp_simps)
    next
      fix a :: "bytes res" and t :: "(byot_machine, event) gst" and es c
      assume t: "log t = log s @ es" "\<forall>eps c. \<not> answered eps c es"
        and a: "a = Inr c" "case a of Inr cfg \<Rightarrow> held_secret (oNamespace (mMeta (obj s)), n) cfg es \<and> cfg \<noteq> [] | Inl _ \<Rightarrow> True"
      show "wp (do { answers \<leftarrow> probeAuthenticated env (machineEndpoints (obj s)) c;
                     if answers
                     then do { err \<leftarrow> recordPreflightFailure env helper ''BundleMismatch'' ErrJoinBundleMismatch;
                               ret (Inl err) }
                     else ret (Inr (Have (Some c))) }) ?Q t"
      proof (rule wp_bindI [OF probe_wp(2)], elim conjE exE, rule wp_ifI)
        fix ok and u :: "(byot_machine, event) gst" and es'
        assume u: "log u = log t @ es'" "\<forall>c'. c' \<noteq> Some c \<longrightarrow> \<not> answered (machineEndpoints (obj s)) c' es'"
        show "wp (do { err \<leftarrow> recordPreflightFailure env helper ''BundleMismatch'' ErrJoinBundleMismatch;
                       ret (Inl err) }) ?Q u"
          by (rule wp_bindI [OF recordPreflightFailure_wp]) (use t u in \<open>auto simp: wp_ret\<close>)
      next
        fix ok and u :: "(byot_machine, event) gst" and es'
        assume "log u = log t @ es'" "\<forall>c'. c' \<noteq> Some c \<longrightarrow> \<not> answered (machineEndpoints (obj s)) c' es'"
          "ok = answered (machineEndpoints (obj s)) (Some c) es'" "\<not> ok"
        with t a show "wp (ret (Inr (Have (Some c)))) ?Q u" using ref Some by (auto simp: wp_ret)
      qed
    qed
  qed
  from this [OF refl] show ?thesis unfolding preflightForeignMachine_def by (rule wp_get_objI)
qed

lemma preflightJoin_wp: "wp (preflightJoin r env helper machine) (preflight_post machine s) s"
  unfolding preflightJoin_def Let_def
proof (rule wp_get_objI, rule wp_bindI [OF probe_wp(1)], elim conjE exE, rule wp_ifI)
  fix ok and t :: "(byot_machine, event) gst" and es
  assume "log t = log s @ es" "ok = answered (machineEndpoints (obj s)) None es" ok
  then show "wp (do { mod_machine (\<lambda>st. st\<lparr>mConditions :=
                 l_cond_set env (mConditions st) (preflight_passed ''MaintenanceMode'')\<rparr>);
               ret (Inr (Have (None, False))) }) (preflight_post machine s) t"
    by (simp add: wp_simps preflight_post_def credentials_ok_def)
next
  fix ok and t :: "(byot_machine, event) gst" and es
  assume t: "obj t = obj s" "log t = log s @ es" "ok = answered (machineEndpoints (obj s)) None es" "\<not> ok"
    "\<forall>cfg. \<not> answered (machineEndpoints (obj s)) (Some cfg) es"
  show "wp (do { got \<leftarrow> clusterTalosConfig env (cmClusterName machine) (oNamespace (mMeta (obj s)));
            case got of
              Inl err \<Rightarrow>
                (if errors_is err ErrClusterTalosConfigNotReady
                 then ret (Inr (Wait (requeue_after (requeueAfterBootstrap r))))
                 else ret (Inl err))
            | Inr talosConfig \<Rightarrow>
                do { ours \<leftarrow> probeAuthenticated env (machineEndpoints (obj s)) talosConfig;
                     if ours
                     then do { mod_machine (\<lambda>st. st\<lparr>mConditions :=
                                 l_cond_set env (mConditions st) (preflight_passed ''BundleMatch'')\<rparr>);
                               ret (Inr (Have (Some talosConfig, True))) }
                     else try_or (preflightForeignMachine r env helper) id (\<lambda>foreign.
                       ret (Inr (case foreign of
                                   Wait result \<Rightarrow> Wait result
                                 | Have cfg \<Rightarrow> Have (cfg, False)))) } })
          (preflight_post machine s) t"
    unfolding clusterTalosConfig_def
  proof (rule wp_bindI [OF talosconfig_wp], elim conjE exE, rule wp_case_sumI)
    fix a :: "bytes res" and u :: "(byot_machine, event) gst" and es' e
    assume "log u = log t @ es'" "\<forall>eps c. \<not> answered eps c es'"
    with t show "wp (if errors_is e ErrClusterTalosConfigNotReady
            then ret (Inr (Wait (requeue_after (requeueAfterBootstrap r)))) else ret (Inl e))
          (preflight_post machine s) u"
      by (auto simp: wp_simps preflight_post_def)
  next
    fix a :: "bytes res" and u :: "(byot_machine, event) gst" and es' c
    assume u: "obj u = obj t" "log u = log t @ es'" "\<forall>eps c. \<not> answered eps c es'"
      and a: "a = Inr c" "case a of Inr cfg \<Rightarrow> held_secret (oNamespace (mMeta (obj s)),
         cmClusterName machine @ clusterTalosConfigSecretSuffix) cfg es' \<and> cfg \<noteq> [] | Inl _ \<Rightarrow> True"
    show "wp (do { ours \<leftarrow> probeAuthenticated env (machineEndpoints (obj s)) c;
                 if ours
                 then do { mod_machine (\<lambda>st. st\<lparr>mConditions :=
                             l_cond_set env (mConditions st) (preflight_passed ''BundleMatch'')\<rparr>);
                           ret (Inr (Have (Some c, True))) }
                 else try_or (preflightForeignMachine r env helper) id (\<lambda>foreign.
                   ret (Inr (case foreign of
                               Wait result \<Rightarrow> Wait result
                             | Have cfg \<Rightarrow> Have (cfg, False)))) })
          (preflight_post machine s) u"
    proof (rule wp_bindI [OF probe_wp(2)], elim conjE exE, rule wp_ifI)
      fix ok' and v :: "(byot_machine, event) gst" and es''
      assume "log v = log u @ es''" "ok' = answered (machineEndpoints (obj s)) (Some c) es''" ok'
        "\<forall>c'. c' \<noteq> Some c \<longrightarrow> \<not> answered (machineEndpoints (obj s)) c' es''"
      with t u a show "wp (do { mod_machine (\<lambda>st. st\<lparr>mConditions :=
                             l_cond_set env (mConditions st) (preflight_passed ''BundleMatch'')\<rparr>);
                           ret (Inr (Have (Some c, True))) }) (preflight_post machine s) v"
        by (simp add: wp_simps preflight_post_def credentials_ok_def)
    next
      fix ok' and v :: "(byot_machine, event) gst" and es''
      assume v: "obj v = obj u" "log v = log u @ es''" "ok' = answered (machineEndpoints (obj s)) (Some c) es''" "\<not> ok'"
        "\<forall>c'. c' \<noteq> Some c \<longrightarrow> \<not> answered (machineEndpoints (obj s)) c' es''"
      have none: "\<not> answered (machineEndpoints (obj s)) x es''" for x using v(3-5) by (cases "x = Some c") auto
      have ov: "obj v = obj s" using t u v by simp
      show "wp (try_or (preflightForeignMachine r env helper) id (\<lambda>foreign.
                   ret (Inr (case foreign of
                               Wait result \<Rightarrow> Wait result
                             | Have cfg \<Rightarrow> Have (cfg, False))))) (preflight_post machine s) v"
        by (rule wp_try_orI [OF foreign_wp [of r env helper v, unfolded ov]])
           (use t u v(2) none in \<open>auto simp: wp_ret preflight_post_def credentials_ok_def Let_def split: awaited.splits\<close>)
    qed
  qed
qed

text \<open>C27. The join preflight never lets a foreign machine through: without credentials only when the
  maintenance API answered; with the cluster's own talosconfig when the maintenance API did
  not answer and that talosconfig did; with the referenced talosconfig only when none of the
  three was answered. A machine in maintenance mode always passes.\<close>

theorem preflightJoin_credentials:
  assumes "run_state (preflightJoin r env helper machine) s = (a, s')"
  shows "\<exists>es. log s' = log s @ es \<and>
     (\<forall>cfg b. a = Inr (Have (cfg, b)) \<longrightarrow> credentials_ok (obj s) machine cfg b es) \<and>
     (answered (machineEndpoints (obj s)) None es \<longrightarrow> a = Inr (Have (None, False)))"
  using wp_run [OF preflightJoin_wp assms] by (simp add: preflight_post_def)

section \<open>Inputs: waiting and errors\<close>

text \<open>The API's own errors carry no sentinel of this program.\<close>

definition sentinel_free :: "env \<Rightarrow> bool" where
  "sentinel_free env \<longleftrightarrow> (\<forall>h k e x. k_get_secret env h k = Inl e \<longrightarrow> \<not> errors_is e (Sentinel x))"

text \<open>Which missing input is waited for and which is an error: no owner, no data secret name and
  a missing secret are waited for with a positive delay; a failing call and a secret without
  data are errors, the latter recognisable as ErrBootstrapDataEmpty; otherwise the owner and
  the data are returned as read. Nothing is written.\<close>

theorem adoptionInputs_outcome:
  assumes "sentinel_free env"
    and "run_state (adoptionInputs r env) s = (a, s')"
  shows "obj s' = obj s \<and>
    (case k_get_owner_machine env (log s) (mMeta (obj s)) of
       Inl e \<Rightarrow> \<exists>e'. a = Inl e' \<and> unwrap_all e' = unwrap_all e
     | Inr None \<Rightarrow> (\<exists>d > 0. a = Inr (Wait (requeue_after d)))
     | Inr (Some m) \<Rightarrow>
        (case cmDataSecretName m of
           None \<Rightarrow> (\<exists>d > 0. a = Inr (Wait (requeue_after d)))
         | Some n \<Rightarrow>
            (case k_get_secret env (log s @ [Kube (EvGetOwnerMachine (mMeta (obj s)) (Inr (Some m)))])
                    (oNamespace (cmMeta m), n) of
               Inl e \<Rightarrow> if is_not_found e then (\<exists>d > 0. a = Inr (Wait (requeue_after d)))
                        else (\<exists>e'. a = Inl e' \<and> unwrap_all e' = unwrap_all e)
             | Inr secret \<Rightarrow>
                (if fmlookup secret bootstrapSecretDataKey \<in> {None, Some ''''} then a = Inl ErrBootstrapDataEmpty
                 else a = Inr (Have (m, the (fmlookup secret bootstrapSecretDataKey)))))))"
proof -
  have pos: "0 < requeueAfterBootstrap r" by (rule bootstrap_delay.get_pos)
  have free: "\<not> errors_is (errorf pre e) (Sentinel x)" if "k_get_secret env h k = Inl e" for h k e x pre
    using assms(1) that by (cases k) (auto simp: sentinel_free_def errors_is_sentinel)
  have empty: "\<not> errors_is ErrBootstrapDataEmpty ErrBootstrapDataNotReady"
    by (simp add: errors_is_sentinel)
  have "wp (adoptionInputs r env) (\<lambda>a s'. obj s' = obj s \<and>
    (case k_get_owner_machine env (log s) (mMeta (obj s)) of
       Inl e \<Rightarrow> \<exists>e'. a = Inl e' \<and> unwrap_all e' = unwrap_all e
     | Inr None \<Rightarrow> (\<exists>d > 0. a = Inr (Wait (requeue_after d)))
     | Inr (Some m) \<Rightarrow>
        (case cmDataSecretName m of
           None \<Rightarrow> (\<exists>d > 0. a = Inr (Wait (requeue_after d)))
         | Some n \<Rightarrow>
            (case k_get_secret env (log s @ [Kube (EvGetOwnerMachine (mMeta (obj s)) (Inr (Some m)))])
                    (oNamespace (cmMeta m), n) of
               Inl e \<Rightarrow> if is_not_found e then (\<exists>d > 0. a = Inr (Wait (requeue_after d)))
                        else (\<exists>e'. a = Inl e' \<and> unwrap_all e' = unwrap_all e)
             | Inr secret \<Rightarrow>
                (if fmlookup secret bootstrapSecretDataKey \<in> {None, Some ''''} then a = Inl ErrBootstrapDataEmpty
                 else a = Inr (Have (m, the (fmlookup secret bootstrapSecretDataKey)))))))) s"
  proof (cases "k_get_owner_machine env (log s) (mMeta (obj s))")
    case (Inl e)
    then show ?thesis by (simp add: adoptionInputs_def wp_simps)
  next
    case owner: (Inr found)
    show ?thesis
    proof (cases found)
      case None
      with owner pos show ?thesis by (simp add: adoptionInputs_def wp_simps)
    next
      case (Some m)
      show ?thesis
      proof (cases "cmDataSecretName m")
        case None
        with owner Some pos show ?thesis by (simp add: adoptionInputs_def bootstrapData_def wp_simps)
      next
        case name: (Some n)
        let ?h = "log s @ [Kube (EvGetOwnerMachine (mMeta (obj s)) (Inr (Some m)))]"
        show ?thesis
        proof (cases "k_get_secret env ?h (oNamespace (cmMeta m), n)")
          case (Inl e)
          with owner Some name pos free [OF Inl] show ?thesis
            by (auto simp: adoptionInputs_def bootstrapData_def wp_simps Let_def)
        next
          case (Inr secret)
          with owner Some name pos empty show ?thesis
            by (auto simp: adoptionInputs_def bootstrapData_def wp_simps Let_def
                split: option.split)
        qed
      qed
    qed
  qed
  from wp_run [OF this assms(2)] show ?thesis .
qed


section \<open>The recorded hash\<close>

lemma hex_digit_inject: "m < 16 \<Longrightarrow> n < 16 \<Longrightarrow> hex_digit m = hex_digit n \<longleftrightarrow> m = n"
proof -
  assume "m < 16" "n < 16"
  moreover have "of_char (hex_digit k) = (if k < 10 then 48 + k else 87 + k)" if "k < 16" for k :: nat
    using that by (simp add: hex_digit_def)
  ultimately have "hex_digit m = hex_digit n \<Longrightarrow> (if m < 10 then 48 + m else 87 + m) = (if n < 10 then 48 + n else 87 + n)"
    by metis
  with \<open>m < 16\<close> \<open>n < 16\<close> show ?thesis by (auto split: if_splits)
qed

lemma byte_split:
  fixes c d :: char
  shows "(of_char c :: nat) div 16 = of_char d div 16 \<and> (of_char c :: nat) mod 16 = of_char d mod 16 \<longleftrightarrow> c = d"
  by (metis div_mult_mod_eq of_char_eq_iff)

lemma hex_encode_inject: "hex_encode a = hex_encode b \<longleftrightarrow> a = b"
proof (induction a arbitrary: b)
  case Nil
  then show ?case by (cases b) (auto simp: hex_encode_def)
next
  case (Cons c a)
  have lt: "(of_char x :: nat) div 16 < 16" "(of_char x :: nat) mod 16 < 16" for x :: char
    using nat_of_char_less_256 [of x] by (auto simp: less_mult_imp_div_less)
  show ?case
  proof (cases b)
    case Nil
    then show ?thesis by (simp add: hex_encode_def)
  next
    case (Cons d b')
    with Cons.IH [of b'] byte_split [of c d] lt show ?thesis
      by (auto simp: hex_encode_def hex_digit_inject)
  qed
qed

text \<open>The recorded hash decides about a re-apply exactly as the digests do: after an adoption
  with the configuration \<open>old\<close> the machine counts as unchanged for \<open>new\<close> if and only if both
  have the same SHA-256 digest, and adopted it is ready, with the providerID of its address.\<close>

theorem adopted_until_digest_changes:
  "(configUnchanged (markAdopted env (sha256Hex env old) m) (sha256Hex env new) \<longleftrightarrow>
      l_sha256 env old = l_sha256 env new) \<and>
   mReady (mStatus (markAdopted env h m)) \<and>
   mProviderID (mSpec (markAdopted env h m)) = Some (ProviderIDPrefix @ mResolvedPublicIP (mStatus m)) \<and>
   map snd (mAddresses (mStatus (markAdopted env h m))) \<noteq> [] \<and>
   set (map snd (mAddresses (mStatus (markAdopted env h m)))) \<subseteq>
     insert (mResolvedPublicIP (mStatus m)) (set (machineEndpoints m))"
  by (auto simp: configUnchanged_def markAdopted_def markMachineTrue_def Let_def sha256Hex_def hex_encode_inject
      machineEndpoints_def buildEndpoints_def)

section \<open>Gate, disk and nudge\<close>

text \<open>The calls show a control plane that is Ready.\<close>

definition control_plane_ready :: "env \<Rightarrow> object_key \<Rightarrow> event \<Rightarrow> bool" where
  "control_plane_ready env k e \<longleftrightarrow> (\<exists>c. e = Kube (EvGetCapiCluster k (Inr c)) \<and>
     l_cond_is_true env (ccConditions c) ControlPlaneReadyCondition)"

definition is_control_plane :: "capi_machine \<Rightarrow> bool" where
  "is_control_plane machine \<longleftrightarrow> fmlookup (oLabels (cmMeta machine)) MachineControlPlaneLabel \<noteq> None"

definition same_identity :: "byot_machine \<Rightarrow> byot_machine \<Rightarrow> bool" where
  "same_identity m m' \<longleftrightarrow> mMeta m' = mMeta m \<and> mSpec m' = mSpec m \<and> machineEndpoints m' = machineEndpoints m \<and>
     mReady (mStatus m') = mReady (mStatus m)"

lemma same_identity_refl [simp]: "same_identity m m"
  by (simp add: same_identity_def)

lemma same_identity_conditions:
  "same_identity m (mStatus_update (\<lambda>st. st\<lparr>mConditions := f st\<rparr>) m)"
  "same_identity m (mStatus_update (markMachineFalse env t reason sv msg) m)"
  "same_identity m (mStatus_update (markMachineTrue env t) m)"
  by (simp_all add: same_identity_def machineEndpoints_def markMachineFalse_def markMachineTrue_def)

definition identity_kept :: "(byot_machine, event) gst \<Rightarrow> (byot_machine, event) gst \<Rightarrow> bool" where
  "identity_kept s s' \<longleftrightarrow> same_identity (obj s) (obj s')"

interpretation identity: stepwise identity_kept
  by unfold_locales (auto simp: identity_kept_def same_identity_def)

lemma identity_modify:
  "(\<And>m. same_identity m (f m)) \<Longrightarrow> identity.steps (modify_obj f)"
  by (rule identity.steps_modify) (simp add: identity_kept_def)

lemma gate_wp:
  "wp (awaitControlPlaneReady r env helper machine) (\<lambda>a s'. \<exists>es. log s' = log s @ es \<and>
     list_all (\<lambda>e. \<not> is_disruptive e) es \<and>
     (a = Inr (Have ()) \<longrightarrow> is_control_plane machine \<or>
        (\<exists>g \<in> set es. control_plane_ready env (oNamespace (mMeta (obj s)), cmClusterName machine) g)) \<and>
     (\<forall>res. a = Inr (Wait res) \<longrightarrow> wants_requeue res)) s"
  unfolding awaitControlPlaneReady_def clusterControlPlaneReady_def patchMachine_def is_control_plane_def
  by (auto simp: wp_simps control_plane_ready_def bootstrap_delay.get_pos split: option.split sum.split)

lemma preflight_undisturbed:
  "emits (\<lambda>e. \<not> is_disruptive e) (preflightJoin r env helper machine)"
  "emits (\<lambda>e. \<not> is_disruptive e) (resolveApplyAuth r env helper machine)"
proof -
  have foreign: "emits (\<lambda>e. \<not> is_disruptive e) (preflightForeignMachine r env helper)"
    unfolding preflightForeignMachine_def recordPreflightFailure_def
    by (intro emits_intros undisturbed_harmless; simp)
  show join: "emits (\<lambda>e. \<not> is_disruptive e) (preflightJoin r env helper machine)"
    unfolding preflightJoin_def Let_def by (intro emits_intros foreign undisturbed_harmless; simp)
  show "emits (\<lambda>e. \<not> is_disruptive e) (resolveApplyAuth r env helper machine)"
    unfolding resolveApplyAuth_def by (intro emits_intros join undisturbed_upgrade_steps)
qed

lemma nudge_undisturbed: "emits (\<lambda>e. \<not> is_disruptive e) (nudgeKubeletAfterReadopt env cfg bm wr)"
  unfolding nudgeKubeletAfterReadopt_def Let_def
  by (intro emits_intros undisturbed_harmless)

lemma disk_undisturbed: "emits (\<lambda>e. \<not> is_disruptive e) (resolveInstallDisk env mc cfg)"
  unfolding resolveInstallDisk_def Let_def by (intro emits_intros undisturbed_harmless)

lemma keeps_disk [keeps_intros]: "keeps (resolveInstallDisk env mc cfg)"
  unfolding resolveInstallDisk_def Let_def by (intro keeps_intros)

text \<open>The configuration after disk resolution is the bootstrap data, or that data with the
  operator's disk, or with a disk the machine reported.\<close>

lemma disk_wp:
  "wp (resolveInstallDisk env mc cfg) (\<lambda>a s'. \<forall>c. a = Inr c \<longrightarrow> c = mc \<or>
      (\<exists>d. d \<noteq> [] \<and> injectInstallDisk env mc d = Inr c \<and>
         (case mInstallDisk (mSpec (obj s)) of Some w \<Rightarrow> w \<noteq> [] \<longrightarrow> d = w | None \<Rightarrow> True))) s"
  unfolding resolveInstallDisk_def Let_def
  by (auto simp: wp_simps detectSystemDisk_def clientFor_def authenticatedClient_def maintenanceClient_def dial_def
      split: option.splits sum.splits)

text \<open>The kubelet is only restarted on a machine that carries the cluster's bundle, was not
  adopted yet and reports a running kubelet; whatever the outcome, only a condition changes.\<close>

theorem nudge_restarts_running_kubelet_only:
  assumes "run_state (nudgeKubeletAfterReadopt env cfg bundleMatch wasReady) s = (u, s')"
  shows "same_identity (obj s) (obj s') \<and> (\<exists>es. log s' = log s @ es \<and>
     list_all (\<lambda>e. \<not> is_disruptive e) es \<and>
     (\<forall>c n x. Talos (EvServiceRestart c n x) \<in> set es \<longrightarrow>
        n = kubeletServiceID \<and> bundleMatch \<and> \<not> wasReady \<and>
        (\<exists>c' svcs. Talos (EvServiceInfo c' kubeletServiceID (Inr svcs)) \<in> set es \<and>
           (\<exists>svc \<in> set svcs. siState svc = Some talosServiceRunning))))"
proof -
  have "wp (nudgeKubeletAfterReadopt env cfg bundleMatch wasReady) (\<lambda>_ s'.
     same_identity (obj s) (obj s') \<and> (\<exists>es. log s' = log s @ es \<and>
     list_all (\<lambda>e. \<not> is_disruptive e) es \<and>
     (\<forall>c n x. Talos (EvServiceRestart c n x) \<in> set es \<longrightarrow>
        n = kubeletServiceID \<and> bundleMatch \<and> \<not> wasReady \<and>
        (\<exists>c' svcs. Talos (EvServiceInfo c' kubeletServiceID (Inr svcs)) \<in> set es \<and>
           (\<exists>svc \<in> set svcs. siState svc = Some talosServiceRunning))))) s"
    unfolding nudgeKubeletAfterReadopt_def serviceRunning_def restartService_def authenticatedClient_def dial_def
    by (auto simp: wp_simps Let_def is_disruptive_def same_identity_conditions list_ex_iff
        split: option.split sum.split)
  from wp_run [OF this assms] show ?thesis .
qed

section \<open>The theorems at concrete inputs\<close>

lemma sample_dials: "t_dial sample_env h c = None" "t_version sample_env h c = Inr [Some \<lparr>viTag = ''v1.9.0'', viArch = ''amd64''\<rparr>]"
  by (simp_all add: sample_env_def)

lemma preflightJoin_credentials_witness:
  "\<exists>s'. run_state (preflightJoin NewByotMachineReconciler sample_env sample_machine owner) (start sample_machine)
       = (Inr (Have (None, False)), s') \<and> credentials_ok sample_machine owner None False (log s')"
proof -
  obtain s' where run: "run_state (preflightJoin NewByotMachineReconciler sample_env sample_machine owner) (start sample_machine)
       = (Inr (Have (None, False)), s')"
    by (simp add: preflightJoin_def probeMaintenance_def version_ok_def maintenanceClient_def dial_def
        check_or_def ask_def get_obj_def modify_obj_def ret_def Let_def sample_dials)
  from preflightJoin_credentials [OF run] run show ?thesis by auto
qed

definition owned_env :: env where
  "owned_env = sample_env\<lparr>k_get_owner_machine := \<lambda>h m. Inr (Some (owner\<lparr>cmDataSecretName := Some ''data''\<rparr>)),
     k_get_secret := \<lambda>h k. Inr (fmap_of_list [(bootstrapSecretDataKey, ''cfg'')])\<rparr>"

lemma adoptionInputs_outcome_witness:
  "fst (run_state (adoptionInputs NewByotMachineReconciler owned_env) (start sample_machine))
     = Inr (Have (owner\<lparr>cmDataSecretName := Some ''data''\<rparr>, ''cfg''))"
proof -
  have "sentinel_free owned_env" by (simp add: sentinel_free_def owned_env_def)
  from adoptionInputs_outcome [OF this prod.collapse [symmetric], of NewByotMachineReconciler "start sample_machine"]
  show ?thesis by (simp add: owned_env_def fmlookup_of_list)
qed

lemma nudge_restarts_running_kubelet_only_witness:
  "same_identity sample_machine (obj (snd (run_state (nudgeKubeletAfterReadopt sample_env (Some ''cfg'') True False)
     (start sample_machine))))"
  using nudge_restarts_running_kubelet_only [where env = sample_env and cfg = "Some ''cfg''"
      and bundleMatch = True and wasReady = False and s = "start sample_machine", OF prod.collapse [symmetric]]
  by simp

end
