(* ===== verification/ServerURL.thy ===== *)
theory ServerURL
  imports Errors NetAddr
begin

text \<open>
  The parts of Go's \<open>net/url\<close> and \<open>net\<close> that \<open>buildIPDirectClient\<close> uses to point a
  kubeconfig's server URL at a machine's address: \<open>url.Parse\<close>, \<open>URL.Port\<close>, \<open>URL.String\<close>
  and \<open>net.JoinHostPort\<close> (Go 1.26: a host has at most one colon outside brackets, and brackets
  hold an IPv6 address). \<open>%q\<close> is written for text that needs no escapes.
\<close>

section \<open>Escaping\<close>

datatype encoding = EncodePath | EncodeHost | EncodeZone | EncodeUserPassword | EncodeFragment

definition is_alnum :: "char \<Rightarrow> bool" where
  "is_alnum c \<longleftrightarrow> (let n = (of_char c :: nat) in
     48 \<le> n \<and> n \<le> 57 \<or> 65 \<le> n \<and> n \<le> 90 \<or> 97 \<le> n \<and> n \<le> 122)"

definition shouldEscape :: "char \<Rightarrow> encoding \<Rightarrow> bool" where
  "shouldEscape c mode \<longleftrightarrow>
     (if is_alnum c then False
      else if mode \<in> {EncodeHost, EncodeZone} \<and> c \<in> set (CHR 0x22 # CHR 0x27 # ''!$&()*+,;=:[]<>'') then False
      else if c \<in> set ''-_.~'' then False
      else if c \<in> set ''$&+,/:;=?@'' then
        (case mode of
           EncodePath \<Rightarrow> c = CHR ''?''
         | EncodeUserPassword \<Rightarrow> c \<in> set ''@/?:''
         | EncodeFragment \<Rightarrow> False
         | _ \<Rightarrow> True)
      else if mode = EncodeFragment \<and> c \<in> set ''!()*'' then False
      else True)"

definition upper_hex :: "nat \<Rightarrow> char" where
  "upper_hex n = (if n < 10 then char_of (48 + n) else char_of (55 + n))"

definition escape_char :: "encoding \<Rightarrow> char \<Rightarrow> string" where
  "escape_char mode c =
     (if shouldEscape c mode
      then [CHR ''%'', upper_hex (of_char c div 16), upper_hex (of_char c mod 16)] else [c])"

definition escape :: "encoding \<Rightarrow> string \<Rightarrow> string" where
  "escape mode s = concat (map (escape_char mode) s)"

definition unhex :: "char \<Rightarrow> nat option" where
  "unhex c = (let n = (of_char c :: nat) in
     if 48 \<le> n \<and> n \<le> 57 then Some (n - 48)
     else if 97 \<le> n \<and> n \<le> 102 then Some (n - 87)
     else if 65 \<le> n \<and> n \<le> 70 then Some (n - 55) else None)"

text \<open>\<open>None\<close>: an escape or a host character that Go refuses.\<close>

fun unescape :: "encoding \<Rightarrow> string \<Rightarrow> string option" where
  "unescape mode [] = Some []"
| "unescape mode (c # cs) =
     (if c = CHR ''%'' then
        (case cs of
           a # b # rest \<Rightarrow>
             (case (unhex a, unhex b) of
                (Some x, Some y) \<Rightarrow>
                  (let v = char_of (16 * x + y) in
                   if mode = EncodeHost \<and> x < 8 \<and> [a, b] \<noteq> ''25'' then None
                   else if mode = EncodeZone \<and> [a, b] \<noteq> ''25'' \<and> v \<noteq> CHR '' '' \<and> shouldEscape v EncodeHost
                   then None
                   else map_option ((#) v) (unescape mode rest))
              | _ \<Rightarrow> None)
         | _ \<Rightarrow> None)
      else if mode \<in> {EncodeHost, EncodeZone} \<and> (of_char c :: nat) < 128 \<and> shouldEscape c mode then None
      else map_option ((#) c) (unescape mode cs))"

definition validEncoded :: "encoding \<Rightarrow> string \<Rightarrow> bool" where
  "validEncoded mode s \<longleftrightarrow>
     list_all (\<lambda>c. c \<in> set (CHR 0x27 # ''!$&()*+,;=:@[]%'') \<or> \<not> shouldEscape c mode) s"

text \<open>\<open>EscapedPath\<close> and \<open>EscapedFragment\<close> of a component that was parsed from the text
  \<open>raw\<close>: the text itself when it is a valid encoding, the default encoding otherwise.\<close>

definition escaped_component :: "encoding \<Rightarrow> string \<Rightarrow> string option" where
  "escaped_component mode raw =
     (case unescape mode raw of
        None \<Rightarrow> None
      | Some plain \<Rightarrow>
          Some (if raw \<noteq> escape mode plain \<and> validEncoded mode raw then raw
                else if mode = EncodePath \<and> plain = ''*'' then ''*''
                else escape mode plain))"


section \<open>URLs\<close>

record go_url =
  uScheme :: string
  uOpaque :: string
  uUser :: "string option" \<comment> \<open>as \<open>Userinfo.String\<close> prints it\<close>
  uHost :: string
  uPath :: string \<comment> \<open>\<open>EscapedPath\<close>\<close>
  uOmitHost :: bool
  uForceQuery :: bool
  uRawQuery :: string
  uFragment :: string \<comment> \<open>\<open>EscapedFragment\<close>\<close>

definition cut_after :: "char \<Rightarrow> string \<Rightarrow> string" where
  \<comment> \<open>second result of \<open>strings.Cut\<close>\<close>
  "cut_after sep s = drop 1 (dropWhile (\<lambda>c. c \<noteq> sep) s)"

definition before_last :: "char \<Rightarrow> string \<Rightarrow> string" where
  \<comment> \<open>\<open>s[:strings.LastIndex(s, sep)]\<close>\<close>
  "before_last sep s = rev (drop 1 (dropWhile (\<lambda>c. c \<noteq> sep) (rev s)))"

definition after_last :: "char \<Rightarrow> string \<Rightarrow> string" where
  "after_last sep s = rev (takeWhile (\<lambda>c. c \<noteq> sep) (rev s))"

definition validOptionalPort :: "string \<Rightarrow> bool" where
  "validOptionalPort port = (case port of [] \<Rightarrow> True | c # cs \<Rightarrow> c = CHR '':'' \<and> list_all is_digit cs)"

text \<open>\<open>getScheme\<close>: the scheme and the rest; \<open>None\<close> when the text starts with a colon.\<close>

fun getScheme :: "string \<Rightarrow> string \<Rightarrow> string \<Rightarrow> (string \<times> string) option" where
  "getScheme whole [] seen = Some ([], whole)"
| "getScheme whole (c # cs) seen =
     (if is_alnum c \<and> \<not> is_digit c then getScheme whole cs (c # seen)
      else if is_digit c \<or> c \<in> set ''+-.'' then
        (if seen = [] then Some ([], whole) else getScheme whole cs (c # seen))
      else if c = CHR '':'' then (if seen = [] then None else Some (rev seen, cs))
      else Some ([], whole))"

fun index_of :: "string \<Rightarrow> string \<Rightarrow> nat option" where
  \<comment> \<open>\<open>strings.Index\<close> for a nonempty pattern\<close>
  "index_of pat [] = None"
| "index_of pat (c # cs) = (if has_prefix pat (c # cs) then Some 0 else map_option Suc (index_of pat cs))"

text \<open>The text between brackets: an IPv6 address, possibly with a zone (\<open>netip.ParseAddr\<close>).\<close>

definition valid_literal :: "string \<Rightarrow> bool" where
  "valid_literal s \<longleftrightarrow> CHR '':'' \<in> set s \<and> parse_ipv6 (cut_before CHR ''%'' s) \<noteq> None \<and>
     (CHR ''%'' \<in> set s \<longrightarrow> cut_after CHR ''%'' s \<noteq> [])"

definition parse_literal :: "string \<Rightarrow> string option" where
  "parse_literal inside =
     (let unescaped =
        (case index_of ''%25'' inside of
           None \<Rightarrow> unescape EncodeHost inside
         | Some z \<Rightarrow>
             (case (unescape EncodeHost (take z inside), unescape EncodeZone (drop z inside)) of
                (Some a, Some b) \<Rightarrow> Some (a @ b)
              | _ \<Rightarrow> None))
      in case unescaped of
           Some t \<Rightarrow> (if valid_literal t then Some t else None)
         | None \<Rightarrow> None)"

definition parseHost :: "string \<Rightarrow> string option" where
  "parseHost host =
     (if CHR ''['' \<in> set host then
        (if \<not> has_prefix ''['' host \<or> CHR ''['' \<in> set (tl host) then None
         else if CHR '']'' \<notin> set host then None
         else if \<not> validOptionalPort (after_last CHR '']'' host) then None
         else map_option (\<lambda>t. ''['' @ t @ '']'' @ after_last CHR '']'' host)
                (parse_literal (before_last CHR '']'' (tl host))))
      else if CHR '':'' \<in> set host \<and> \<not> validOptionalPort (CHR '':'' # cut_after CHR '':'' host) then None
      else unescape EncodeHost host)"

definition validUserinfo :: "string \<Rightarrow> bool" where
  "validUserinfo s \<longleftrightarrow> list_all (\<lambda>c. is_alnum c \<or> c \<in> set (CHR 0x27 # ''-._:~!$&()*+,;=%@'')) s"

text \<open>\<open>Userinfo.String\<close> of the parsed user part.\<close>

definition parseUser :: "string \<Rightarrow> string option" where
  "parseUser userinfo =
     (if \<not> validUserinfo userinfo then None
      else if CHR '':'' \<notin> set userinfo
      then map_option (escape EncodeUserPassword) (unescape EncodeUserPassword userinfo)
      else case (unescape EncodeUserPassword (cut_before CHR '':'' userinfo),
                 unescape EncodeUserPassword (cut_after CHR '':'' userinfo)) of
             (Some username, Some password) \<Rightarrow>
               Some (escape EncodeUserPassword username @ '':'' @ escape EncodeUserPassword password)
           | _ \<Rightarrow> None)"

definition parseAuthority :: "string \<Rightarrow> (string option \<times> string) option" where
  "parseAuthority authority =
     (if CHR ''@'' \<notin> set authority then map_option (Pair None) (parseHost authority)
      else case (parseHost (after_last CHR ''@'' authority), parseUser (before_last CHR ''@'' authority)) of
             (Some host, Some user) \<Rightarrow> Some (Some user, host)
           | _ \<Rightarrow> None)"

definition is_ctl :: "char \<Rightarrow> bool" where
  "is_ctl c \<longleftrightarrow> (of_char c :: nat) < 32 \<or> (of_char c :: nat) = 127"

definition empty_url :: go_url where
  "empty_url = \<lparr>uScheme = [], uOpaque = [], uUser = None, uHost = [], uPath = [], uOmitHost = False,
     uForceQuery = False, uRawQuery = [], uFragment = []\<rparr>"

text \<open>The part before the fragment.\<close>

definition parse_main :: "string \<Rightarrow> go_url option" where
  "parse_main rawURL =
     (if list_ex is_ctl rawURL then None
      else if rawURL = ''*'' then Some (empty_url\<lparr>uPath := ''*''\<rparr>)
      else case getScheme rawURL rawURL [] of
        None \<Rightarrow> None
      | Some (scheme, rest) \<Rightarrow>
          (let force = (has_suffix ''?'' rest \<and> length (filter ((=) CHR ''?'') rest) = 1);
               query = (if force then [] else cut_after CHR ''?'' rest);
               rest = cut_before CHR ''?'' rest;
               url = empty_url\<lparr>uScheme := to_lower scheme, uForceQuery := force, uRawQuery := query\<rparr>
           in if \<not> has_prefix ''/'' rest \<and> scheme \<noteq> [] then Some (url\<lparr>uOpaque := rest\<rparr>)
              else if \<not> has_prefix ''/'' rest \<and> CHR '':'' \<in> set (cut_before CHR ''/'' rest) then None
              else if (scheme \<noteq> [] \<or> \<not> has_prefix ''///'' rest) \<and> has_prefix ''//'' rest then
                (let authority = cut_before CHR ''/'' (drop 2 rest);
                     path = drop (length authority) (drop 2 rest)
                 in case (parseAuthority authority, escaped_component EncodePath path) of
                      (Some (user, host), Some escaped) \<Rightarrow>
                        Some (url\<lparr>uUser := user, uHost := host, uPath := escaped\<rparr>)
                    | _ \<Rightarrow> None)
              else map_option (\<lambda>escaped. url\<lparr>uPath := escaped,
                       uOmitHost := (scheme \<noteq> [] \<and> has_prefix ''/'' rest)\<rparr>)
                     (escaped_component EncodePath rest)))"

definition url_Parse :: "string \<Rightarrow> go_url option" where
  "url_Parse rawURL =
     (case parse_main (cut_before CHR ''#'' rawURL) of
        None \<Rightarrow> None
      | Some url \<Rightarrow>
          (let frag = cut_after CHR ''#'' rawURL in
           map_option (\<lambda>escaped. url\<lparr>uFragment := escaped\<rparr>) (escaped_component EncodeFragment frag)))"

definition url_Port :: "go_url \<Rightarrow> string" where
  "url_Port url =
     (if CHR '':'' \<in> set (uHost url) \<and> list_all is_digit (after_last CHR '':'' (uHost url))
      then after_last CHR '':'' (uHost url) else [])"

definition url_String :: "go_url \<Rightarrow> string" where
  "url_String url =
     (if uScheme url \<noteq> [] then uScheme url @ '':'' else []) @
     (if uOpaque url \<noteq> [] then uOpaque url
      else
        (if uScheme url \<noteq> [] \<or> uHost url \<noteq> [] \<or> uUser url \<noteq> None
         then (if uOmitHost url \<and> uHost url = [] \<and> uUser url = None then []
               else (if uHost url \<noteq> [] \<or> uPath url \<noteq> [] \<or> uUser url \<noteq> None then ''//'' else []) @
                    (case uUser url of None \<Rightarrow> [] | Some u \<Rightarrow> u @ ''@'') @
                    escape EncodeHost (uHost url))
         else []) @
        (let path = uPath url in
         (if path \<noteq> [] \<and> \<not> has_prefix ''/'' path \<and> uHost url \<noteq> [] then ''/''
          else if uScheme url = [] \<and> uHost url = [] \<and> uUser url = None \<and>
                  CHR '':'' \<in> set (cut_before CHR ''/'' path) then ''./'' else []) @ path)) @
     (if uForceQuery url \<or> uRawQuery url \<noteq> [] then ''?'' @ uRawQuery url else []) @
     (if uFragment url \<noteq> [] then ''#'' @ uFragment url else [])"

definition JoinHostPort :: "string \<Rightarrow> string \<Rightarrow> string" where
  "JoinHostPort host port =
     (if CHR '':'' \<in> set host then ''['' @ host @ '']:'' @ port else host @ '':'' @ port)"

definition quoted :: "string \<Rightarrow> string" where
  "quoted s = CHR 0x22 # s @ [CHR 0x22]"


section \<open>Pointing a server URL at an address\<close>

text \<open>The middle of \<open>buildIPDirectClient\<close>: the new \<open>restConfig.Host\<close>.\<close>

definition rewrite_server :: "string \<Rightarrow> string \<Rightarrow> string res" where
  "rewrite_server host ip =
     (case url_Parse host of
        None \<Rightarrow> Inl (errorf (''failed to parse server URL '' @ quoted host)
                   (ExtError (''parse '' @ quoted host)))
      | Some serverURL \<Rightarrow>
          (let serverURL = (if url_Port serverURL \<noteq> ''''
                            then serverURL\<lparr>uHost := JoinHostPort ip (url_Port serverURL)\<rparr>
                            else serverURL\<lparr>uHost := ip\<rparr>)
           in Inr (url_String serverURL)))"

section \<open>URLs without escapes\<close>

definition plain_char :: "char \<Rightarrow> bool" where
  "plain_char c \<longleftrightarrow> is_alnum c \<or> c \<in> set ''-.''"

lemma cut_before_simps [simp]:
  "cut_before x [] = []" "cut_before x (c # cs) = (if c = x then [] else c # cut_before x cs)"
  "cut_after x [] = []" "cut_after x (c # cs) = (if c = x then cs else cut_after x cs)"
  by (simp_all add: cut_before_def cut_after_def)

lemma cut_before_none: "x \<notin> set s \<Longrightarrow> cut_before x s = s"
  by (induction s) auto

lemma cut_after_none: "x \<notin> set s \<Longrightarrow> cut_after x s = []"
  by (induction s) auto

lemma cut_before_append: "x \<notin> set a \<Longrightarrow> cut_before x (a @ b) = a @ cut_before x b"
  by (induction a) auto

lemma cut_after_append: "x \<notin> set a \<Longrightarrow> cut_after x (a @ b) = cut_after x b"
  by (induction a) auto

lemma after_last_append: "x \<notin> set b \<Longrightarrow> after_last x (a @ x # b) = b"
proof -
  assume "x \<notin> set b"
  then have "takeWhile (\<lambda>c. c \<noteq> x) (rev b @ x # rev a) = rev b"
    by (subst takeWhile_append2) auto
  then show ?thesis by (simp add: after_last_def)
qed

lemma unescape_plain:
  "(\<And>c. c \<in> set s \<Longrightarrow> c \<noteq> CHR ''%'' \<and> \<not> shouldEscape c mode) \<Longrightarrow> unescape mode s = Some s"
  by (induction s) auto

lemma escape_plain: "(\<And>c. c \<in> set s \<Longrightarrow> \<not> shouldEscape c mode) \<Longrightarrow> escape mode s = s"
  by (induction s) (auto simp: escape_def escape_char_def)

lemma escaped_component_plain:
  assumes "\<And>c. c \<in> set s \<Longrightarrow> c \<noteq> CHR ''%'' \<and> \<not> shouldEscape c mode"
  shows "escaped_component mode s = Some s"
proof -
  have "unescape mode s = Some s" by (rule unescape_plain) (rule assms)
  moreover have "escape mode s = s" by (rule escape_plain) (use assms in blast)
  ultimately show ?thesis by (simp add: escaped_component_def)
qed

lemma letter_neq:
  assumes "is_alnum c" and "x \<in> set (CHR 0x22 # '':/?#%@[]*-.'')"
  shows "c \<noteq> x"
  using assms by (auto simp: is_alnum_def Let_def)

lemma alnum_not_ctl: "is_alnum c \<Longrightarrow> \<not> is_ctl c"
  by (auto simp: is_alnum_def is_ctl_def Let_def)

lemma getScheme_letters:
  "list_all (\<lambda>c. is_alnum c \<and> \<not> is_digit c) s \<Longrightarrow> s @ seen \<noteq> [] \<Longrightarrow>
     getScheme whole (s @ CHR '':'' # rest) seen = Some (rev seen @ s, rest)"
proof (induction s arbitrary: seen)
  case Nil
  then show ?case by (simp add: is_alnum_def is_digit_def)
next
  case (Cons c s)
  then show ?case by simp
qed

text \<open>An authority and a path that need no escaping.\<close>

definition plain_authority :: "string \<Rightarrow> bool" where
  "plain_authority a \<longleftrightarrow> list_all (\<lambda>c. plain_char c \<or> c = CHR '':'') a"

definition plain_path :: "string \<Rightarrow> bool" where
  "plain_path p \<longleftrightarrow> (p = [] \<or> hd p = CHR ''/'') \<and>
     list_all (\<lambda>c. is_alnum c \<or> c \<in> set ''-._~/'') p"

definition plain_scheme :: "string \<Rightarrow> bool" where
  "plain_scheme s \<longleftrightarrow> s \<noteq> [] \<and> list_all (\<lambda>c. is_alnum c \<and> \<not> is_digit c \<and> char_lower c = c) s"

definition url_char :: "char \<Rightarrow> bool" where
  "url_char c \<longleftrightarrow> is_alnum c \<or> c \<in> set ''-._~/:''"

lemma url_char_clean:
  assumes "url_char c"
  shows "\<not> is_ctl c" "x \<in> set (CHR 0x22 # ''#?%@[]*'') \<Longrightarrow> c \<noteq> x"
  using assms by (auto simp: url_char_def is_alnum_def is_ctl_def Let_def)

lemma plain_url_chars:
  "plain_scheme s \<Longrightarrow> c \<in> set s \<Longrightarrow> url_char c"
  "plain_authority a \<Longrightarrow> c \<in> set a \<Longrightarrow> url_char c"
  "plain_path p \<Longrightarrow> c \<in> set p \<Longrightarrow> url_char c"
  by (auto simp: plain_scheme_def plain_authority_def plain_path_def plain_char_def url_char_def
      list_all_iff)

lemma plain_parts:
  assumes "plain_scheme s" "plain_authority a" "plain_path p" and "x \<in> set (CHR 0x22 # ''#?%@[]*'')"
  shows "x \<notin> set s" "x \<notin> set a" "x \<notin> set p"
  using url_char_clean(2) [OF plain_url_chars(1) [OF assms(1)] assms(4)]
    url_char_clean(2) [OF plain_url_chars(2) [OF assms(2)] assms(4)]
    url_char_clean(2) [OF plain_url_chars(3) [OF assms(3)] assms(4)] by auto

lemma path_char: "is_alnum c \<or> c \<in> set ''-._~/'' \<Longrightarrow> c \<noteq> CHR ''%'' \<and> \<not> shouldEscape c EncodePath"
  using letter_neq [of c "CHR ''%''"] by (auto simp: shouldEscape_def)

lemma parse_plain:
  assumes s: "plain_scheme s" and a: "plain_authority a" and p: "plain_path p"
  shows "url_Parse (s @ ''://'' @ a @ p) =
    map_option (\<lambda>h. empty_url\<lparr>uScheme := s, uHost := h, uPath := p\<rparr>) (parseHost a)"
proof -
  let ?u = "s @ ''://'' @ a @ p"
  note notin = plain_parts [OF s a p]
  have slash: "CHR ''/'' \<notin> set a"
    using a by (auto simp: plain_authority_def plain_char_def list_all_iff is_alnum_def Let_def
        dest!: bspec [of "set a"])
  have path: "cut_before CHR ''/'' p = []"
    using p by (cases p) (auto simp: plain_path_def)
  have ctl: "\<not> list_ex is_ctl ?u"
    using url_char_clean(1) [OF plain_url_chars(1) [OF s]] url_char_clean(1) [OF plain_url_chars(2) [OF a]]
      url_char_clean(1) [OF plain_url_chars(3) [OF p]]
    by (auto simp: list_ex_iff is_ctl_def)
  have esc: "escaped_component EncodePath p = Some p"
    by (rule escaped_component_plain)
       (use path_char p in \<open>auto simp: plain_path_def list_all_iff\<close>)
  have lower: "to_lower s = s" using s by (auto simp: to_lower_def plain_scheme_def list_all_iff intro: map_idI)
  have scheme: "getScheme ?u ?u [] = Some (s, ''//'' @ a @ p)"
    using getScheme_letters [of s "[]" ?u "''//'' @ a @ p"] s by (simp add: plain_scheme_def list_all_iff)
  have star: "?u \<noteq> ''*''" by (cases s) auto
  have auth: "parseAuthority a = map_option (Pair None) (parseHost a)"
    using notin(2) [of "CHR ''@''"] by (simp add: parseAuthority_def)
  have force: "\<not> has_suffix ''?'' (''//'' @ a @ p)"
  proof
    assume "has_suffix ''?'' (''//'' @ a @ p)"
    then obtain t where "rev (''//'' @ a @ p) = CHR ''?'' # t"
      unfolding has_suffix_def has_prefix_iff by auto
    then have "CHR ''?'' \<in> set (rev (''//'' @ a @ p))" by (metis list.set_intros(1))
    with notin(2,3) [of "CHR ''?''"] show False by simp
  qed
  have "parse_main ?u = map_option (\<lambda>h. empty_url\<lparr>uScheme := s, uHost := h, uPath := p\<rparr>) (parseHost a)"
    unfolding parse_main_def
    using ctl star scheme force notin(2,3) [of "CHR ''?''"] slash path s esc auth lower
    by (simp add: cut_before_append cut_before_none cut_after_append cut_after_none
        plain_scheme_def empty_url_def Let_def split: option.split)
  moreover have "cut_before CHR ''#'' ?u = ?u" "cut_after CHR ''#'' ?u = []"
    using notin [of "CHR ''#''"] by (auto intro!: cut_before_none cut_after_none)
  moreover have "escaped_component EncodeFragment [] = Some []"
    by (simp add: escaped_component_def escape_def)
  ultimately show ?thesis
    by (simp only: url_Parse_def option.case Let_def option.map) (auto simp: empty_url_def split: option.split)
qed

definition plain_host :: "string \<Rightarrow> bool" where
  "plain_host h \<longleftrightarrow> h \<noteq> [] \<and> list_all plain_char h"

definition plain_port :: "string \<Rightarrow> bool" where
  "plain_port p \<longleftrightarrow> p \<noteq> [] \<and> list_all is_digit p"

lemma host_char: "plain_char c \<or> c = CHR '':'' \<Longrightarrow> c \<noteq> CHR ''%'' \<and> c \<noteq> CHR ''['' \<and> \<not> shouldEscape c EncodeHost"
  using letter_neq [of c "CHR ''%''"] letter_neq [of c "CHR ''[''"]
  by (auto simp: plain_char_def shouldEscape_def)

lemma digit_plain: "is_digit c \<Longrightarrow> plain_char c \<and> c \<noteq> CHR '':''"
  by (auto simp: is_digit_def plain_char_def is_alnum_def Let_def)

lemma plain_char_no_colon: "plain_char c \<Longrightarrow> c \<noteq> CHR '':''"
  using letter_neq [of c "CHR '':''"] by (auto simp: plain_char_def)

lemma unescape_host: "list_all (\<lambda>c. plain_char c \<or> c = CHR '':'') a \<Longrightarrow> unescape EncodeHost a = Some a"
  by (rule unescape_plain) (use host_char in \<open>auto simp: list_all_iff\<close>)

lemma no_bracket: "list_all (\<lambda>c. plain_char c \<or> c = CHR '':'') a \<Longrightarrow> CHR ''['' \<notin> set a"
  using host_char by (fastforce simp: list_all_iff)

lemma plain_hosts:
  assumes "plain_host h"
  shows "parseHost h = Some h" "plain_authority h"
    and "plain_port p \<Longrightarrow> parseHost (h @ '':'' @ p) = Some (h @ '':'' @ p)"
    and "plain_port p \<Longrightarrow> plain_authority (h @ '':'' @ p)"
proof -
  have h: "list_all (\<lambda>c. plain_char c \<or> c = CHR '':'') h" "CHR '':'' \<notin> set h"
    using assms plain_char_no_colon by (auto simp: plain_host_def list_all_iff)
  then show "plain_authority h" "parseHost h = Some h"
    by (simp_all add: plain_authority_def parseHost_def no_bracket unescape_host)
  assume p: "plain_port p"
  then have a: "list_all (\<lambda>c. plain_char c \<or> c = CHR '':'') (h @ '':'' @ p)"
    using h digit_plain by (auto simp: plain_port_def list_all_iff)
  then show "plain_authority (h @ '':'' @ p)" by (simp add: plain_authority_def)
  show "parseHost (h @ '':'' @ p) = Some (h @ '':'' @ p)"
    unfolding parseHost_def
    using h p no_bracket [OF a] unescape_host [OF a]
    by (simp add: cut_after_append validOptionalPort_def plain_port_def)
qed

lemma url_Port_plain:
  assumes "plain_host h"
  shows "uHost u = h \<Longrightarrow> url_Port u = []"
    and "plain_port p \<Longrightarrow> uHost u = h @ CHR '':'' # p \<Longrightarrow> url_Port u = p"
proof -
  have "CHR '':'' \<notin> set h" using assms plain_char_no_colon by (auto simp: plain_host_def list_all_iff)
  then show "uHost u = h \<Longrightarrow> url_Port u = []" by (simp add: url_Port_def)
  assume p: "plain_port p" and u: "uHost u = h @ CHR '':'' # p"
  from p have "CHR '':'' \<notin> set p" using digit_plain by (auto simp: plain_port_def list_all_iff)
  with p u show "url_Port u = p"
    by (simp add: url_Port_def after_last_append plain_port_def)
qed

text \<open>A numeric address: IPv4, or IPv6 with colons.\<close>

definition plain_address :: "string \<Rightarrow> bool" where
  "plain_address ip \<longleftrightarrow> ip \<noteq> [] \<and> list_all (\<lambda>c. plain_char c \<or> c = CHR '':'') ip"

lemma url_String_plain:
  assumes "s \<noteq> []" and "a \<noteq> []" and "plain_path p"
    and "\<And>c. c \<in> set a \<Longrightarrow> \<not> shouldEscape c EncodeHost"
  shows "url_String (empty_url\<lparr>uScheme := s, uHost := a, uPath := p\<rparr>) = s @ ''://'' @ a @ p"
proof -
  have "p \<noteq> [] \<Longrightarrow> has_prefix ''/'' p" using assms(3) by (cases p) (auto simp: plain_path_def)
  moreover have "escape EncodeHost a = a" by (rule escape_plain) (rule assms(4))
  ultimately show ?thesis using assms(1,2) by (auto simp: url_String_def empty_url_def)
qed

lemma second_occurrence: "2 \<le> length (filter ((=) x) s) \<Longrightarrow> x \<in> set (cut_after x s) \<and> x \<in> set s"
proof (induction s)
  case (Cons c s)
  then show ?case
    by (cases "c = x") (auto simp: Suc_le_eq filter_empty_conv numeral_2_eq_2)
qed simp

lemma bracket_plain: "c \<in> set '':[]'' \<Longrightarrow> \<not> shouldEscape c EncodeHost"
  by (auto simp: shouldEscape_def)

text \<open>C37. For a kubeconfig server \<open>scheme://host[:port][/path]\<close> without escapes the rewritten URL is
  the same URL with only the host replaced by the machine's address: the port, the scheme and
  the path are kept. With a port an IPv6 address is bracketed; without one it is not, and the
  result is then no URL that can be parsed back.\<close>

theorem rewrite_server_replaces_host:
  assumes "plain_scheme s" and "plain_host h" and "plain_port p" and "plain_path path" and "plain_address ip"
  shows "rewrite_server (s @ ''://'' @ (h @ '':'' @ p) @ path) ip =
           Inr (s @ ''://'' @ (if CHR '':'' \<in> set ip then ''['' @ ip @ '']'' else ip) @ '':'' @ p @ path) \<and>
         rewrite_server (s @ ''://'' @ h @ path) ip = Inr (s @ ''://'' @ ip @ path) \<and>
         (2 \<le> length (filter ((=) CHR '':'') ip) \<longrightarrow> url_Parse (s @ ''://'' @ ip @ path) = None)"
proof (intro conjI impI)
  have ip: "plain_authority ip" "ip \<noteq> []" using assms(5) by (simp_all add: plain_address_def plain_authority_def)
  have chars: "c \<in> set ip \<Longrightarrow> \<not> shouldEscape c EncodeHost" for c
    using ip(1) host_char by (auto simp: plain_authority_def list_all_iff)
  have s: "s \<noteq> []" using assms(1) by (simp add: plain_scheme_def)
  have port: "c \<in> set p \<Longrightarrow> \<not> shouldEscape c EncodeHost" for c
    using assms(3) digit_plain host_char by (auto simp: plain_port_def list_all_iff)
  have join: "c \<in> set (JoinHostPort ip p) \<Longrightarrow> \<not> shouldEscape c EncodeHost" for c
    using chars [of c] port [of c] bracket_plain by (auto simp: JoinHostPort_def split: if_splits)
  note h = plain_hosts [OF assms(2)]
  have "rewrite_server (s @ ''://'' @ (h @ '':'' @ p) @ path) ip =
      Inr (url_String (empty_url\<lparr>uScheme := s, uHost := JoinHostPort ip p, uPath := path\<rparr>))"
    unfolding rewrite_server_def
    using url_Port_plain(2) [OF assms(2,3)] assms(3)
    by (simp only: parse_plain [OF assms(1) h(4) [OF assms(3)] assms(4)] h(3) [OF assms(3)] option.map option.case)
       (simp add: plain_port_def empty_url_def)
  then show "rewrite_server (s @ ''://'' @ (h @ '':'' @ p) @ path) ip =
      Inr (s @ ''://'' @ (if CHR '':'' \<in> set ip then ''['' @ ip @ '']'' else ip) @ '':'' @ p @ path)"
    using url_String_plain [OF s _ assms(4) join] by (simp add: JoinHostPort_def split: if_splits)
  have "rewrite_server (s @ ''://'' @ h @ path) ip =
      Inr (url_String (empty_url\<lparr>uScheme := s, uHost := ip, uPath := path\<rparr>))"
    unfolding rewrite_server_def
    using url_Port_plain(1) [OF assms(2)]
    by (simp only: parse_plain [OF assms(1) h(2) assms(4)] h(1) option.map option.case)
       (simp add: empty_url_def)
  then show "rewrite_server (s @ ''://'' @ h @ path) ip = Inr (s @ ''://'' @ ip @ path)"
    by (simp only: url_String_plain [OF s ip(2) assms(4) chars])
  assume "2 \<le> length (filter ((=) CHR '':'') ip)"
  then have "CHR '':'' \<in> set (cut_after CHR '':'' ip)" "CHR '':'' \<in> set ip"
    using second_occurrence by auto
  then have "parseHost ip = None"
    using no_bracket [of ip] ip(1) unfolding parseHost_def
    by (auto simp: plain_authority_def validOptionalPort_def list_all_iff is_digit_def)
  then show "url_Parse (s @ ''://'' @ ip @ path) = None"
    by (simp only: parse_plain [OF assms(1) ip(1) assms(4)]) simp
qed

lemma rewrite_server_replaces_host_witness:
  "rewrite_server ''https://api.example.com:6443/x'' ''10.0.0.7'' = Inr ''https://10.0.0.7:6443/x'' \<and>
   rewrite_server ''https://api.example.com/x'' ''10.0.0.7'' = Inr ''https://10.0.0.7/x''"
proof -
  have "plain_scheme ''https''" "plain_host ''api.example.com''" "plain_port ''6443''" "plain_path ''/x''"
    "plain_address ''10.0.0.7''"
    by code_simp+
  from rewrite_server_replaces_host [OF this] show ?thesis by simp
qed

end
