(* ===== verification/NodeLink.thy ===== *)
theory NodeLink
  imports MachineBase ServerURL Sample "HOL-Library.Sublist"
begin

text \<open>
  The workload side of \<open>byotmachine_controller.go\<close>: the watch filters of the ByotMachine
  controller, the client of the workload cluster with its fallback to the machine's own
  address, the patch of the Node's providerID and taint, the propagation of host labels to the
  Node, and the retrigger of the Machine's node link.
\<close>

section \<open>Reserved labels\<close>

definition reservedDomains :: "string list" where
  "reservedDomains = [''kubernetes.io'', ''k8s.io'', ''cluster.x-k8s.io'']"

definition isReservedLabel :: "string \<Rightarrow> bool" where
  "isReservedLabel key =
     (let dns = cut_before CHR ''/'' key in
      if dns = '''' then False
      else list_ex (\<lambda>domain. dns = domain \<or> has_suffix (''.'' @ domain) dns) reservedDomains)"

definition isValidLabel :: "'z lib_scheme \<Rightarrow> string \<Rightarrow> string \<Rightarrow> bool" where
  "isValidLabel L key value \<longleftrightarrow>
     \<not> 0 < length (l_qualified_name_errors L key) \<and> \<not> 0 < length (l_label_value_errors L value)"

text \<open>A nil map and an empty one are the same value: the callers only test for emptiness, and the
  objects that the filters compare come from the decoder, which leaves an absent map nil.\<close>

definition filterHostLabels :: "'z lib_scheme \<Rightarrow> string_map \<Rightarrow> string_map" where
  "filterHostLabels L hostLabels =
     fmfilter (\<lambda>key. case fmlookup hostLabels key of
         None \<Rightarrow> False
       | Some value \<Rightarrow> \<not> isReservedLabel key \<and> isValidLabel L key value) hostLabels"


section \<open>Watch filters\<close>

text \<open>The events of a watched object; an update carries the object before and after, either of
  which may be missing. The filters let everything but updates pass.\<close>

datatype 'o watch_event =
    CreateEvent 'o
  | UpdateEvent "'o option" "'o option"
  | DeleteEvent 'o
  | GenericEvent 'o

definition withoutNodeLinkRetrigger :: "string_map \<Rightarrow> string_map" where
  "withoutNodeLinkRetrigger annotations = fmdrop nodeLinkRetriggerAnnotation annotations"

definition nodeLinkRetriggerSelfFilter_Update :: "byot_machine option \<Rightarrow> byot_machine option \<Rightarrow> bool" where
  "nodeLinkRetriggerSelfFilter_Update old new =
     (case (old, new) of
        (Some objectOld, Some objectNew) \<Rightarrow>
          (let oldAnn = withoutNodeLinkRetrigger (oAnnotations (mMeta objectOld));
               newAnn = withoutNodeLinkRetrigger (oAnnotations (mMeta objectNew))
           in oldAnn \<noteq> newAnn \<or> oGeneration (mMeta objectOld) \<noteq> oGeneration (mMeta objectNew))
      | _ \<Rightarrow> True)"

definition byoHostLabelChangeFilter_Update :: "byot_host option \<Rightarrow> byot_host option \<Rightarrow> bool" where
  "byoHostLabelChangeFilter_Update old new =
     (case (old, new) of
        (Some objectOld, Some newHost) \<Rightarrow>
          (if hClaimRef (hStatus newHost) = None then False
           else oLabels (hMeta objectOld) \<noteq> oLabels (hMeta newHost))
      | _ \<Rightarrow> True)"

definition byoHostToByotMachine :: "byot_host \<Rightarrow> object_key list" where
  "byoHostToByotMachine host =
     (case hClaimRef (hStatus host) of
        None \<Rightarrow> []
      | Some ref \<Rightarrow> [(crNamespace ref, crName ref)])"


definition nodeLinkRetriggerSelfFilter :: "byot_machine watch_event \<Rightarrow> bool" where
  "nodeLinkRetriggerSelfFilter evt =
     (case evt of
        CreateEvent _ \<Rightarrow> True
      | DeleteEvent _ \<Rightarrow> True
      | GenericEvent _ \<Rightarrow> True
      | UpdateEvent old new \<Rightarrow> nodeLinkRetriggerSelfFilter_Update old new)"

definition byoHostLabelChangeFilter :: "byot_host watch_event \<Rightarrow> bool" where
  "byoHostLabelChangeFilter evt =
     (case evt of
        CreateEvent _ \<Rightarrow> True
      | DeleteEvent _ \<Rightarrow> True
      | GenericEvent _ \<Rightarrow> True
      | UpdateEvent old new \<Rightarrow> byoHostLabelChangeFilter_Update old new)"

text \<open>The watches of \<open>SetupWithManager\<close>: which ByotMachines an event asks to reconcile. For the
  machines themselves it is the object of the event (of an update the new one, or the old one if
  that is all there is), for hosts the result of the map function, which controller-runtime runs
  on both objects of an update.\<close>

fun event_objects :: "'o watch_event \<Rightarrow> 'o list" where
  "event_objects (CreateEvent x) = [x]"
| "event_objects (DeleteEvent x) = [x]"
| "event_objects (GenericEvent x) = [x]"
| "event_objects (UpdateEvent old new) = (case old of None \<Rightarrow> [] | Some x \<Rightarrow> [x]) @ (case new of None \<Rightarrow> [] | Some x \<Rightarrow> [x])"

datatype machine_watch = MachineChanged "byot_machine watch_event" | HostChanged "byot_host watch_event"

definition machine_requests :: "machine_watch \<Rightarrow> object_key list" where
  "machine_requests w =
     (case w of
        MachineChanged evt \<Rightarrow>
          (if nodeLinkRetriggerSelfFilter evt
           then (case rev (event_objects evt) of [] \<Rightarrow> [] | x # _ \<Rightarrow> [key_of (mMeta x)]) else [])
      | HostChanged evt \<Rightarrow>
          (if byoHostLabelChangeFilter evt then concat (map byoHostToByotMachine (event_objects evt)) else []))"


section \<open>The workload cluster's client\<close>

definition buildIPDirectClient ::
  "env \<Rightarrow> object_key \<Rightarrow> (byot_machine, workload_client res) act" where
  "buildIPDirectClient env clusterKey =
     do { byotMachine \<leftarrow> get_obj;
          try_or (wKubeconfig env clusterKey)
            (errorf (''kubeconfig secret for '' @ key_text clusterKey @ '' not available''))
            (\<lambda>kubeconfigBytes.
              case l_rest_config_host env kubeconfigBytes of
                Inl err \<Rightarrow> ret (Inl (errorf (''failed to parse kubeconfig for '' @ key_text clusterKey) err))
              | Inr host \<Rightarrow>
                  (case rewrite_server host (mResolvedPublicIP (mStatus byotMachine)) of
                     Inl err \<Rightarrow> ret (Inl err)
                   | Inr url \<Rightarrow> check_or (wNewClient env url) id (ret (Inr (DirectClient url))))) }"

definition resolveWorkloadClient ::
  "env \<Rightarrow> object_key \<Rightarrow> (byot_machine, workload_client res) act" where
  "resolveWorkloadClient env clusterKey =
     do { got \<leftarrow> wClient env clusterKey;
          case got of
            None \<Rightarrow> ret (Inr (CachedClient clusterKey))
          | Some err \<Rightarrow>
              (if \<not> errors_is err ErrClusterNotConnected
               then ret (Inl (errorf (''failed to get workload cluster client for '' @ key_text clusterKey) err))
               else do {
                 fallback \<leftarrow> buildIPDirectClient env clusterKey;
                 ret (case fallback of
                    Inr client \<Rightarrow> Inr client
                  | Inl fErr \<Rightarrow>
                      (if is_not_found fErr then Inl ErrRequeueKubeconfigPending
                       else Inl (errorf (''failed to build IP-direct client for '' @ key_text clusterKey) fErr))) }) }"

definition getWorkloadNode :: "env \<Rightarrow> workload_client \<Rightarrow> string \<Rightarrow> (byot_machine, node res) act" where
  "getWorkloadNode env client name =
     do { got \<leftarrow> wGetNode env client name;
          ret (case got of
             Inr node \<Rightarrow> Inr node
           | Inl err \<Rightarrow>
               (if is_not_found err then Inl ErrWorkloadNodePending
                else Inl (errorf (''failed to get workload Node '' @ name) err))) }"


section \<open>providerID and the uninitialized taint\<close>

definition TaintExternalCloudProvider :: string where
  "TaintExternalCloudProvider = ''node.cloudprovider.kubernetes.io/uninitialized''"

definition hasUninitializedTaint :: "node \<Rightarrow> bool" where
  "hasUninitializedTaint node \<longleftrightarrow> list_ex (\<lambda>t. tKey t = TaintExternalCloudProvider) (nTaints node)"

definition removeUninitializedTaint :: "taint list \<Rightarrow> taint list" where
  "removeUninitializedTaint taints = filter (\<lambda>t. tKey t \<noteq> TaintExternalCloudProvider) taints"

definition needsNodePatch :: "node \<Rightarrow> string \<Rightarrow> bool \<times> bool" where
  "needsNodePatch node providerID = (nProviderID node \<noteq> providerID, hasUninitializedTaint node)"

definition applyNodePatch :: "node \<Rightarrow> string \<Rightarrow> bool \<Rightarrow> bool \<Rightarrow> node" where
  "applyNodePatch node providerID providerIDMismatch uninitializedTaintPresent =
     (let node = (if providerIDMismatch then node\<lparr>nProviderID := providerID\<rparr> else node)
      in if uninitializedTaintPresent then node\<lparr>nTaints := removeUninitializedTaint (nTaints node)\<rparr>
         else node)"

definition patchWorkloadNode ::
  "env \<Rightarrow> workload_client \<Rightarrow> string \<Rightarrow> (byot_machine, bool res) act" where
  "patchWorkloadNode env client providerID =
     do { byotMachine \<leftarrow> get_obj;
          let name = oName (mMeta byotMachine);
          try_or (getWorkloadNode env client name) id (\<lambda>node.
            case needsNodePatch node providerID of
              (providerIDMismatch, uninitializedTaintPresent) \<Rightarrow>
                (if \<not> providerIDMismatch \<and> \<not> uninitializedTaintPresent then ret (Inr True)
                 else
                   check_or (kNewHelper env)
                     (errorf (''failed to create patch helper for workload Node '' @ name))
                     (check_or (wPatchNode env client node
                          (applyNodePatch node providerID providerIDMismatch uninitializedTaintPresent))
                        (errorf (''failed to patch workload Node '' @ name))
                        (ret (Inr (\<not> providerIDMismatch)))))) }"

definition updateNodeProviderID ::
  "byot_machine_reconciler \<Rightarrow> env \<Rightarrow> byot_machine \<Rightarrow> capi_machine \<Rightarrow> (byot_machine, ctrl_result res) act" where
  "updateNodeProviderID r env helper machine =
     do { byotMachine \<leftarrow> get_obj;
          case mProviderID (mSpec byotMachine) of
            None \<Rightarrow> ret (Inr no_result)
          | Some providerID \<Rightarrow>
              if mNodeUpdated (mStatus byotMachine) then ret (Inr no_result)
              else if \<not> mrClusterCache r then ret (Inr no_result)
              else do {
                got \<leftarrow> resolveWorkloadClient env (oNamespace (mMeta byotMachine), cmClusterName machine);
                case got of
                  Inl err \<Rightarrow>
                    (if errors_is err ErrRequeueKubeconfigPending
                     then ret (Inr (requeue_after (requeueAfterNodeLink r))) else ret (Inl err))
                | Inr client \<Rightarrow>
                    do { patched \<leftarrow> patchWorkloadNode env client providerID;
                         case patched of
                           Inl pErr \<Rightarrow>
                             (if errors_is pErr ErrWorkloadNodePending
                              then ret (Inr (requeue_after (requeueAfterNodeLink r))) else ret (Inl pErr))
                         | Inr _ \<Rightarrow>
                             do { mod_machine (\<lambda>st. st\<lparr>mNodeUpdated := True\<rparr>);
                                  try_or (patchMachine env helper []
                                      ''failed to patch ByotMachine after Node providerID update'') id
                                    (\<lambda>_. ret (Inr no_result)) } } } }"


section \<open>Labels of the Node\<close>

definition patchWorkloadNodeLabels ::
  "env \<Rightarrow> workload_client \<Rightarrow> string \<Rightarrow> string_map \<Rightarrow> (byot_machine, unit res) act" where
  "patchWorkloadNodeLabels env client nodeName hostLabels =
     (let filtered = filterHostLabels env hostLabels in
      if filtered = fmempty then ret (Inr ())
      else try_or (getWorkloadNode env client nodeName) id (\<lambda>node.
        let toApply = fmfilter (\<lambda>key. fmlookup (nLabels node) key \<noteq> fmlookup filtered key) filtered in
        if toApply = fmempty then ret (Inr ())
        else
          check_or (kNewHelper env)
            (errorf (''failed to create patch helper for Node labels '' @ nodeName))
            (check_or (wPatchNode env client node (node\<lparr>nLabels := nLabels node ++\<^sub>f toApply\<rparr>))
               (errorf (''failed to patch workload Node '' @ nodeName @ '' labels''))
               (ret (Inr ())))))"

definition syncNodeLabels ::
  "byot_machine_reconciler \<Rightarrow> env \<Rightarrow> capi_machine \<Rightarrow> (byot_machine, ctrl_result res) act" where
  "syncNodeLabels r env machine =
     do { byotMachine \<leftarrow> get_obj;
          let resolved = mResolvedHost (mStatus byotMachine);
          if \<not> mrClusterCache r then ret (Inr no_result)
          else if resolved = '''' then ret (Inr no_result)
          else do {
            got \<leftarrow> kGetHost env (oNamespace (mMeta byotMachine), resolved);
            case got of
              Inl err \<Rightarrow>
                (if is_not_found err then ret (Inr no_result)
                 else ret (Inl (errorf (''failed to get ByoHost '' @ resolved @ '' for label sync'') err)))
            | Inr host \<Rightarrow>
                do { resolvedClient \<leftarrow>
                       resolveWorkloadClient env (oNamespace (mMeta byotMachine), cmClusterName machine);
                     case resolvedClient of
                       Inl err \<Rightarrow>
                         (if errors_is err ErrRequeueKubeconfigPending
                          then ret (Inr (requeue_after (requeueAfterNodeLink r))) else ret (Inl err))
                     | Inr client \<Rightarrow>
                         do { patched \<leftarrow> patchWorkloadNodeLabels env client (oName (mMeta byotMachine))
                                           (oLabels (hMeta host));
                              case patched of
                                Inl err \<Rightarrow>
                                  (if errors_is err ErrWorkloadNodePending
                                   then ret (Inr (requeue_after (requeueAfterNodeLink r))) else ret (Inl err))
                              | Inr _ \<Rightarrow> ret (Inr no_result) } } } }"


section \<open>Linking the Machine to its Node\<close>

definition set_annotations :: "(string_map \<Rightarrow> string_map) \<Rightarrow> byot_machine \<Rightarrow> byot_machine" where
  "set_annotations f m = m\<lparr>mMeta := (mMeta m)\<lparr>oAnnotations := f (oAnnotations (mMeta m))\<rparr>\<rparr>"

definition ensureNodeLinked ::
  "byot_machine_reconciler \<Rightarrow> env \<Rightarrow> byot_machine \<Rightarrow> capi_machine \<Rightarrow> (byot_machine, ctrl_result res) act" where
  "ensureNodeLinked r env helper machine =
     do { byotMachine \<leftarrow> get_obj;
          if \<not> mReady (mStatus byotMachine) \<or> mProviderID (mSpec byotMachine) = None then ret (Inr no_result)
          else try_or (kGetCapiMachine env (key_of (cmMeta machine)))
            (errorf (''failed to get owner Machine '' @ oName (cmMeta machine))) (\<lambda>latest.
              if cmNodeRef latest \<noteq> None
              then (if fmlookup (oAnnotations (mMeta byotMachine)) nodeLinkRetriggerAnnotation \<noteq> None
                    then do {
                      modify_obj (set_annotations (fmdrop nodeLinkRetriggerAnnotation));
                      try_or (patchMachine env helper []
                          ''failed to patch ByotMachine after clearing node-link annotation'') id
                        (\<lambda>_. ret (Inr no_result)) }
                    else ret (Inr no_result))
              else do {
                now \<leftarrow> tNow env;
                modify_obj (set_annotations (fmupd nodeLinkRetriggerAnnotation (format_int now)));
                try_or (patchMachine env helper [] ''failed to patch ByotMachine with node-link retrigger'') id
                  (\<lambda>_. ret (Inr (requeue_after (requeueAfterNodeLink r)))) }) }"

definition linkNode ::
  "byot_machine_reconciler \<Rightarrow> env \<Rightarrow> byot_machine \<Rightarrow> capi_machine \<Rightarrow> (byot_machine, ctrl_result res) act" where
  "linkNode r env helper machine =
     try_or (updateNodeProviderID r env helper machine) id (\<lambda>result.
       if wants_requeue result then ret (Inr result)
       else try_or (syncNodeLabels r env machine) id (\<lambda>labelResult.
         if wants_requeue labelResult then ret (Inr labelResult)
         else ensureNodeLinked r env helper machine))"

section \<open>Reserved domains\<close>

lemma split_on_nonempty [simp]: "split_on sep s \<noteq> []"
  by (induction s) (auto split: list.split)

lemma split_on_sep: "split_on sep (a @ sep # b) = split_on sep a @ split_on sep b"
proof (induction a)
  case (Cons c a)
  then show ?case by (cases "split_on sep a") (auto simp: split_on_nonempty split: list.split)
qed simp

fun join_on :: "char \<Rightarrow> string list \<Rightarrow> string" where
  "join_on sep [] = []"
| "join_on sep [w] = w"
| "join_on sep (w # ws) = w @ sep # join_on sep ws"

lemma join_split: "join_on sep (split_on sep s) = s"
proof (induction s)
  case (Cons c s)
  then show ?case
    by (cases "split_on sep s"; cases "tl (split_on sep s)") (auto split: list.split)
qed simp

lemma join_on_append:
  "us \<noteq> [] \<Longrightarrow> vs \<noteq> [] \<Longrightarrow> join_on sep (us @ vs) = join_on sep us @ sep # join_on sep vs"
  by (induction us rule: join_on.induct) (auto simp: neq_Nil_conv)

text \<open>A name is a domain or a subdomain of it exactly when the domain's labels end the name's.\<close>

lemma subdomain_iff:
  "(dns = domain \<or> has_suffix (CHR ''.'' # domain) dns) \<longleftrightarrow>
     suffix (split_on CHR ''.'' domain) (split_on CHR ''.'' dns)"
proof
  assume "dns = domain \<or> has_suffix (CHR ''.'' # domain) dns"
  then consider "dns = domain" | a where "dns = a @ CHR ''.'' # domain"
    by (auto simp: has_suffix_iff)
  then show "suffix (split_on CHR ''.'' domain) (split_on CHR ''.'' dns)"
    by cases (auto simp: split_on_sep suffix_def)
next
  assume "suffix (split_on CHR ''.'' domain) (split_on CHR ''.'' dns)"
  then obtain us where us: "split_on CHR ''.'' dns = us @ split_on CHR ''.'' domain"
    by (auto simp: suffix_def)
  show "dns = domain \<or> has_suffix (CHR ''.'' # domain) dns"
  proof (cases "us = []")
    case True
    with us show ?thesis by (metis append_Nil join_split)
  next
    case False
    with us have "dns = join_on CHR ''.'' us @ CHR ''.'' # domain"
      by (metis join_on_append join_split split_on_nonempty)
    then show ?thesis by (auto simp: has_suffix_iff)
  qed
qed

text \<open>A label key is reserved exactly when the name before its first slash is nonempty and its
  dot-separated parts end in those of kubernetes.io, k8s.io or cluster.x-k8s.io: whole domain
  labels are compared, so a name that merely ends in the same letters is not reserved.\<close>

theorem isReservedLabel_whole_domains:
  "isReservedLabel key \<longleftrightarrow> cut_before CHR ''/'' key \<noteq> [] \<and>
     (\<exists>domain \<in> set reservedDomains.
        suffix (split_on CHR ''.'' domain) (split_on CHR ''.'' (cut_before CHR ''/'' key)))"
  by (simp add: isReservedLabel_def Let_def list_ex_iff subdomain_iff)

section \<open>The patch of a Node\<close>

lemma removeUninitialized_gone: "\<not> hasUninitializedTaint (n\<lparr>nTaints := removeUninitializedTaint (nTaints n)\<rparr>)"
  by (auto simp: hasUninitializedTaint_def removeUninitializedTaint_def list_ex_iff)

lemma applyNodePatch_settles:
  "needsNodePatch node pid = (mismatch, tainted) \<Longrightarrow>
     needsNodePatch (applyNodePatch node pid mismatch tainted) pid = (False, False)"
  by (auto simp: needsNodePatch_def applyNodePatch_def Let_def hasUninitializedTaint_def
      removeUninitializedTaint_def list_ex_iff split: if_splits)

lemma applyNodePatch_frame:
  "nName (applyNodePatch node pid b c) = nName node"
  "nLabels (applyNodePatch node pid b c) = nLabels node"
  "c = hasUninitializedTaint node \<Longrightarrow>
     nTaints (applyNodePatch node pid b c) = filter (\<lambda>t. tKey t \<noteq> TaintExternalCloudProvider) (nTaints node)"
  by (auto simp: applyNodePatch_def Let_def removeUninitializedTaint_def hasUninitializedTaint_def
      list_ex_iff filter_id_conv intro!: filter_True [symmetric])

text \<open>What the calls of one patch show: the Node was read, and unless it was in order already it
  was written back initialized, with this providerID and otherwise unchanged.\<close>

definition initialized :: "string \<Rightarrow> node \<Rightarrow> node \<Rightarrow> bool" where
  "initialized pid old new \<longleftrightarrow> nProviderID new = pid \<and> nName new = nName old \<and> nLabels new = nLabels old \<and>
     nTaints new = filter (\<lambda>t. tKey t \<noteq> TaintExternalCloudProvider) (nTaints old)"

lemma applyNodePatch_initialized:
  "needsNodePatch node pid = (mismatch, tainted) \<Longrightarrow> initialized pid node (applyNodePatch node pid mismatch tainted)"
  using applyNodePatch_settles [of node pid mismatch tainted]
  by (auto simp: initialized_def applyNodePatch_frame needsNodePatch_def)

lemma in_order_initialized: "needsNodePatch node pid = (False, False) \<Longrightarrow> initialized pid node node"
  by (auto simp: initialized_def needsNodePatch_def hasUninitializedTaint_def list_ex_iff intro!: filter_True [symmetric])

definition node_patched :: "workload_client \<Rightarrow> string \<Rightarrow> string \<Rightarrow> bool res \<Rightarrow> event list \<Rightarrow> bool" where
  "node_patched client name pid a es \<longleftrightarrow>
     (\<forall>c old new r. Workload (EvPatchNode c old new r) \<in> set es \<longrightarrow>
        c = client \<and> needsNodePatch old pid \<noteq> (False, False) \<and> initialized pid old new \<and>
        Workload (EvGetNode client name (Inr old)) \<in> set es) \<and>
     (\<forall>b. a = Inr b \<longrightarrow> (\<exists>old new. Workload (EvGetNode client name (Inr old)) \<in> set es \<and>
        initialized pid old new \<and>
        (new = old \<or> Workload (EvPatchNode client old new None) \<in> set es)))"

lemma patchWorkloadNode_wp:
  "wp (patchWorkloadNode env client pid) (\<lambda>a s'. obj s' = obj s \<and>
     (\<exists>es. log s' = log s @ es \<and> node_patched client (oName (mMeta (obj s))) pid a es)) s"
proof -
  have eq: "\<And>node b c. needsNodePatch node pid = (b, c) \<Longrightarrow> initialized pid node (applyNodePatch node pid b c)"
    by (rule applyNodePatch_initialized)
  show ?thesis
    unfolding patchWorkloadNode_def getWorkloadNode_def Let_def
    by (auto simp: wp_simps node_patched_def dest: eq in_order_initialized split: sum.split option.split)
qed

text \<open>C35. A successful patch of the workload Node leaves it with this providerID, without the
  uninitialized taint and with its other taints and its labels as they were; a patch is only
  sent for a Node just read that was not in order, and never when both were right.\<close>

theorem patchWorkloadNode_initializes:
  assumes "run_state (patchWorkloadNode env client pid) s = (a, s')"
  shows "obj s' = obj s \<and>
     (\<exists>es. log s' = log s @ es \<and> node_patched client (oName (mMeta (obj s))) pid a es)"
  using wp_run [OF patchWorkloadNode_wp assms] .


section \<open>The labels of a Node\<close>

lemma filterHostLabels_lookup:
  "fmlookup (filterHostLabels L m) k = Some v \<longleftrightarrow>
     fmlookup m k = Some v \<and> \<not> isReservedLabel k \<and> isValidLabel L k v"
  by (auto simp: filterHostLabels_def split: option.splits if_splits)

text \<open>The labels of a Node after propagation: the eligible host labels over its own.\<close>

definition synced_labels :: "'z lib_scheme \<Rightarrow> string_map \<Rightarrow> string_map \<Rightarrow> string_map" where
  "synced_labels L hostLabels nodeLabels = nodeLabels ++\<^sub>f filterHostLabels L hostLabels"

lemma sync_difference:
  fixes filtered :: string_map
  shows "m ++\<^sub>f fmfilter (\<lambda>k. fmlookup m k \<noteq> fmlookup filtered k) filtered = m ++\<^sub>f filtered"
  by (rule fmap_ext) (auto simp: fmlookup_dom_iff)

lemma sync_settled:
  fixes filtered :: string_map
  shows "fmfilter (\<lambda>k. fmlookup m k \<noteq> fmlookup filtered k) filtered = fmempty \<longleftrightarrow> m ++\<^sub>f filtered = m"
proof
  let ?d = "fmfilter (\<lambda>k. fmlookup m k \<noteq> fmlookup filtered k) filtered"
  show "?d = fmempty \<Longrightarrow> m ++\<^sub>f filtered = m" by (metis fmadd_empty(2) sync_difference)
  assume eq: "m ++\<^sub>f filtered = m"
  show "?d = fmempty"
  proof (rule fmap_ext)
    fix k
    have "fmlookup (m ++\<^sub>f filtered) k = fmlookup m k" by (simp only: eq)
    then show "fmlookup ?d k = fmlookup fmempty k"
      by (cases "fmlookup filtered k") (auto simp: fmlookup_dom_iff split: if_splits)
  qed
qed

definition labels_synced :: "'z lib_scheme \<Rightarrow> workload_client \<Rightarrow> string_map \<Rightarrow> unit res \<Rightarrow> event list \<Rightarrow> bool" where
  "labels_synced L client hostLabels a es \<longleftrightarrow>
     (\<forall>c old new r. Workload (EvPatchNode c old new r) \<in> set es \<longrightarrow> c = client \<and>
        new = old\<lparr>nLabels := synced_labels L hostLabels (nLabels old)\<rparr> \<and> new \<noteq> old \<and>
        synced_labels L hostLabels (nLabels new) = nLabels new) \<and>
     (a = Inr () \<longrightarrow> filterHostLabels L hostLabels = fmempty \<or>
        (\<exists>n old. Workload (EvGetNode client n (Inr old)) \<in> set es \<and>
           (synced_labels L hostLabels (nLabels old) = nLabels old \<or>
            (\<exists>new. Workload (EvPatchNode client old new None) \<in> set es))))"

lemma synced_idem: "synced_labels L h (synced_labels L h m) = synced_labels L h m"
  unfolding synced_labels_def by (metis fmadd_assoc fmadd_idempotent)

lemma set_labels_eq: "n\<lparr>nLabels := f\<rparr> = n \<longleftrightarrow> f = nLabels n"
  by (cases n) auto

lemma patchWorkloadNodeLabels_wp:
  "wp (patchWorkloadNodeLabels env client name hostLabels) (\<lambda>a s'. obj s' = obj s \<and>
     (\<exists>es. log s' = log s @ es \<and> labels_synced env client hostLabels a es)) s"
  unfolding patchWorkloadNodeLabels_def getWorkloadNode_def Let_def
  by (auto simp: wp_simps labels_synced_def sync_settled sync_difference synced_idem set_labels_eq
      synced_labels_def [symmetric] split: sum.split option.split)


section \<open>The node link\<close>

lemma without_retrigger [simp]:
  "withoutNodeLinkRetrigger (fmdrop nodeLinkRetriggerAnnotation m) = withoutNodeLinkRetrigger m"
  "withoutNodeLinkRetrigger (fmupd nodeLinkRetriggerAnnotation v m) = withoutNodeLinkRetrigger m"
  by (rule fmap_ext; simp add: withoutNodeLinkRetrigger_def)+

text \<open>What the watches let through: a machine is woken by an update exactly when its generation or
  another annotation changed, and by a relabelled host it has claimed.\<close>

lemma machine_update_requests:
  "machine_requests (MachineChanged (UpdateEvent (Some old) (Some new))) =
     (if withoutNodeLinkRetrigger (oAnnotations (mMeta old)) = withoutNodeLinkRetrigger (oAnnotations (mMeta new)) \<and>
         oGeneration (mMeta old) = oGeneration (mMeta new) then [] else [key_of (mMeta new)])"
  by (simp add: machine_requests_def nodeLinkRetriggerSelfFilter_def nodeLinkRetriggerSelfFilter_Update_def)

lemma relabelled_host_wakes_its_machine:
  assumes "hClaimRef (hStatus new) = Some ref" and "oLabels (hMeta old) \<noteq> oLabels (hMeta new)"
  shows "(crNamespace ref, crName ref) \<in> set (machine_requests (HostChanged (UpdateEvent (Some old) (Some new))))"
  using assms
  by (simp add: machine_requests_def byoHostLabelChangeFilter_def byoHostLabelChangeFilter_Update_def byoHostToByotMachine_def)

text \<open>C36. The retrigger annotation reaches the Machine's controller but not this one: whatever a run
  of \<open>ensureNodeLinked\<close> changes, the update event of the machine before and after it asks for no
  reconcile, so the controller never wakes itself.\<close>

theorem ensureNodeLinked_never_wakes_itself:
  assumes "run_state (ensureNodeLinked r env helper machine) s = (a, s')"
  shows "machine_requests (MachineChanged (UpdateEvent (Some (obj s)) (Some (obj s')))) = []"
proof -
  have "wp (ensureNodeLinked r env helper machine) (\<lambda>a s'. oGeneration (mMeta (obj s')) = oGeneration (mMeta (obj s)) \<and>
      withoutNodeLinkRetrigger (oAnnotations (mMeta (obj s'))) = withoutNodeLinkRetrigger (oAnnotations (mMeta (obj s)))) s"
    unfolding ensureNodeLinked_def patchMachine_def set_annotations_def
    by (auto simp: wp_simps split: sum.split option.split)
  from wp_run [OF this assms] show ?thesis by (simp add: machine_update_requests)
qed

text \<open>Linking goes on until the Machine has its Node: for an adopted machine whose owner can be
  read, a run without nodeRef stamps the annotation, persists it and asks to come back after a
  positive delay; with nodeRef it leaves no annotation behind and asks for nothing.\<close>

theorem ensureNodeLinked_until_linked:
  assumes "mReady (mStatus (obj s))" and "mProviderID (mSpec (obj s)) \<noteq> None"
    and "k_get_capi_machine env (log s) (key_of (cmMeta machine)) = Inr latest"
    and "run_state (ensureNodeLinked r env helper machine) s = (Inr result, s')"
  shows "if cmNodeRef latest = None
     then result = requeue_after (requeueAfterNodeLink r) \<and> 0 < requeueAfterNodeLink r \<and>
       (\<exists>n. fmlookup (oAnnotations (mMeta (obj s'))) nodeLinkRetriggerAnnotation = Some (format_int n)) \<and>
       Kube (EvPatchMachine helper (obj s') [] None) \<in> set (log s')
     else result = no_result \<and> fmlookup (oAnnotations (mMeta (obj s'))) nodeLinkRetriggerAnnotation = None"
proof -
  have "wp (ensureNodeLinked r env helper machine) (\<lambda>a s'. \<forall>res. a = Inr res \<longrightarrow>
     (if cmNodeRef latest = None
     then res = requeue_after (requeueAfterNodeLink r) \<and>
       (\<exists>n. fmlookup (oAnnotations (mMeta (obj s'))) nodeLinkRetriggerAnnotation = Some (format_int n)) \<and>
       Kube (EvPatchMachine helper (obj s') [] None) \<in> set (log s')
     else res = no_result \<and> fmlookup (oAnnotations (mMeta (obj s'))) nodeLinkRetriggerAnnotation = None)) s"
    unfolding ensureNodeLinked_def patchMachine_def set_annotations_def
    using assms(1,2) by (auto simp: wp_simps assms(3) split: option.split)
  from wp_run [OF this assms(4)] show ?thesis using node_link_delay.get_pos [of r] by auto
qed

text \<open>The filter looks at annotations and generation only: an update that changes labels,
  finalizers, the status or any other part of the metadata is dropped as well.\<close>

lemma self_filter_drops_other_changes:
  assumes "oAnnotations (mMeta new) = oAnnotations (mMeta old)" and "oGeneration (mMeta new) = oGeneration (mMeta old)"
  shows "\<not> nodeLinkRetriggerSelfFilter_Update (Some old) (Some new)"
  using assms by (simp add: nodeLinkRetriggerSelfFilter_Update_def)


section \<open>Examples\<close>

definition fresh_node :: node where
  "fresh_node = \<lparr>nName = ''m1'', nLabels = fmempty, nProviderID = '''',
     nTaints = [\<lparr>tKey = TaintExternalCloudProvider, tValue = ''true'', tEffect = ''NoSchedule''\<rparr>,
                \<lparr>tKey = ''gpu'', tValue = '''', tEffect = ''NoSchedule''\<rparr>]\<rparr>"

definition node_env :: env where
  "node_env = sample_env\<lparr>w_get_node := \<lambda>h c n. Inr fresh_node\<rparr>"

lemma node_env_simps:
  "w_get_node node_env h c n = Inr fresh_node" "k_new_helper node_env h = None"
  "w_patch_node node_env h c b x = None"
  by (simp_all add: node_env_def sample_env_def)

lemma patchWorkloadNode_initializes_witness:
  "\<exists>old new. initialized ''byot://1'' old new \<and> old = fresh_node \<and> new \<noteq> old"
proof -
  let ?c = "CachedClient (''default'', ''c'')"
  let ?run = "run_state (patchWorkloadNode node_env ?c ''byot://1'') (start sample_machine)"
  have run: "fst ?run = Inr False"
    by (simp add: patchWorkloadNode_def getWorkloadNode_def try_or_def check_or_def ask_def get_obj_def
        ret_def Let_def node_env_simps needsNodePatch_def) (simp add: fresh_node_def)
  have name: "oName (mMeta sample_machine) = ''m1''" by (simp add: sample_machine_def sample_meta_def)
  have node: "needsNodePatch fresh_node ''byot://1'' \<noteq> (False, False)"
    by (simp add: needsNodePatch_def fresh_node_def)
  have log: "set (log (snd ?run)) = {Workload (EvGetNode ?c ''m1'' (Inr fresh_node)), Kube (EvNewHelper None),
      Workload (EvPatchNode ?c fresh_node (applyNodePatch fresh_node ''byot://1'' True True) None)}"
    by (simp add: patchWorkloadNode_def getWorkloadNode_def try_or_def check_or_def ask_def get_obj_def
        ret_def Let_def node_env_simps needsNodePatch_def)
       (simp add: fresh_node_def hasUninitializedTaint_def name)
  from patchWorkloadNode_initializes [OF prod.collapse [symmetric], of node_env ?c "''byot://1''" "start sample_machine"]
  have "node_patched ?c ''m1'' ''byot://1'' (Inr False) (log (snd ?run))"
    by (simp add: run name)
  then obtain old new where "Workload (EvGetNode ?c ''m1'' (Inr old)) \<in> set (log (snd ?run))"
    "initialized ''byot://1'' old new"
    unfolding node_patched_def by blast
  with log have "old = fresh_node" "initialized ''byot://1'' old new" by auto
  moreover from this have "new \<noteq> old" by (auto simp: initialized_def fresh_node_def)
  ultimately show ?thesis by blast
qed


definition link_machine :: byot_machine where
  "link_machine = sample_machine\<lparr>mSpec := (mSpec sample_machine)\<lparr>mProviderID := Some ''byot://1''\<rparr>,
     mStatus := (mStatus sample_machine)\<lparr>mReady := True\<rparr>\<rparr>"

definition unlinked :: capi_machine where
  "unlinked = \<lparr>cmMeta = sample_meta ''cm'' ''cm-uid'', cmClusterName = ''c'', cmDataSecretName = None,
     cmNodeRef = None\<rparr>"

definition link_env :: env where
  "link_env = sample_env\<lparr>k_get_capi_machine := \<lambda>h k. Inr unlinked\<rparr>"

lemma link_env_simps:
  "k_get_capi_machine link_env h k = Inr unlinked" "k_patch_machine link_env h b x own = None"
  "mReady (mStatus link_machine)" "mProviderID (mSpec link_machine) = Some ''byot://1''"
  "cmNodeRef unlinked = None"
  by (simp_all add: link_env_def sample_env_def link_machine_def unlinked_def)

lemma link_run:
  "fst (run_state (ensureNodeLinked NewByotMachineReconciler link_env link_machine unlinked) (start link_machine))
     = Inr (requeue_after (requeueAfterNodeLink NewByotMachineReconciler))"
  by (simp add: ensureNodeLinked_def patchMachine_def try_or_def check_or_def ask_def get_obj_def modify_obj_def
      ret_def Let_def link_env_simps)

lemma ensureNodeLinked_never_wakes_itself_witness:
  "machine_requests (MachineChanged (UpdateEvent (Some link_machine)
     (Some (obj (snd (run_state (ensureNodeLinked NewByotMachineReconciler link_env link_machine unlinked)
        (start link_machine))))))) = []"
  using ensureNodeLinked_never_wakes_itself [where r = NewByotMachineReconciler and env = link_env
      and helper = link_machine and machine = unlinked and s = "start link_machine", OF prod.collapse [symmetric]]
  by simp

lemma ensureNodeLinked_until_linked_witness:
  "\<exists>n. fmlookup (oAnnotations (mMeta (obj (snd (run_state (ensureNodeLinked NewByotMachineReconciler link_env
       link_machine unlinked) (start link_machine)))))) nodeLinkRetriggerAnnotation = Some (format_int n)"
proof -
  obtain t where run: "run_state (ensureNodeLinked NewByotMachineReconciler link_env link_machine unlinked)
      (start link_machine) = (Inr (requeue_after (requeueAfterNodeLink NewByotMachineReconciler)), t)"
    using link_run by (metis prod.collapse)
  show ?thesis
    using ensureNodeLinked_until_linked [OF _ _ _ run] by (simp add: run link_env_simps)
qed

end
