(* ===== verification/MachineController.thy ===== *)
theory MachineController
  imports Adoption NodeLink Claim
begin

text \<open>
  The ByotMachine reconciler as a whole (\<open>byotmachine_controller.go\<close>): the apply and what
  follows it, the steady state, deletion and the entry point, composed of the claim (theory
  Claim), the preflight (Adoption), the upgrade (Upgrade) and the node link (NodeLink).
\<close>

section \<open>Adoption\<close>

definition reconcileAdopted ::
  "byot_machine_reconciler \<Rightarrow> env \<Rightarrow> byot_machine \<Rightarrow> capi_machine \<Rightarrow> (byot_machine, ctrl_result res) act" where
  "reconcileAdopted r env helper machine =
     try_or (ensureTalosVersion r env helper machine) id (\<lambda>(upgradeResult, handled).
       if handled then ret (Inr upgradeResult) else linkNode r env helper machine)"

text \<open>From the configuration to its application: \<open>Some\<close> error ends the reconcile with it.\<close>

definition applyConfiguration ::
  "env \<Rightarrow> byot_machine \<Rightarrow> bytes \<Rightarrow> bytes option \<Rightarrow> (byot_machine, goerr option) act" where
  "applyConfiguration env helper machineConfig talosConfig =
     do { resolved \<leftarrow> resolveInstallDisk env machineConfig talosConfig;
          byotMachine \<leftarrow> get_obj;
          let endpoints = machineEndpoints byotMachine;
          case (case resolved of Inl e \<Rightarrow> Inl e | Inr config \<Rightarrow> injectHostCertSANs env config endpoints) of
            Inl err \<Rightarrow> do { e \<leftarrow> recordApplyFailure env helper err; ret (Some e) }
          | Inr config \<Rightarrow>
              do { applied \<leftarrow> applyMachineConfig env endpoints config talosConfig;
                   case applied of
                     Inl err \<Rightarrow> do { e \<leftarrow> recordApplyFailure env helper err; ret (Some e) }
                   | Inr _ \<Rightarrow> ret None } }"

text \<open>\<open>applyAndMarkAdopted\<close> after the apply, and with its credentials.\<close>

definition finishAdoption ::
  "byot_machine_reconciler \<Rightarrow> env \<Rightarrow> byot_machine \<Rightarrow> capi_machine \<Rightarrow> string \<Rightarrow> bytes option \<Rightarrow> bool \<Rightarrow> bool
     \<Rightarrow> (byot_machine, ctrl_result res) act" where
  "finishAdoption r env helper machine configHash talosConfig bundleMatch wasReady =
     do { nudgeKubeletAfterReadopt env talosConfig bundleMatch wasReady;
          modify_obj (markAdopted env configHash);
          try_or (patchMachine env helper [] ''failed to patch ByotMachine'') id
            (\<lambda>_. reconcileAdopted r env helper machine) }"

definition applyAuthorized ::
  "byot_machine_reconciler \<Rightarrow> env \<Rightarrow> byot_machine \<Rightarrow> capi_machine \<Rightarrow> bytes \<Rightarrow> string \<Rightarrow> bytes option \<Rightarrow> bool
     \<Rightarrow> (byot_machine, ctrl_result res) act" where
  "applyAuthorized r env helper machine machineConfig configHash talosConfig bundleMatch =
     do { byotMachine \<leftarrow> get_obj;
          let wasReady = mReady (mStatus byotMachine);
          try_or (if wasReady then ret (Inr (Have ()))
                  else awaitControlPlaneReady r env helper machine) id (\<lambda>gate.
            case gate of
              Wait result \<Rightarrow> ret (Inr result)
            | Have _ \<Rightarrow>
                check_or (applyConfiguration env helper machineConfig talosConfig) id
                  (finishAdoption r env helper machine configHash talosConfig bundleMatch wasReady)) }"

definition applyAndMarkAdopted ::
  "byot_machine_reconciler \<Rightarrow> env \<Rightarrow> byot_machine \<Rightarrow> capi_machine \<Rightarrow> bytes \<Rightarrow> string
     \<Rightarrow> (byot_machine, ctrl_result res) act" where
  "applyAndMarkAdopted r env helper machine machineConfig configHash =
     try_or (resolveApplyAuth r env helper machine) id (\<lambda>auth.
       case auth of
         Wait result \<Rightarrow> ret (Inr result)
       | Have (talosConfig, bundleMatch) \<Rightarrow>
           applyAuthorized r env helper machine machineConfig configHash talosConfig bundleMatch)"

text \<open>\<open>adopt\<close> after the claim, and after its inputs.\<close>

definition adoptClaimed ::
  "byot_machine_reconciler \<Rightarrow> env \<Rightarrow> byot_machine \<Rightarrow> capi_machine \<Rightarrow> bytes
     \<Rightarrow> (byot_machine, ctrl_result res) act" where
  "adoptClaimed r env helper machine machineConfig =
     (let configHash = sha256Hex env machineConfig in
      do { byotMachine \<leftarrow> get_obj;
           if mUpgradeState (mStatus byotMachine) = UpgradeFailed
           then reconcileAdopted r env helper machine
           else if configUnchanged byotMachine configHash
           then reconcileAdopted r env helper machine
           else applyAndMarkAdopted r env helper machine machineConfig configHash })"

definition adoptWith ::
  "byot_machine_reconciler \<Rightarrow> env \<Rightarrow> byot_machine \<Rightarrow> (capi_machine \<times> bytes) awaited
     \<Rightarrow> (byot_machine, ctrl_result res) act" where
  "adoptWith r env helper inputs =
     (case inputs of
        Wait result \<Rightarrow> ret (Inr result)
      | Have (machine, machineConfig) \<Rightarrow>
          try_or (claimHost r env helper) id (\<lambda>(claimResult, handled).
            if handled then ret (Inr claimResult)
            else adoptClaimed r env helper machine machineConfig))"

definition adopt :: "byot_machine_reconciler \<Rightarrow> env \<Rightarrow> (byot_machine, ctrl_result res) act" where
  "adopt r env =
     check_or (kNewHelper env) (errorf ''failed to create patch helper'')
       (do { helper \<leftarrow> get_obj;
             try_or (adoptionInputs r env) id (adoptWith r env helper) })"


section \<open>Deletion and entry point\<close>

definition machineReconcileDelete ::
  "byot_machine_reconciler \<Rightarrow> env \<Rightarrow> (byot_machine, ctrl_result res) act" where
  "machineReconcileDelete r env =
     do { byotMachine \<leftarrow> get_obj;
          if \<not> l_contains_finalizer env (oFinalizers (mMeta byotMachine)) byotMachineFinalizer
          then ret (Inr no_result)
          else do {
            released \<leftarrow> (if mResolvedHost (mStatus byotMachine) \<noteq> '''' then releaseHost env
                        else ret (Inr ()));
            case released of
              Inl _ \<Rightarrow> ret (Inr (requeue_after (requeueAfterResetIssued r)))
            | Inr _ \<Rightarrow>
                do { byotMachine \<leftarrow> get_obj;
                     let removed = l_remove_finalizer env (oFinalizers (mMeta byotMachine)) byotMachineFinalizer;
                     modify_obj (\<lambda>m. m\<lparr>mMeta := (mMeta m)\<lparr>oFinalizers := fst removed\<rparr>\<rparr>);
                     byotMachine \<leftarrow> get_obj;
                     if snd removed
                     then try_or (kUpdateMachine env byotMachine)
                            (errorf (''failed to remove finalizer from ByotMachine '' @ oName (mMeta byotMachine)))
                            (\<lambda>_. ret (Inr no_result))
                     else ret (Inr no_result) } } }"

definition machineReconcile ::
  "byot_machine_reconciler \<Rightarrow> env \<Rightarrow> object_key \<Rightarrow> (byot_machine, ctrl_result res) act" where
  "machineReconcile r env req =
     do { got \<leftarrow> kGetMachine env req;
          case got of
            Inl err \<Rightarrow>
              (if is_not_found err then ret (Inr no_result)
               else ret (Inl (errorf (''failed to get ByotMachine '' @ key_text req) err)))
          | Inr byotMachine \<Rightarrow>
              do { modify_obj (\<lambda>_. byotMachine);
                   if oDeletionTimestamp (mMeta byotMachine) \<noteq> None then machineReconcileDelete r env
                   else try_or (kEnsureFinalizerMachine env byotMachine byotMachineFinalizer)
                     (errorf (''failed to add finalizer to ByotMachine '' @ key_text req)) (\<lambda>byotMachine.
                       do { modify_obj (\<lambda>_. byotMachine);
                            try_or (adopt r env)
                              (errorf (''failed to adopt ByotMachine '' @ key_text req))
                              (\<lambda>result. ret (Inr result)) }) } }"

end
