(* ===== verification/MachineRuns.thy ===== *)
theory MachineRuns
  imports MachineController
begin

text \<open>
  What runs of the ByotMachine reconciler guarantee: the order of its calls (gate before apply,
  apply before Ready, upgrade before link), what an unchanged configuration and a failed upgrade
  lead to, and examples of whole runs.
\<close>

section \<open>What the parts call\<close>

lemma adopt_parts_undisturbed:
  "emits (\<lambda>e. \<not> is_disruptive e) (bootstrapData env m)"
  "emits (\<lambda>e. \<not> is_disruptive e) (adoptionInputs r env)"
  "emits (\<lambda>e. \<not> is_disruptive e) (resolveWorkloadClient env k)"
  "emits (\<lambda>e. \<not> is_disruptive e) (linkNode r env helper machine)"
  "emits (\<lambda>e. \<not> is_disruptive e) (claimHost r env helper)"
proof -
  show data: "emits (\<lambda>e. \<not> is_disruptive e) (bootstrapData env m)" for m
    unfolding bootstrapData_def Let_def by (intro emits_intros; simp)
  show "emits (\<lambda>e. \<not> is_disruptive e) (adoptionInputs r env)"
    unfolding adoptionInputs_def by (intro emits_intros data; simp)
  show client: "emits (\<lambda>e. \<not> is_disruptive e) (resolveWorkloadClient env k)" for k
    unfolding resolveWorkloadClient_def buildIPDirectClient_def by (intro emits_intros; simp)
  have node: "emits (\<lambda>e. \<not> is_disruptive e) (getWorkloadNode env c n)" for c n
    unfolding getWorkloadNode_def by (intro emits_intros; simp)
  have pid: "emits (\<lambda>e. \<not> is_disruptive e) (patchWorkloadNode env c p)" for c p
    unfolding patchWorkloadNode_def Let_def by (intro emits_intros node; simp)
  have labels: "emits (\<lambda>e. \<not> is_disruptive e) (patchWorkloadNodeLabels env c n l)" for c n l
    unfolding patchWorkloadNodeLabels_def Let_def by (intro emits_intros node; simp)
  show "emits (\<lambda>e. \<not> is_disruptive e) (linkNode r env helper machine)"
    unfolding linkNode_def updateNodeProviderID_def syncNodeLabels_def ensureNodeLinked_def Let_def
    by (intro emits_intros client pid labels; simp)
  have clear: "emits (\<lambda>e. \<not> is_disruptive e) (clearResolvedHost env helper)"
    unfolding clearResolvedHost_def by (intro emits_intros; simp)
  show "emits (\<lambda>e. \<not> is_disruptive e) (claimHost r env helper)"
    unfolding claimHost_def verifyExistingClaim_def searchAndClaim_def takeCandidate_def claimCAS_def
      resolveClaimCandidate_def resolveHostRef_def selectClaimCandidate_def Let_def
    by (intro emits_intros clear; auto intro!: emits_intros split: list.split)
qed

text \<open>Calls after adoption: no configuration is ever applied by the steady state.\<close>

lemma ensure_no_apply: "emits (\<lambda>e. \<not> is_apply e) (ensureTalosVersion r env helper machine)"
  unfolding emits_def
  by (intro allI wp_mono [OF ensure_installs_only]) (auto elim!: list.pred_mono_strong)

lemma undisturbed_no_apply: "emits (\<lambda>e. \<not> is_disruptive e) m \<Longrightarrow> emits (\<lambda>e. \<not> is_apply e) m"
  by (erule emits_mono) (simp add: is_disruptive_def)

lemma adopted_no_apply: "emits (\<lambda>e. \<not> is_apply e) (reconcileAdopted r env helper machine)"
  unfolding reconcileAdopted_def
  by (intro emits_intros ensure_no_apply undisturbed_no_apply [OF adopt_parts_undisturbed(4)])


section \<open>The gate\<close>

lemma identity_preflight: "identity.steps (resolveApplyAuth r env helper machine)"
proof -
  have await: "identity.steps (awaitClusterTalosConfig r env c)" for c
    by (rule identity.steps_kept [OF _ emits_anything [OF undisturbed_upgrade_steps(1)]])
       (unfold awaitClusterTalosConfig_def, intro keeps_intros)
  have cfg: "identity.steps (referencedTalosConfig env n ns)" "identity.steps (clusterTalosConfig env n ns)" for n ns
    unfolding clusterTalosConfig_def referencedTalosConfig_def by (intro identity.steps_intros)+
  have probe: "identity.steps (probeMaintenance env eps)" "identity.steps (probeAuthenticated env eps c)" for eps c
    by (rule identity.steps_kept; intro keeps_intros emits_anything [OF harmless_probes(1)] emits_anything [OF harmless_probes(2)])+
  have fail: "identity.steps (recordPreflightFailure env helper reason e)" for reason e
    unfolding recordPreflightFailure_def patchMachine_def
    by (intro identity.steps_intros identity_modify same_identity_conditions)
  have foreign: "identity.steps (preflightForeignMachine r env helper)"
    unfolding preflightForeignMachine_def by (intro identity.steps_intros cfg probe fail)
  show ?thesis
    unfolding resolveApplyAuth_def preflightJoin_def Let_def
    by (intro identity.steps_intros await cfg probe foreign identity_modify same_identity_conditions)
qed

text \<open>The object as the preflight sees it.\<close>

lemma same_identity_under:
  assumes "identity.steps m" and "emits E m"
  shows "under (same_identity x) E m"
  unfolding under_def
proof (intro allI impI)
  fix s :: "(byot_machine, event) gst" assume "same_identity x (obj s)"
  moreover have "wp m (\<lambda>_ s'. identity_kept s s' \<and> (\<exists>es. log s' = log s @ es \<and> list_all E es)) s"
    using assms by (intro wp_conj) (simp_all add: identity.steps_def emits_def)
  ultimately show "wp m (\<lambda>_ s'. same_identity x (obj s') \<and> (\<exists>es. log s' = log s @ es \<and> list_all E es)) s"
    by (elim wp_mono) (simp add: identity_kept_def same_identity_def)
qed

lemma emits_finish: "emits (\<lambda>_. True) (finishAdoption r env helper machine h cfg bm wr)"
  unfolding finishAdoption_def
  by (intro emits_intros TrueI emits_anything [OF nudge_undisturbed] emits_anything [OF adopted_no_apply])

lemma emits_after_gate:
  "emits (\<lambda>_. True) (check_or (applyConfiguration env helper mc cfg) id
     (finishAdoption r env helper machine h cfg bm wr))"
proof -
  have "emits (\<lambda>_. True) (applyConfiguration env helper mc cfg)"
    unfolding applyConfiguration_def recordApplyFailure_def applyMachineConfig_def Let_def
    by (intro emits_intros TrueI emits_anything [OF disk_undisturbed])
  then show ?thesis by (intro emits_intros emits_finish)
qed

lemma apply_guarded:
  assumes "\<not> mReady (mStatus (obj s))" and "\<not> is_control_plane machine"
  shows "guards is_apply (control_plane_ready env (oNamespace (mMeta (obj s)), cmClusterName machine))
     (applyAndMarkAdopted r env helper machine mc h) s" (is "guards _ ?G _ s")
proof -
  have auth: "under (same_identity (obj s)) (\<lambda>e. \<not> is_apply e) (resolveApplyAuth r env helper machine)"
    by (intro same_identity_under identity_preflight undisturbed_no_apply preflight_undisturbed)
  have "guards is_apply ?G (applyAuthorized r env helper machine mc h cfg bm) t"
    if t: "same_identity (obj s) (obj t)" for cfg bm t
  proof -
    from t assms(1) have unready: "\<not> mReady (mStatus (obj t))" "oNamespace (mMeta (obj t)) = oNamespace (mMeta (obj s))"
      by (simp_all add: same_identity_def)
    have gate: "wp (awaitControlPlaneReady r env helper machine) (\<lambda>a t'. \<exists>es. log t' = log t @ es \<and>
        list_all (\<lambda>e. \<not> is_apply e) es \<and> (a = Inr (Have ()) \<longrightarrow> (\<exists>g \<in> set es. ?G g))) t"
      using assms(2) unready(2)
      by (intro wp_mono [OF gate_wp]) (auto elim!: list.pred_mono_strong simp: is_disruptive_def)
    show ?thesis
      unfolding applyAuthorized_def Let_def try_or_def
      by (rule guards_get, simp only: unready if_False, rule guards_evidence_bind [OF gate])
         (auto simp: guards_ret emits_after_gate split: sum.split awaited.split)
  qed
  then show ?thesis
    unfolding applyAndMarkAdopted_def
    by (intro guards_under_try_or [OF auth _ always_true]) (auto simp: guards_ret split: awaited.split)
qed

text \<open>C5. No worker is configured before the control plane is up: when the machine is not adopted
  and its owner is no control-plane machine, a configuration is only applied after a call that
  shows the cluster's ControlPlaneReady condition true.\<close>

theorem worker_waits_for_control_plane:
  assumes "\<not> mReady (mStatus (obj s))" and "\<not> is_control_plane machine"
    and "run_state (applyAndMarkAdopted r env helper machine mc h) s = (a, s')"
  shows "\<exists>es. log s' = log s @ es \<and>
     guarded is_apply (control_plane_ready env (oNamespace (mMeta (obj s)), cmClusterName machine)) es"
  by (rule guards_run [OF apply_guarded [OF assms(1,2)] assms(3)]) blast


section \<open>Upgrade before link\<close>

definition current :: "byot_machine \<Rightarrow> bool" where
  "current m \<longleftrightarrow> mUpgradeState (mStatus m) = NoUpgrade \<and>
     (\<forall>d. mDesiredTalosVersion (mSpec m) = Some d \<longrightarrow> upgradeAlreadyApplied m d)"

definition may_link :: "(ctrl_result \<times> bool) res \<Rightarrow> (byot_machine, event) gst \<Rightarrow> bool" where
  "may_link a s' \<longleftrightarrow> (\<forall>res. a = Inr (res, False) \<longrightarrow> current (obj s'))"

lemma complete_current: "wp (markUpgradeComplete env helper) (\<lambda>_ s'. current (obj s')) s"
proof -
  have rest: "wp (try_or (patchMachine env helper [] what) id (\<lambda>_.
            try_or (syncHostTalosVersion env) id (\<lambda>_. ret (Inr (no_result, False)))))
        (\<lambda>_ s'. obj s' = obj t) t" for what and t :: "(byot_machine, event) gst"
    by (rule keeps_wp) (intro keeps_intros syncHost_kept)
  show ?thesis
    unfolding markUpgradeComplete_def stampGeneration_def wp_bind wp_modify_obj
    by (rule wp_mono [OF rest]) (auto simp: current_def upgradeAlreadyApplied_def split: option.splits)
qed

lemma may_link_simps [simp]: "may_link (Inl e) s" "may_link (Inr (res, True)) s"
  by (simp_all add: may_link_def)

lemma complete_may_link: "always may_link (markUpgradeComplete env helper)"
  unfolding always_def by (intro allI wp_mono [OF complete_current]) (simp add: may_link_def)

lemma failures_may_link:
  "always may_link (finalizeUpgradeFailure r env reason e)"
  "always may_link (recordUpgradeProbeFailure r env helper thr reason e rst)"
  "always may_link (pollAgain r env helper)"
  "always may_link (issueUpgrade r env helper cfg tag d)"
  unfolding recordUpgradeProbeFailure_def finalizeUpgradeFailure_def pollAgain_def issueUpgrade_def
  by (intro always_intros; simp)+

lemma always_case_awaited:
  "(\<And>w. always Q (f w)) \<Longrightarrow> (\<And>c. always Q (g c)) \<Longrightarrow>
     always Q (case a of Wait w \<Rightarrow> f w | Have c \<Rightarrow> g c)"
  by (simp split: awaited.split)

lemma inflight_may_link: "always may_link (upgradeInFlight r env helper machine)"
  unfolding upgradeInFlight_def upgradeInFlightBootIDGate_def upgradeInFlightVersionFallback_def Let_def
  by (intro always_case_awaited always_intros failures_may_link complete_may_link; simp)

lemma issue_may_link: "always may_link (upgradeProbeAndIssue r env helper machine d)"
  unfolding upgradeProbeAndIssue_def
  by (intro always_case_awaited always_intros failures_may_link; simp)

lemma ensure_may_link:
  assumes "mDesiredTalosVersion (mSpec (obj s)) = Some d" "d \<noteq> ''''" "mReady (mStatus (obj s))"
  shows "wp (ensureTalosVersion r env helper machine) may_link s"
proof -
  have "always may_link (case st of
             NoUpgrade \<Rightarrow>
               (if d = '''' then markInvalidImageRef env helper
                else if upgradeAlreadyApplied m d then markUpgradeComplete env helper
                else upgradeProbeAndIssue r env helper machine d)
           | InFlight \<Rightarrow> upgradeInFlight r env helper machine
           | UpgradeFailed \<Rightarrow> ret (Inr (no_result, True))
           | OtherUpgradeState _ \<Rightarrow> ret (Inr (no_result, True)))" for st and m :: byot_machine
    using assms(2)
    by (auto intro: always_ret complete_may_link inflight_may_link issue_may_link split: upgrade_state.split)
  then have "always may_link (try_or (retriggerStaleUpgradeFailure env helper) id (\<lambda>_.
                do { m \<leftarrow> get_obj;
                     case mUpgradeState (mStatus m) of
                       NoUpgrade \<Rightarrow>
                         (if d = '''' then markInvalidImageRef env helper
                          else if upgradeAlreadyApplied m d then markUpgradeComplete env helper
                          else upgradeProbeAndIssue r env helper machine d)
                     | InFlight \<Rightarrow> upgradeInFlight r env helper machine
                     | UpgradeFailed \<Rightarrow> ret (Inr (no_result, True))
                     | OtherUpgradeState _ \<Rightarrow> ret (Inr (no_result, True)) }))"
    by (intro always_try_or always_bind) simp_all
  then show ?thesis
    unfolding ensureTalosVersion_def
    by (intro wp_get_objI) (simp add: assms always_def)
qed

definition is_workload :: "event \<Rightarrow> bool" where
  "is_workload e = (case e of Workload _ \<Rightarrow> True | _ \<Rightarrow> False)"

lemma is_workload_simps [simp]:
  "is_workload (Workload w)" "\<not> is_workload (Kube k)" "\<not> is_workload (Talos t)" "\<not> is_workload (Clock n)"
  by (simp_all add: is_workload_def)

lemma talos_no_workload: "emits talos_only m \<Longrightarrow> emits (\<lambda>e. \<not> is_workload e) m"
  by (erule emits_mono) (auto simp: talos_only_def is_workload_def split: event.splits)

lemma harmless_no_workload: "emits harmless m \<Longrightarrow> emits (\<lambda>e. \<not> is_workload e) m"
  by (erule emits_mono) (auto simp: harmless_def talos_only_def is_workload_def split: event.splits)

lemmas probes_no_workload = harmless_probes [THEN harmless_no_workload]

lemma ensure_no_workload: "emits (\<lambda>e. \<not> is_workload e) (ensureTalosVersion r env helper machine)"
proof -
  have await: "emits (\<lambda>e. \<not> is_workload e) (awaitClusterTalosConfig r env c)" for c
    unfolding awaitClusterTalosConfig_def by (intro emits_intros; simp)
  have reset: "emits (\<lambda>e. \<not> is_workload e) (attemptReset env cands eps)" for cands eps
    by (rule emits_reset_tried) simp
  have fin: "emits (\<lambda>e. \<not> is_workload e) (finalizeUpgradeFailure r env reason e)" for reason e
    unfolding finalizeUpgradeFailure_def resetAdoptedHostImpl_def stampGeneration_def
    by (intro emits_intros reset; simp)
  have rec: "emits (\<lambda>e. \<not> is_workload e) (recordUpgradeProbeFailure r env helper thr reason e rst)" for thr reason e rst
    unfolding recordUpgradeProbeFailure_def stampGeneration_def by (intro emits_intros fin; simp)
  have complete: "emits (\<lambda>e. \<not> is_workload e) (markUpgradeComplete env helper)"
    unfolding markUpgradeComplete_def stampGeneration_def syncHostTalosVersion_def Let_def
    by (intro emits_intros; simp)
  have upg: "emits (\<lambda>e. \<not> is_workload e) (upgradeMachine env eps cfg img)" for eps cfg img
    unfolding upgradeMachine_def runLifecycleUpgrade_def rebootMachine_def Let_def
    by (intro emits_intros probes_no_workload; simp)
  have issue: "emits (\<lambda>e. \<not> is_workload e) (upgradeProbeAndIssue r env helper machine d)" for d
    unfolding upgradeProbeAndIssue_def issueUpgrade_def stampGeneration_def
    by (auto intro!: emits_intros await rec fin upg probes_no_workload split: awaited.split)
  have fb: "emits (\<lambda>e. \<not> is_workload e) (upgradeInFlightVersionFallback r env helper eps cfg)" for eps cfg
    unfolding upgradeInFlightVersionFallback_def pollAgain_def Let_def
    by (intro emits_intros rec complete probes_no_workload; simp)
  have gate: "emits (\<lambda>e. \<not> is_workload e) (upgradeInFlightBootIDGate r env helper eps cfg b)" for eps cfg b
    unfolding upgradeInFlightBootIDGate_def pollAgain_def
    by (intro emits_intros rec complete probes_no_workload fb; simp)
  have fly: "emits (\<lambda>e. \<not> is_workload e) (upgradeInFlight r env helper machine)"
    unfolding upgradeInFlight_def
    by (auto intro!: emits_intros await fb gate split: awaited.split)
  have rest: "emits (\<lambda>e. \<not> is_workload e) (retriggerStaleUpgradeFailure env helper)"
    "emits (\<lambda>e. \<not> is_workload e) (markInvalidImageRef env helper)"
    unfolding retriggerStaleUpgradeFailure_def markInvalidImageRef_def stampGeneration_def
    by (intro emits_intros; simp)+
  show ?thesis
    unfolding ensureTalosVersion_def
    by (intro emits_intros; (auto intro!: emits_intros issue fly complete rest split: upgrade_state.split)?)
qed

text \<open>Linking only records that the Node was updated, and the retrigger annotation.\<close>

definition linking :: "(byot_machine, event) gst \<Rightarrow> (byot_machine, event) gst \<Rightarrow> bool" where
  "linking s s' \<longleftrightarrow> mSpec (obj s') = mSpec (obj s) \<and> oGeneration (mMeta (obj s')) = oGeneration (mMeta (obj s)) \<and>
     (\<exists>b. mStatus (obj s') = (mStatus (obj s))\<lparr>mNodeUpdated := b\<rparr>)"

lemma same_status: "\<exists>b. st = st\<lparr>mNodeUpdated := b\<rparr>"
  by (rule exI [of _ "mNodeUpdated st"]) simp

lemma linking_trans: "linking s t \<Longrightarrow> linking t u \<Longrightarrow> linking s u"
  by (auto simp: linking_def)

lemma linking_call: "linking s (s\<lparr>log := log s @ es\<rparr>)"
  unfolding linking_def by (simp, rule exI [of _ "mNodeUpdated (mStatus (obj s))"]) simp

interpretation linking: stepwise linking
  by unfold_locales (blast intro: linking_trans, rule linking_call)

lemma linkNode_linking: "linking.steps (linkNode r env helper machine)"
proof -
  have client: "linking.steps (resolveWorkloadClient env k)" for k
    unfolding resolveWorkloadClient_def buildIPDirectClient_def by (intro linking.steps_intros)
  have node: "linking.steps (getWorkloadNode env c n)" for c n
    unfolding getWorkloadNode_def by (intro linking.steps_intros)
  have pid: "linking.steps (patchWorkloadNode env c p)" for c p
    unfolding patchWorkloadNode_def Let_def by (intro linking.steps_intros node)
  have labels: "linking.steps (patchWorkloadNodeLabels env c n l)" for c n l
    unfolding patchWorkloadNodeLabels_def Let_def by (intro linking.steps_intros node)
  have upd: "linking.steps (mod_machine (\<lambda>st. st\<lparr>mNodeUpdated := True\<rparr>))"
    by (rule linking.steps_modify) (auto simp: linking_def)
  have ann: "linking.steps (modify_obj (set_annotations f))" for f
    by (rule linking.steps_modify)
       (simp add: linking_def set_annotations_def same_status)
  show ?thesis
    unfolding linkNode_def updateNodeProviderID_def syncNodeLabels_def ensureNodeLinked_def Let_def patchMachine_def
    by (intro linking.steps_intros client pid labels upd ann)
qed

lemma linking_current: "linking s s' \<Longrightarrow> current (obj s') = current (obj s)"
  by (auto simp: linking_def current_def upgradeAlreadyApplied_def)


section \<open>Examples\<close>

lemma worker_waits_for_control_plane_witness:
  "\<exists>es. log (snd (run_state (applyAndMarkAdopted NewByotMachineReconciler sample_env sample_machine owner ''cfg'' ''sha'')
        (start sample_machine))) = es \<and>
     guarded is_apply (control_plane_ready sample_env (''default'', ''c'')) es"
proof -
  have worker: "\<not> is_control_plane owner" and notready: "\<not> mReady (mStatus sample_machine)"
    and key: "oNamespace (mMeta sample_machine) = ''default''" "cmClusterName owner = ''c''"
    by (simp_all add: is_control_plane_def owner_def sample_meta_def sample_machine_def)
  show ?thesis
    using worker_waits_for_control_plane [where s = "start sample_machine" and machine = owner and
        r = NewByotMachineReconciler and env = sample_env and helper = sample_machine and mc = "''cfg''" and
        h = "''sha''", OF _ worker prod.collapse [symmetric]] notready key by simp
qed


section \<open>A failed upgrade is terminal\<close>

text \<open>What the steps outside the apply and the upgrade keep: any condition \<open>J\<close> on the upgrade state and
  the Ready flag, in memory and in every patch.\<close>

definition stage_ok :: "(upgrade_state \<Rightarrow> bool \<Rightarrow> bool) \<Rightarrow> byot_machine \<Rightarrow> bool" where
  "stage_ok J m \<longleftrightarrow> J (mUpgradeState (mStatus m)) (mReady (mStatus m))"

definition stage_call :: "(upgrade_state \<Rightarrow> bool \<Rightarrow> bool) \<Rightarrow> event \<Rightarrow> bool" where
  "stage_call J e \<longleftrightarrow> \<not> is_disruptive e \<and>
     (\<forall>b x own r. e = Kube (EvPatchMachine b x own r) \<longrightarrow> stage_ok J x)"

lemma stage_call_simps [simp]:
  "stage_call J (Workload w)" "stage_call J (Clock t)"
  "stage_call J (Kube (EvPatchMachine b x own r)) = stage_ok J x"
  "stage_call J (Kube (EvGetHost k x'))" "stage_call J (Kube (EvGetSecret k y))"
  by (simp_all add: stage_call_def)

lemma stage_patch: "under (stage_ok J) (stage_call J) (patchMachine env helper own what)"
  unfolding patchMachine_def by (intro under_get under_check_or under_ask under_ret) simp

lemma stage_kept: "keeps m \<Longrightarrow> emits (stage_call J) m \<Longrightarrow> under (stage_ok J) (stage_call J) m"
  by (rule under_kept)

lemma stage_modify:
  "(\<And>st. mUpgradeState (f st) = mUpgradeState st \<and> mReady (f st) = mReady st) \<Longrightarrow>
     under (stage_ok J) (stage_call J) (mod_machine f)"
  by (rule under_modify) (simp add: stage_ok_def)

lemma stage_annotate: "under (stage_ok J) (stage_call J) (modify_obj (set_annotations f))"
  by (rule under_modify) (simp add: stage_ok_def set_annotations_def)

lemma stage_claim: "under (stage_ok J) (stage_call J) (claimHost r env helper)"
proof -
  have clear: "under (stage_ok J) (stage_call J) (clearResolvedHost env helper)"
    unfolding clearResolvedHost_def by (intro under_bind stage_modify stage_patch) simp
  have resolve: "under (stage_ok J) (stage_call J) (resolveClaimCandidate env)"
    by (intro stage_kept keeps_resolve emits_mono [OF emits_resolve])
       (auto simp: reads_host_def stage_call_def split: event.splits kube_event.splits)
  have cas: "under (stage_ok J) (stage_call J) (claimCAS env host)" for host
    unfolding claimCAS_def Let_def by (intro under_intros; simp add: stage_call_def)
  show ?thesis
    unfolding claimHost_def verifyExistingClaim_def searchAndClaim_def takeCandidate_def Let_def
    by (intro under_intros clear resolve cas stage_modify stage_patch; simp add: stage_call_def)
qed

lemma stage_link: "under (stage_ok J) (stage_call J) (linkNode r env helper machine)"
proof -
  have client: "under (stage_ok J) (stage_call J) (resolveWorkloadClient env k)" for k
    unfolding resolveWorkloadClient_def buildIPDirectClient_def by (intro under_intros; simp)
  have node: "under (stage_ok J) (stage_call J) (getWorkloadNode env c n)" for c n
    unfolding getWorkloadNode_def by (intro under_intros; simp)
  have pid: "under (stage_ok J) (stage_call J) (patchWorkloadNode env c p)" for c p
    unfolding patchWorkloadNode_def Let_def by (intro under_intros node; simp add: stage_call_def)
  have labels: "under (stage_ok J) (stage_call J) (patchWorkloadNodeLabels env c n l)" for c n l
    unfolding patchWorkloadNodeLabels_def Let_def by (intro under_intros node; simp add: stage_call_def)
  show ?thesis
    unfolding linkNode_def updateNodeProviderID_def syncNodeLabels_def ensureNodeLinked_def Let_def
    by (intro under_intros client pid labels stage_modify stage_annotate stage_patch; simp add: stage_call_def)
qed

lemma stage_adopted:
  assumes "\<And>u b. J u b \<Longrightarrow> \<not> b"
  shows "under (stage_ok J) (stage_call J) (reconcileAdopted r env helper machine)"
proof -
  have "under (stage_ok J) (stage_call J) (ensureTalosVersion r env helper machine)"
    unfolding ensureTalosVersion_def
    by (rule under_get) (auto simp: stage_ok_def dest!: assms intro!: under_ret split: option.split)
  then show ?thesis
    unfolding reconcileAdopted_def by (intro under_intros stage_link)
qed

lemma stage_inputs: "under (stage_ok J) (stage_call J) (adoptionInputs r env)"
  unfolding adoptionInputs_def bootstrapData_def Let_def
  by (intro under_intros; simp add: stage_call_def)

abbreviation stuck :: "upgrade_state \<Rightarrow> bool \<Rightarrow> bool" where
  "stuck u b \<equiv> u = UpgradeFailed \<and> \<not> b"

lemma stuck_adopt: "under (stage_ok stuck) (stage_call stuck) (adopt r env)"
proof -
  have claimed: "under (stage_ok stuck) (stage_call stuck) (adoptClaimed r env helper machine mc)" for helper machine mc
    unfolding adoptClaimed_def Let_def
    by (rule under_get) (simp add: stage_ok_def, rule stage_adopted, simp)
  have "under (stage_ok stuck) (stage_call stuck) (adoptWith r env helper inputs)" for helper inputs
    unfolding adoptWith_def
    by (cases inputs) (auto intro!: under_intros stage_claim claimed)
  then show ?thesis
    unfolding adopt_def by (intro under_intros stage_inputs) (simp add: stage_call_def)
qed

text \<open>The life of a ByotMachine that is not deleted: operators edit anything but the status (an edit of
  the spec bumps the generation), and the reconciler runs on what is stored; what is stored
  after a run is what was stored before, or what one of its accepted patches carried.\<close>

inductive machine_life ::
  "byot_machine_reconciler \<Rightarrow> byot_machine \<Rightarrow> event list \<Rightarrow> byot_machine \<Rightarrow> bool" for r m where
  born: "machine_life r m [] m"
| edited: "machine_life r m es m' \<Longrightarrow> mStatus m'' = mStatus m' \<Longrightarrow> machine_life r m es m''"
| reconciled: "machine_life r m es m' \<Longrightarrow> run_state (adopt r env) (start m') = (a, s') \<Longrightarrow>
    m'' = m' \<or> (\<exists>b own. Kube (EvPatchMachine b m'' own None) \<in> set (log s')) \<Longrightarrow>
    machine_life r m (es @ log s') m''"

text \<open>C15. A failed upgrade whose reset succeeded is terminal: once the stored machine is Failed and not
  Ready (what \<open>finalizeUpgradeFailure\<close> leaves), it stays so through any operator edits, with or
  without a new generation, and any number of reconciles under any answers; none of them
  applies, installs, reboots or resets anything.\<close>

theorem failed_upgrade_is_terminal:
  assumes "machine_life r m es m'" and "mUpgradeState (mStatus m) = UpgradeFailed" and "\<not> mReady (mStatus m)"
  shows "mUpgradeState (mStatus m') = UpgradeFailed \<and> \<not> mReady (mStatus m') \<and> list_all (\<lambda>e. \<not> is_disruptive e) es"
  using assms(1)
proof induction
  case born
  with assms(2,3) show ?case by simp
next
  case (edited es m' m'')
  then show ?case by simp
next
  case (reconciled es m' env a s' m'')
  have "stage_ok stuck (obj s') \<and> (\<exists>es. log s' = log (start m') @ es \<and> list_all (stage_call stuck) es)"
    using under_run [OF stuck_adopt _ reconciled.hyps(2)] reconciled.IH by (simp add: stage_ok_def)
  then have calls: "list_all (stage_call stuck) (log s')" by simp
  with reconciled.hyps(3) reconciled.IH have "stage_ok stuck m''"
    by (auto simp: list_all_iff stage_call_def stage_ok_def)
  moreover from calls have "list_all (\<lambda>e. \<not> is_disruptive e) (log s')"
    by (auto elim: list.pred_mono_strong simp: stage_call_def)
  ultimately show ?case using reconciled.IH by (simp add: stage_ok_def)
qed

definition failed_machine :: "int \<Rightarrow> byot_machine" where
  "failed_machine gen = (upgrading UpgradeFailed '''' '''')
     \<lparr>mMeta := (mMeta sample_machine)\<lparr>oGeneration := gen\<rparr>,
      mStatus := (mStatus (upgrading UpgradeFailed '''' ''''))\<lparr>mReady := False\<rparr>\<rparr>"

lemma failed_upgrade_is_terminal_witness:
  "list_all (\<lambda>e. \<not> is_disruptive e)
     (log (snd (run_state (adopt NewByotMachineReconciler owned_env) (start (failed_machine 2)))))"
proof -
  have failed: "mUpgradeState (mStatus (failed_machine 1)) = UpgradeFailed" "\<not> mReady (mStatus (failed_machine 1))"
    by (simp_all add: failed_machine_def upgrading_fields)
  have "machine_life NewByotMachineReconciler (failed_machine 1) [] (failed_machine 2)"
    by (rule machine_life.edited [OF machine_life.born]) (simp add: failed_machine_def)
  then have life: "machine_life NewByotMachineReconciler (failed_machine 1)
     ([] @ log (snd (run_state (adopt NewByotMachineReconciler owned_env) (start (failed_machine 2))))) (failed_machine 2)"
    by (rule machine_life.reconciled [OF _ prod.collapse [symmetric]]) simp
  from failed_upgrade_is_terminal [OF life failed] show ?thesis by simp
qed

section \<open>An unchanged configuration\<close>

definition adopted_kept :: "(byot_machine, event) gst \<Rightarrow> (byot_machine, event) gst \<Rightarrow> bool" where
  "adopted_kept s s' \<longleftrightarrow> mReady (mStatus (obj s')) = mReady (mStatus (obj s)) \<and>
     mProviderID (mSpec (obj s')) = mProviderID (mSpec (obj s)) \<and>
     mLastAppliedConfigSHA (mStatus (obj s')) = mLastAppliedConfigSHA (mStatus (obj s))"

interpretation adopted: stepwise adopted_kept
  by unfold_locales (auto simp: adopted_kept_def)

lemma adopted_claim: "adopted.steps (claimHost r env helper)"
proof -
  have upd: "adopted.steps (mod_machine f)"
    if "\<And>st. mReady (f st) = mReady st \<and> mLastAppliedConfigSHA (f st) = mLastAppliedConfigSHA st" for f
    using that by (intro adopted.steps_modify) (simp add: adopted_kept_def)
  have patch: "adopted.steps (patchMachine env helper own what)" for own what
    unfolding patchMachine_def by (intro adopted.steps_intros)
  have resolve: "adopted.steps (resolveClaimCandidate env)"
    by (rule adopted.steps_kept [OF keeps_resolve emits_anything [OF emits_resolve]])
  have cas: "adopted.steps (claimCAS env host)" for host
    unfolding claimCAS_def Let_def by (intro adopted.steps_intros)
  show ?thesis
    unfolding claimHost_def verifyExistingClaim_def searchAndClaim_def takeCandidate_def
      clearResolvedHost_def Let_def
    by (intro adopted.steps_intros upd patch resolve cas) simp_all
qed

definition adopted_with :: "string \<Rightarrow> byot_machine \<Rightarrow> bool" where
  "adopted_with h m \<longleftrightarrow> mReady (mStatus m) \<and> mProviderID (mSpec m) \<noteq> None \<and>
     mLastAppliedConfigSHA (mStatus m) = h"

lemma adopted_steps_under:
  assumes "adopted.steps m" and "emits E m"
  shows "under (adopted_with h) E m"
  unfolding under_def
proof (intro allI impI)
  fix s :: "(byot_machine, event) gst" assume "adopted_with h (obj s)"
  moreover have "wp m (\<lambda>_ s'. adopted_kept s s' \<and> (\<exists>es. log s' = log s @ es \<and> list_all E es)) s"
    using assms by (intro wp_conj) (simp_all add: adopted.steps_def emits_def)
  ultimately show "wp m (\<lambda>_ s'. adopted_with h (obj s') \<and> (\<exists>es. log s' = log s @ es \<and> list_all E es)) s"
    by (elim wp_mono) (simp add: adopted_kept_def adopted_with_def)
qed

definition recorded_data :: "env \<Rightarrow> string \<Rightarrow> bool" where
  "recorded_data env h \<longleftrightarrow> (\<forall>l k secret data. k_get_secret env l k = Inr secret \<longrightarrow>
     fmlookup secret bootstrapSecretDataKey = Some data \<longrightarrow> sha256Hex env data = h)"

definition inputs_recorded :: "env \<Rightarrow> string \<Rightarrow> (capi_machine \<times> bytes) awaited res \<Rightarrow> bool" where
  "inputs_recorded env h a \<longleftrightarrow> (\<forall>machine data. a = Inr (Have (machine, data)) \<longrightarrow> sha256Hex env data = h)"

lemma adoptionInputs_keeps: "keeps (adoptionInputs r env)"
  unfolding adoptionInputs_def bootstrapData_def Let_def by (intro keeps_intros)

lemma inputs_data:
  assumes "recorded_data env h"
  shows "always (\<lambda>a _. inputs_recorded env h a) (adoptionInputs r env)"
  unfolding always_def adoptionInputs_def bootstrapData_def Let_def
  using assms by (auto simp: wp_simps recorded_data_def inputs_recorded_def split: sum.split option.split)

lemma unchanged_no_apply:
  assumes "recorded_data env h" and "adopted_with h (obj s)"
  shows "guards is_apply (\<lambda>_. False) (adopt r env) s"
proof -
  have quiet: "under (adopted_with h) (\<lambda>e. \<not> is_apply e) m"
    if "adopted.steps m" "emits (\<lambda>e. \<not> is_disruptive e) m" for m :: "(byot_machine, 'x) act"
    by (rule adopted_steps_under [OF that(1) undisturbed_no_apply [OF that(2)]])
  have claimed: "guards is_apply (\<lambda>_. False) (adoptClaimed r env helper machine mc) t"
    if "adopted_with h (obj t)" "sha256Hex env mc = h" for helper machine mc t
    using that unfolding adoptClaimed_def Let_def
    by (intro guards_get) (auto simp: adopted_with_def configUnchanged_def
        intro!: guards_without [OF adopted_no_apply])
  have "guards is_apply (\<lambda>_. False) (adoptWith r env helper inputs) t"
    if "adopted_with h (obj t)" "inputs_recorded env h (Inr inputs)" for helper inputs t
  proof (cases inputs)
    case (Have p)
    obtain machine mc where p: "p = (machine, mc)" by (cases p)
    with that Have have sha: "sha256Hex env mc = h" by (simp add: inputs_recorded_def)
    show ?thesis
      unfolding adoptWith_def Have p awaited.case prod.case
      by (intro guards_under_try_or [OF quiet [OF adopted_claim adopt_parts_undisturbed(5)] that(1) always_true])
         (auto simp: guards_ret split: prod.split intro!: claimed [OF _ sha])
  qed (simp add: adoptWith_def guards_ret)
  then show ?thesis
    unfolding adopt_def
    by (intro guards_under_check_or [OF quiet [OF adopted.steps_ask] assms(2)] guards_get
        guards_under_try_or [OF quiet [OF adopted.steps_kept [OF adoptionInputs_keeps]] _ inputs_data [OF assms(1)]])
       (auto intro!: emits_intros adopt_parts_undisturbed emits_anything [OF adopt_parts_undisturbed(2)])
qed


text \<open>A machine adopted on host \<open>old\<close>, which it has lost, and told to use host \<open>new\<close>.\<close>

definition reclaim_env :: env where
  "reclaim_env = claim_env\<lparr>
     k_get_owner_machine := \<lambda>h m. Inr (Some (owner\<lparr>cmDataSecretName := Some ''data''\<rparr>)),
     k_get_secret := \<lambda>h k. Inr (fmap_of_list [(bootstrapSecretDataKey, ''cfg'')])\<rparr>"

definition moved_machine :: byot_machine where
  "moved_machine = sample_machine
     \<lparr>mSpec := (mSpec sample_machine)\<lparr>mHostRef := Some ''new'', mProviderID := Some ''byot://203.0.113.7''\<rparr>,
      mStatus := (mStatus sample_machine)\<lparr>mReady := True, mResolvedHost := ''old'',
        mResolvedPublicIP := ''203.0.113.7'', mLastAppliedConfigSHA := sha256Hex reclaim_env ''cfg''\<rparr>\<rparr>"

lemma reclaim_env_answers:
  "k_get_owner_machine reclaim_env h m = Inr (Some (owner\<lparr>cmDataSecretName := Some ''data''\<rparr>))"
  "k_get_secret reclaim_env h k = Inr (fmap_of_list [(bootstrapSecretDataKey, ''cfg'')])"
  "k_get_host reclaim_env h k = Inr (live_host (snd k) Available None)"
  "k_status_update_host reclaim_env h x = Inr x" "k_update_host reclaim_env h x = Inr x"
  "k_patch_machine reclaim_env h b mm own = None" "k_new_helper reclaim_env h = None"
  "hostClaimable reclaim_env (live_host n ph ref)"
  by (simp_all add: reclaim_env_def claim_env_def sample_env_def live_host_def sample_host_def hostClaimable_def
      sample_lib_def sample_is_true_def sample_condition_def)

lemma moved_machine_fields:
  "mReady (mStatus moved_machine)" "mProviderID (mSpec moved_machine) = Some ''byot://203.0.113.7''"
  "mResolvedHost (mStatus moved_machine) = ''old''" "mHostRef (mSpec moved_machine) = Some ''new''"
  "mLastAppliedConfigSHA (mStatus moved_machine) = sha256Hex reclaim_env ''cfg''"
  "mDesiredTalosVersion (mSpec moved_machine) = None" "mUpgradeState (mStatus moved_machine) = NoUpgrade"
  by (simp_all add: moved_machine_def sample_machine_def)

lemma moved_claims:
  "wp (claimHost r reclaim_env helper) (\<lambda>a t. a = Inr (no_result, False) \<and>
      mResolvedHost (mStatus (obj t)) = ''new'' \<and> mDesiredTalosVersion (mSpec (obj t)) = None \<and>
      mUpgradeState (mStatus (obj t)) = NoUpgrade \<and> configUnchanged (obj t) (sha256Hex reclaim_env ''cfg''))
    \<lparr>obj = moved_machine, log = l\<rparr>"
proof -
  have fields: "hClaimRef (hStatus (live_host n ph ref)) = ref" "hPhase (hStatus (live_host n ph ref)) = ph"
    "oName (hMeta (live_host n ph ref)) = n" for n ph ref
    by (simp_all add: live_host_def sample_host_def sample_meta_def)
  have cas: "wp (claimCAS reclaim_env host) (\<lambda>a t. a = Inr () \<and> obj t = obj s) s"
    for host and s :: "(byot_machine, event) gst"
    unfolding claimCAS_def Let_def
    by (simp add: wp_simps reclaim_env_answers claimed_elsewhere_def fields)
  have take': "wp (takeCandidate reclaim_env helper (live_host n ph ref)) (\<lambda>a t. a = Inr (no_result, False) \<and>
      (\<exists>a b. obj t = mStatus_update (\<lambda>st. st\<lparr>mResolvedHost := n, mResolvedPublicIP := a, mResolvedInternalIP := b\<rparr>) (obj s))) s"
    for n ph ref and s :: "(byot_machine, event) gst"
    unfolding takeCandidate_def patchMachine_def
    by (rule wp_bindI [OF cas]) (auto simp: wp_simps reclaim_env_answers fields)
  have lost: "\<not> claimed_by u (live_host n Available None)" for u n
    by (simp add: claimed_by_def fields)
  show ?thesis
    unfolding claimHost_def verifyExistingClaim_def clearResolvedHost_def searchAndClaim_def
      resolveClaimCandidate_def resolveHostRef_def patchMachine_def Let_def
    by (simp add: wp_simps reclaim_env_answers moved_machine_fields lost fields claimed_elsewhere_def)
       (rule wp_mono [OF take'], auto simp: moved_machine_fields configUnchanged_def)
qed

lemma moved_link:
  assumes "mResolvedHost (mStatus (obj t)) = n" and "mDesiredTalosVersion (mSpec (obj t)) = None"
  shows "wp (reconcileAdopted r env helper machine) (\<lambda>_ t'. mResolvedHost (mStatus (obj t')) = n) t"
proof -
  have "wp (linkNode r env helper machine) (\<lambda>_ t'. linking t t') t"
    using linkNode_linking [of r env helper machine] by (simp add: linking.steps_def)
  then have link: "wp (linkNode r env helper machine) (\<lambda>_ t'. mResolvedHost (mStatus (obj t')) = n) t"
    by (rule wp_mono) (use assms(1) in \<open>auto simp: linking_def\<close>)
  show ?thesis
    unfolding reconcileAdopted_def ensureTalosVersion_def
    by (simp add: wp_simps assms(2) link)
qed


section \<open>Ready is only persisted after an apply\<close>

definition persists_ready :: "event \<Rightarrow> bool" where
  "persists_ready e \<longleftrightarrow> (\<exists>b x own r. e = Kube (EvPatchMachine b x own r) \<and> mReady (mStatus x))"

definition accepted_apply :: "event \<Rightarrow> bool" where
  "accepted_apply e \<longleftrightarrow> (\<exists>c cfg. e = Talos (EvApplyConfiguration c cfg None))"

abbreviation unready :: "upgrade_state \<Rightarrow> bool \<Rightarrow> bool" where
  "unready u b \<equiv> \<not> b"

lemma unready_call: "stage_call unready e \<Longrightarrow> \<not> persists_ready e"
  by (auto simp: stage_call_def persists_ready_def stage_ok_def)

lemma unready_under:
  "under (stage_ok unready) (stage_call unready) m \<Longrightarrow> under (stage_ok unready) (\<lambda>e. \<not> persists_ready e) m"
  by (erule under_weaken) (rule unready_call)

lemma stage_quiet: "keeps m \<Longrightarrow> emits harmless m \<Longrightarrow> under (stage_ok J) (stage_call J) m"
  by (rule under_kept, assumption, erule emits_mono)
     (auto simp: stage_call_def harmless_def talos_only_def split: event.splits)

lemma stage_config:
  "under (stage_ok J) (stage_call J) (referencedTalosConfig env n ns)"
  "under (stage_ok J) (stage_call J) (clusterTalosConfig env n ns)"
  by (intro under_kept keeps_intros emits_intros; simp add: stage_call_def)+

lemma stage_preflight: "under (stage_ok J) (stage_call J) (resolveApplyAuth r env helper machine)"
proof -
  have await: "under (stage_ok J) (stage_call J) (awaitClusterTalosConfig r env c)" for c
    unfolding awaitClusterTalosConfig_def by (intro under_intros stage_config)
  have probes: "under (stage_ok J) (stage_call J) (probeMaintenance env eps)"
    "under (stage_ok J) (stage_call J) (probeAuthenticated env eps c)" for eps c
    by (intro stage_quiet keeps_intros emits_intros harmless_probes)+
  have fail: "under (stage_ok J) (stage_call J) (recordPreflightFailure env helper reason e)" for reason e
    unfolding recordPreflightFailure_def
    by (intro under_intros stage_patch stage_modify) (simp add: markMachineFalse_def)
  have foreign: "under (stage_ok J) (stage_call J) (preflightForeignMachine r env helper)"
    unfolding preflightForeignMachine_def by (intro under_intros stage_config probes fail)
  show ?thesis
    unfolding resolveApplyAuth_def preflightJoin_def Let_def
    by (intro under_intros await stage_config probes foreign stage_modify) simp_all
qed

lemma stage_gate: "under (stage_ok J) (stage_call J) (awaitControlPlaneReady r env helper machine)"
  unfolding awaitControlPlaneReady_def clusterControlPlaneReady_def
  by (intro under_intros stage_patch stage_modify; simp add: stage_call_def markMachineFalse_def)

definition attempted :: "event list \<Rightarrow> goerr option \<Rightarrow> (byot_machine, event) gst \<Rightarrow> bool" where
  "attempted l a s' \<longleftrightarrow> (\<exists>es. log s' = l @ es \<and> list_all (\<lambda>e. \<not> persists_ready e) es \<and>
     (a = None \<longrightarrow> (\<exists>g \<in> set es. accepted_apply g)))"

lemma fail_wp:
  assumes "\<not> mReady (mStatus (obj s))" and "log s = l @ es" and "list_all (\<lambda>e. \<not> persists_ready e) es"
  shows "wp (recordApplyFailure env helper err) (\<lambda>e s'. attempted l (Some e) s') s"
  using assms unfolding recordApplyFailure_def patchMachine_def
  by (simp add: wp_simps markMachineFalse_def persists_ready_def attempted_def split: option.split)

lemma apply_wp:
  "wp (applyMachineConfig env eps mc cfg) (\<lambda>a s'. obj s' = obj s \<and> (\<exists>es. log s' = log s @ es \<and>
     list_all (\<lambda>e. \<not> persists_ready e) es \<and> (a = Inr () \<longrightarrow> (\<exists>g \<in> set es. accepted_apply g)))) s"
  unfolding applyMachineConfig_def clientFor_def authenticatedClient_def maintenanceClient_def dial_def
  by (auto simp: wp_simps persists_ready_def accepted_apply_def split: option.split sum.split)

lemma harmless_unready: "harmless e \<Longrightarrow> \<not> persists_ready e"
  by (auto simp: persists_ready_def)

lemma disk_quiet: "emits (\<lambda>e. \<not> persists_ready e) (resolveInstallDisk env mc cfg)"
  unfolding resolveInstallDisk_def Let_def
  by (intro emits_intros emits_mono [OF harmless_probes(5)]) (rule harmless_unready)

lemma applyConfiguration_wp:
  assumes "\<not> mReady (mStatus (obj s))"
  shows "wp (applyConfiguration env helper mc cfg) (attempted (log s)) s"
  unfolding applyConfiguration_def Let_def
proof (rule wp_bindI, rule wp_conj [OF keeps_wp [OF keeps_disk] emits_wp [OF disk_quiet]], elim conjE exE,
    rule wp_get_objI, rule wp_case_sumI)
  fix a :: "bytes res" and es and t :: "(byot_machine, event) gst" and err
  assume "obj t = obj s" "log t = log s @ es" "list_all (\<lambda>e. \<not> persists_ready e) es"
  with assms show "wp (State_Monad.bind (recordApplyFailure env helper err) (\<lambda>e. ret (Some e))) (attempted (log s)) t"
    unfolding wp_bind by (intro wp_mono [OF fail_wp]) (simp_all add: wp_ret)
next
  fix a :: "bytes res" and es and t :: "(byot_machine, event) gst" and config
  assume t: "obj t = obj s" "log t = log s @ es" "list_all (\<lambda>e. \<not> persists_ready e) es"
  show "wp (State_Monad.bind (applyMachineConfig env (machineEndpoints (obj t)) config cfg) (\<lambda>applied.
           case applied of Inl err \<Rightarrow> State_Monad.bind (recordApplyFailure env helper err) (\<lambda>e. ret (Some e))
           | Inr _ \<Rightarrow> ret None)) (attempted (log s)) t"
  proof (rule wp_bindI [OF apply_wp], elim conjE exE, rule wp_case_sumI)
    fix a' :: "unit res" and es' and u :: "(byot_machine, event) gst" and err
    assume "obj u = obj t" "log u = log t @ es'" "list_all (\<lambda>e. \<not> persists_ready e) es'"
    with t assms show "wp (State_Monad.bind (recordApplyFailure env helper err) (\<lambda>e. ret (Some e))) (attempted (log s)) u"
      unfolding wp_bind by (intro wp_mono [OF fail_wp [where es = "es @ es'"]]) (simp_all add: wp_ret)
  next
    fix a' :: "unit res" and es' and u :: "(byot_machine, event) gst" and b
    assume "a' = Inr b" "log u = log t @ es'" "list_all (\<lambda>e. \<not> persists_ready e) es'"
      "a' = Inr () \<longrightarrow> (\<exists>g \<in> set es'. accepted_apply g)"
    with t show "wp (ret None) (attempted (log s)) u"
      by (auto simp: wp_ret attempted_def)
  qed
qed

lemma apply_ready_guarded:
  assumes "stage_ok unready (obj s)"
  shows "guards persists_ready accepted_apply (applyAndMarkAdopted r env helper machine mc h) s"
proof -
  have "guards persists_ready accepted_apply (applyAuthorized r env helper machine mc h cfg bm) t"
    if t: "stage_ok unready (obj t)" for cfg bm t
  proof -
    from t have unready: "\<not> mReady (mStatus (obj t))" by (simp add: stage_ok_def)
    have rest: "guards persists_ready accepted_apply (check_or (applyConfiguration env helper mc cfg) id
        (finishAdoption r env helper machine h cfg bm wr)) u" if "stage_ok unready (obj u)" for u wr
      using that applyConfiguration_wp [of u env helper mc cfg, unfolded attempted_def [abs_def]]
      by (intro guards_evidence emits_finish) (simp add: stage_ok_def)
    show ?thesis
      unfolding applyAuthorized_def Let_def
      by (rule guards_get, simp only: unready if_False,
          rule guards_under_try_or [OF unready_under [OF stage_gate] t always_true])
         (simp add: guards_ret rest split: awaited.split)
  qed
  then show ?thesis
    unfolding applyAndMarkAdopted_def
    by (intro guards_under_try_or [OF unready_under [OF stage_preflight] assms always_true])
       (auto simp: guards_ret split: awaited.split)
qed

lemma adopt_ready_guarded:
  assumes "stage_ok unready (obj s)"
  shows "guards persists_ready accepted_apply (adopt r env) s"
proof -
  have adopted: "guards persists_ready accepted_apply (reconcileAdopted r env helper machine) t"
    if "stage_ok unready (obj t)" for helper machine t
    by (rule guards_under [OF unready_under [OF stage_adopted] that]) simp
  have claimed: "guards persists_ready accepted_apply (adoptClaimed r env helper machine mc) t"
    if "stage_ok unready (obj t)" for helper machine mc t
    using that adopted [OF that] apply_ready_guarded [OF that] unfolding adoptClaimed_def Let_def
    by (intro guards_get) simp
  have inputs: "guards persists_ready accepted_apply (adoptWith r env helper inputs) t"
    if "stage_ok unready (obj t)" for helper inputs t
    unfolding adoptWith_def
    by (cases inputs) (auto simp: guards_ret split: prod.split
      intro!: guards_under_try_or [OF unready_under [OF stage_claim] that always_true] claimed)
  have helper: "under (stage_ok unready) (\<lambda>e. \<not> persists_ready e) (kNewHelper env)"
    by (intro unready_under under_ask) (simp add: stage_call_def)
  show ?thesis
    unfolding adopt_def
    by (intro guards_under_check_or [OF helper assms] guards_get
        guards_under_try_or [OF unready_under [OF stage_inputs] _ always_true] inputs)
qed

text \<open>C7. Ready is only persisted after an apply: in a run that starts on a machine that is not Ready,
  every patch that carries Ready comes after a configuration the machine accepted.\<close>

theorem ready_after_accepted_apply:
  assumes "\<not> mReady (mStatus (obj s))" and "run_state (adopt r env) s = (a, s')"
  shows "\<exists>es. log s' = log s @ es \<and> guarded persists_ready accepted_apply es"
  using guards_run [OF adopt_ready_guarded assms(2)] assms(1) by (auto simp: stage_ok_def)

lemma finish_persists:
  "wp (finishAdoption r env helper machine h cfg False wr) (\<lambda>_ s'. \<exists>e \<in> set (log s'). persists_ready e) s"
proof -
  have rest: "wp (reconcileAdopted r env helper machine) (\<lambda>_ s'. \<exists>e \<in> set (log s'). persists_ready e) t"
    if "\<exists>e \<in> set (log t). persists_ready e" for t
    by (rule wp_mono [OF emits_wp [OF adopted_no_apply]]) (use that in auto)
  have marked: "mReady (mStatus (markAdopted env h m))" for m
    by (simp add: markAdopted_def markMachineTrue_def Let_def)
  have patch: "persists_ready (Kube (EvPatchMachine b x own e)) = mReady (mStatus x)" for b x own e
    by (simp add: persists_ready_def)
  show ?thesis
    unfolding finishAdoption_def nudgeKubeletAfterReadopt_def patchMachine_def
    by (simp add: wp_simps marked patch rest split: option.split)
qed

text \<open>A fresh control-plane machine and a host that answers in maintenance mode.\<close>

definition fresh_env :: env where
  "fresh_env = reclaim_env\<lparr>k_get_owner_machine := \<lambda>h m. Inr (Some (owner
     \<lparr>cmDataSecretName := Some ''data'',
      cmMeta := (cmMeta owner)\<lparr>oLabels := fmap_of_list [(MachineControlPlaneLabel, '''')]\<rparr>\<rparr>))\<rparr>"

definition fresh_machine :: byot_machine where
  "fresh_machine = sample_machine
     \<lparr>mSpec := (mSpec sample_machine)\<lparr>mHostRef := Some ''new'', mInstallDisk := Some ''/dev/sda''\<rparr>\<rparr>"

lemma fresh_machine_fields:
  "\<not> mReady (mStatus fresh_machine)" "mResolvedHost (mStatus fresh_machine) = ''''"
  "mHostRef (mSpec fresh_machine) = Some ''new''" "mInstallDisk (mSpec fresh_machine) = Some ''/dev/sda''"
  "mUpgradeState (mStatus fresh_machine) = NoUpgrade"
  by (simp_all add: fresh_machine_def sample_machine_def)

lemma fresh_env_answers:
  "k_get_owner_machine fresh_env h m = Inr (Some (owner
     \<lparr>cmDataSecretName := Some ''data'',
      cmMeta := (cmMeta owner)\<lparr>oLabels := fmap_of_list [(MachineControlPlaneLabel, '''')]\<rparr>\<rparr>))"
  "k_get_secret fresh_env h k = Inr (fmap_of_list [(bootstrapSecretDataKey, ''cfg'')])"
  "k_get_host fresh_env h k = Inr (live_host (snd k) Available None)"
  "k_status_update_host fresh_env h x = Inr x" "k_update_host fresh_env h x = Inr x"
  "k_patch_machine fresh_env h b mm own = None" "k_new_helper fresh_env h = None"
  "hostClaimable fresh_env (live_host n ph ref)"
  "t_dial fresh_env h c = None" "t_version fresh_env h c = Inr [Some \<lparr>viTag = ''v1.9.0'', viArch = ''amd64''\<rparr>]"
  "t_apply_configuration fresh_env h c cfg = None"
  "l_yaml_stream fresh_env cfg = \<lparr>msgs = [], finish = None\<rparr>" "l_yaml_join fresh_env ds = Inr (concat ds)"
  by (simp_all add: fresh_env_def reclaim_env_def claim_env_def sample_env_def live_host_def sample_host_def
      hostClaimable_def sample_lib_def sample_is_true_def sample_condition_def)

lemma fresh_claims:
  "wp (claimHost r fresh_env helper) (\<lambda>a t. a = Inr (no_result, False) \<and> mSpec (obj t) = mSpec fresh_machine \<and>
      \<not> mReady (mStatus (obj t)) \<and> mUpgradeState (mStatus (obj t)) = NoUpgrade)
    \<lparr>obj = fresh_machine, log = l\<rparr>"
proof -
  have fields: "hClaimRef (hStatus (live_host n ph ref)) = ref" "hPhase (hStatus (live_host n ph ref)) = ph" for n ph ref
    by (simp_all add: live_host_def sample_host_def)
  have cas: "wp (claimCAS fresh_env host) (\<lambda>a t. a = Inr () \<and> obj t = obj s) s"
    for host and s :: "(byot_machine, event) gst"
    unfolding claimCAS_def Let_def
    by (simp add: wp_simps fresh_env_answers claimed_elsewhere_def fields)
  have take': "wp (takeCandidate fresh_env helper host) (\<lambda>a t. a = Inr (no_result, False) \<and>
      (\<exists>n a b. obj t = mStatus_update (\<lambda>st. st\<lparr>mResolvedHost := n, mResolvedPublicIP := a, mResolvedInternalIP := b\<rparr>) (obj s))) s"
    for host and s :: "(byot_machine, event) gst"
    unfolding takeCandidate_def patchMachine_def
    by (rule wp_bindI [OF cas]) (auto simp: wp_simps fresh_env_answers)
  show ?thesis
    unfolding claimHost_def verifyExistingClaim_def searchAndClaim_def
      resolveClaimCandidate_def resolveHostRef_def patchMachine_def Let_def
    by (simp add: wp_simps fresh_env_answers fresh_machine_fields fields claimed_elsewhere_def)
       (rule wp_mono [OF take'], auto simp: fresh_machine_fields)
qed

lemma no_documents: "foldl setCertSANs [] eps = []" "foldl setClusterAPIServerCertSANs [] eps = []"
  by (induction eps) (simp_all add: setCertSANs_def setClusterAPIServerCertSANs_def)

lemma fresh_applies:
  assumes "mSpec (obj t) = mSpec fresh_machine" and "\<not> mReady (mStatus (obj t))"
    and "fmlookup (oLabels (cmMeta machine)) MachineControlPlaneLabel \<noteq> None"
  shows "wp (applyAndMarkAdopted r fresh_env helper machine mc h) (\<lambda>_ s'. \<exists>e \<in> set (log s'). persists_ready e) t"
  unfolding applyAndMarkAdopted_def resolveApplyAuth_def preflightJoin_def probeMaintenance_def version_ok_def
    maintenanceClient_def dial_def applyAuthorized_def awaitControlPlaneReady_def applyConfiguration_def
    resolveInstallDisk_def injectInstallDisk_def injectHostCertSANs_def injectCertSANs_def
    injectClusterAPIServerCertSANs_def decodeMachineConfigDocs_def encodeMachineConfigDocs_def setInstallDisk_def
    applyMachineConfig_def clientFor_def Let_def
  using assms
  by (simp add: wp_simps fresh_env_answers fresh_machine_fields finish_persists no_documents)

lemma fresh_run_ready:
  "\<exists>e \<in> set (log (snd (run_state (adopt NewByotMachineReconciler fresh_env) (start fresh_machine)))). persists_ready e"
proof -
  have "wp (adopt NewByotMachineReconciler fresh_env) (\<lambda>_ s'. \<exists>e \<in> set (log s'). persists_ready e) (start fresh_machine)"
    unfolding adopt_def adoptionInputs_def bootstrapData_def adoptWith_def adoptClaimed_def Let_def
    by (simp add: wp_simps fresh_env_answers fmlookup_of_list)
       (rule wp_mono [OF fresh_claims], simp add: wp_simps configUnchanged_def fresh_applies fmlookup_of_list)
  from wp_run [OF this prod.collapse [symmetric]] show ?thesis .
qed

lemma ready_after_accepted_apply_witness:
  "\<exists>es. log (snd (run_state (adopt NewByotMachineReconciler fresh_env) (start fresh_machine))) = es \<and>
     guarded persists_ready accepted_apply es \<and> (\<exists>e \<in> set es. persists_ready e)"
  using fresh_run_ready
    ready_after_accepted_apply [where r = NewByotMachineReconciler and env = fresh_env, OF _ prod.collapse [symmetric],
      of "start fresh_machine"]
  by (simp add: fresh_machine_fields)

section \<open>Deletion\<close>

definition host_let_go :: "object_key \<Rightarrow> event \<Rightarrow> bool" where
  "host_let_go k e \<longleftrightarrow> (\<exists>err. e = Kube (EvGetHost k (Inl err)) \<and> is_not_found err) \<or>
     (\<exists>h y. e = Kube (EvStatusUpdateHost h (Inr y)) \<and> hClaimRef (hStatus h) = None)"

definition updates_machine :: "event \<Rightarrow> bool" where
  "updates_machine e \<longleftrightarrow> (\<exists>x r. e = Kube (EvUpdateMachine x r))"

definition release_call :: "event \<Rightarrow> bool" where
  "release_call e \<longleftrightarrow> only_resets e \<and> \<not> updates_machine e"

lemma release_call_simps [simp]:
  "release_call (Kube (EvGetHost k x))" "release_call (Kube (EvGetSecret k y))"
  "release_call (Kube (EvStatusUpdateHost h r))" "release_call (Kube (EvGetMachine k z))"
  by (simp_all add: release_call_def updates_machine_def)

lemma talos_release: "only_resets e \<Longrightarrow> talos_only e \<Longrightarrow> release_call e"
  by (auto simp: release_call_def updates_machine_def)

lemma release_calls: "emits release_call (releaseHost env)"
proof -
  have all: "emits release_call (attemptReset_loop env cands eps err)" for cands eps and err :: "goerr option"
    by (induction cands arbitrary: err)
       (auto simp: resetMachine_def release_call_def updates_machine_def intro!: emits_intros split: sum.split)
  have probe: "emits release_call (probeMaintenance env eps)" for eps
    by (rule emits_mono [OF harmless_probes(1)])
       (auto simp: release_call_def updates_machine_def only_resets_def harmless_def is_disruptive_def)
  show ?thesis
    unfolding releaseHost_def update_released_def attemptReset_def Let_def
    by (intro emits_intros all probe; simp)
qed

lemma keeps_releaseHost [keeps_intros]: "keeps (releaseHost env)"
  unfolding releaseHost_def update_released_def Let_def by (intro keeps_intros)

text \<open>The release succeeds only with evidence that the host is gone or written back unclaimed.\<close>

lemma update_released_last:
  "always (\<lambda>a s'. a = Inr () \<longrightarrow> host_let_go k (last (log s'))) (update_released env (release_to ph h))"
  unfolding always_def update_released_def
  by (auto simp: wp_simps host_let_go_def release_to_def split: sum.split)

lemma release_evidence:
  assumes "mResolvedHost (mStatus (obj s)) \<noteq> ''''"
  shows "wp (releaseHost env) (\<lambda>a s'. \<exists>es. log s' = log s @ es \<and>
     (a = Inr () \<longrightarrow> (\<exists>g \<in> set es. host_let_go (oNamespace (mMeta (obj s)), mResolvedHost (mStatus (obj s))) g))) s"
    (is "wp _ ?Q s")
proof -
  let ?k = "(oNamespace (mMeta (obj s)), mResolvedHost (mStatus (obj s)))"
  have later: "wp m ?Q t"
    if "log t = log s @ [e]" "emits (\<lambda>_. True) m" "always (\<lambda>a s'. a = Inr () \<longrightarrow> host_let_go ?k (last (log s'))) m" for m t e
  proof -
    have "wp m (\<lambda>a s'. (\<exists>es. log s' = log t @ es \<and> list_all (\<lambda>_. True) es) \<and>
        (a = Inr () \<longrightarrow> host_let_go ?k (last (log s')))) t"
      by (intro wp_conj emits_wp that(2) always_wp [OF that(3)])
    then show ?thesis
    proof (rule wp_mono, elim conjE exE)
      fix a :: "unit res" and s' :: "(byot_machine, event) gst" and es
      assume "a = Inr () \<longrightarrow> host_let_go ?k (last (log s'))" "log s' = log t @ es"
      then have "log s' = log s @ (e # es)" "a = Inr () \<longrightarrow> host_let_go ?k (last (e # es))"
        using that(1) by (simp_all del: last.simps)
      then show "?Q a s'" by (intro exI [of _ "e # es"]) (auto intro!: bexI [of _ "last (e # es)"] last_in_set simp del: last.simps set_simps)
    qed
  qed
  have emits: "emits (\<lambda>_. True) (update_released env h)" for h
    unfolding update_released_def by (intro emits_intros TrueI)
  have probed: "wp (do { live \<leftarrow> probeMaintenance env eps;
        if live then update_released env (release_to Available host)
        else try_or (resetCredentialCandidates env) id (\<lambda>candidates.
          try_or (attemptReset env candidates eps') wrap
            (\<lambda>_. update_released env (release_to Releasing host))) }) ?Q t"
    if "log t = log s @ [e]" for eps eps' wrap host t e
    by (rule later [OF that])
       (intro emits_intros emits emits_anything [OF harmless_probes(1)] emits_anything [OF emits_resetCredentialCandidates]
        emits_anything [OF emits_attemptReset] always_intros update_released_last; simp)+
  have gone: "host_let_go ?k (Kube (EvGetHost ?k (Inl err)))" if "is_not_found err" for err
    using that by (simp add: host_let_go_def)
  show ?thesis
    unfolding releaseHost_def Let_def
    by (rule wp_get_objI, simp only: assms if_False, subst wp_bind, simp only: wp_ask, rule wp_case_sumI,
        simp add: wp_simps gone, rule probed, simp)
qed

lemma delete_guarded:
  assumes "mResolvedHost (mStatus (obj s)) \<noteq> ''''"
  shows "guards updates_machine (host_let_go (oNamespace (mMeta (obj s)), mResolvedHost (mStatus (obj s))))
     (machineReconcileDelete r env) s" (is "guards _ ?G _ s")
proof -
  have rel: "wp (releaseHost env) (\<lambda>a s'. \<exists>es. log s' = log s @ es \<and> list_all (\<lambda>e. \<not> updates_machine e) es \<and>
      (a = Inr () \<longrightarrow> (\<exists>g \<in> set es. ?G g))) s"
    by (rule wp_mono [OF wp_conj [OF release_evidence [OF assms] emits_wp [OF release_calls]]])
       (auto simp: release_call_def elim!: list.pred_mono_strong)
  show ?thesis
    unfolding machineReconcileDelete_def Let_def
    by (rule guards_get, simp only: assms if_True, rule guards_if)
       (auto simp: guards_ret split: sum.split intro!: guards_evidence_bind [OF rel] emits_intros)
qed

definition dropped :: "'z lib_scheme \<Rightarrow> byot_machine \<Rightarrow> byot_machine" where
  "dropped L m = m\<lparr>mMeta := (mMeta m)\<lparr>oFinalizers :=
     fst (l_remove_finalizer L (oFinalizers (mMeta m)) byotMachineFinalizer)\<rparr>\<rparr>"

definition delete_call :: "'z lib_scheme \<Rightarrow> byot_machine \<Rightarrow> event \<Rightarrow> bool" where
  "delete_call L m e \<longleftrightarrow> only_resets e \<and> (\<forall>x r. e = Kube (EvUpdateMachine x r) \<longrightarrow> x = dropped L m)"

lemma delete_calls:
  "wp (machineReconcileDelete r env) (\<lambda>_ s'. \<exists>es. log s' = log s @ es \<and> list_all (delete_call env (obj s)) es) s"
proof -
  have rel: "emits (delete_call env (obj s)) (if c then releaseHost env else ret (Inr ()))" for c
    by (intro emits_intros emits_mono [OF release_calls]) (auto simp: release_call_def delete_call_def updates_machine_def)
  have kept: "keeps (if c then releaseHost env else ret (Inr ()))" for c
    by (intro keeps_intros)
  show ?thesis
    unfolding machineReconcileDelete_def Let_def
    by (rule wp_get_objI, rule wp_ifI, simp add: wp_ret, subst wp_bind, rule wp_opaque [OF rel kept])
       (auto simp: wp_simps delete_call_def dropped_def split: sum.split)
qed


definition deleting_env :: env where
  "deleting_env = claim_env\<lparr>k_get_machine := \<lambda>h k. Inr (bound_machine
     \<lparr>mMeta := (mMeta sample_machine)\<lparr>oDeletionTimestamp := Some 1, oFinalizers := [byotMachineFinalizer]\<rparr>\<rparr>)\<rparr>"


end
