(* ===== verification/Registry.thy ===== *)
theory Registry
  imports MachineRuns
begin

text \<open>
  Several reconciles at once. The claims of \<open>claim.go\<close> rest on the API server's optimistic
  concurrency: this theory shows that a whole reconcile of a ByotMachine writes the status of a
  host only at the version it has read and never over a claim of another machine, that the host
  controller only keeps or clears claims, and that in any interleaving of such runs, reads from
  a stale cache included, no claim passes from one machine to another without a release.
\<close>

section \<open>What a reconciler writes to hosts\<close>

definition holder :: "byot_host \<Rightarrow> string option" where
  "holder h = map_option crUID (hClaimRef (hStatus h))"

text \<open>A status write derived from a read: the metadata of the read (so its resource version), and a
  claim that is kept, cleared, or taken where there was none of another machine.\<close>

definition derived :: "byot_host \<Rightarrow> byot_host \<Rightarrow> bool" where
  "derived latest x \<longleftrightarrow> hMeta x = hMeta latest \<and>
     (holder x = None \<or> holder latest = None \<or> holder x = holder latest)"

definition reads_first :: "event list \<Rightarrow> bool" where
  "reads_first es \<longleftrightarrow> (\<forall>pre x r post. es = pre @ Kube (EvStatusUpdateHost x r) # post \<longrightarrow>
     (\<exists>k latest. Kube (EvGetHost k (Inr latest)) \<in> set pre \<and> derived latest x)) \<and>
   (\<forall>b x r. Kube (EvPatchHost b x r) \<notin> set es)"

definition status_write :: "event \<Rightarrow> bool" where
  "status_write e \<longleftrightarrow> (\<exists>x r. e = Kube (EvStatusUpdateHost x r)) \<or> (\<exists>b x r. e = Kube (EvPatchHost b x r))"

lemma reads_first_append:
  assumes "reads_first es" and "reads_first es'"
  shows "reads_first (es @ es')"
  unfolding reads_first_def
proof (intro conjI allI impI)
  fix b x r show "Kube (EvPatchHost b x r) \<notin> set (es @ es')"
    using assms by (simp add: reads_first_def)
next
  fix pre x r post assume eq: "es @ es' = pre @ Kube (EvStatusUpdateHost x r) # post"
  then consider us where "es = pre @ Kube (EvStatusUpdateHost x r) # us"
    | us where "pre = es @ us" "es' = us @ Kube (EvStatusUpdateHost x r) # post"
    by (auto simp: append_eq_append_conv2 Cons_eq_append_conv append_eq_Cons_conv)
  then show "\<exists>k latest. Kube (EvGetHost k (Inr latest)) \<in> set pre \<and> derived latest x"
  proof cases
    case 1
    with assms(1) show ?thesis unfolding reads_first_def by blast
  next
    case 2
    with assms(2) show ?thesis unfolding reads_first_def by fastforce
  qed
qed

interpretation writes: trace_law reads_first
  by unfold_locales (simp add: reads_first_def, rule reads_first_append)

lemma reads_first_single: "\<not> status_write e \<Longrightarrow> reads_first [e]"
  by (auto simp: reads_first_def status_write_def Cons_eq_append_conv)

lemma writes_ask: "(\<And>r. \<not> status_write (event r)) \<Longrightarrow> writes.tracks (ask answer event)"
  by (rule writes.tracks_ask) (rule reads_first_single)

lemma writes_emits: "emits (\<lambda>e. \<not> status_write e) m \<Longrightarrow> writes.tracks m"
  by (erule writes.tracks_emits) (rule reads_first_single)

lemma status_write_simps [simp]:
  "status_write (Kube (EvStatusUpdateHost x r))" "\<not> status_write (Talos t)" "\<not> status_write (Workload w)"
  "\<not> status_write (Clock n)" "\<not> status_write (Kube (EvGetHost k y))" "\<not> status_write (Kube (EvGetSecret k z))"
  "\<not> status_write (Kube (EvPatchMachine b m own p))" "\<not> status_write (Kube (EvNewHelper q))"
  by (simp_all add: status_write_def)

text \<open>After a read, whatever is written derives from it.\<close>

definition from_read :: "byot_host \<Rightarrow> event \<Rightarrow> bool" where
  "from_read latest e \<longleftrightarrow> (\<forall>x r. e = Kube (EvStatusUpdateHost x r) \<longrightarrow> derived latest x) \<and>
     (\<forall>b x r. e \<noteq> Kube (EvPatchHost b x r))"

lemma from_read_simps [simp]:
  "from_read latest (Kube (EvStatusUpdateHost x r)) = derived latest x"
  "\<not> status_write e \<Longrightarrow> from_read latest e"
  by (auto simp: from_read_def status_write_def)

lemma reads_first_read:
  assumes "list_all (from_read latest) es"
  shows "reads_first (Kube (EvGetHost k (Inr latest)) # es)"
  unfolding reads_first_def
proof (intro conjI allI impI)
  fix b x r show "Kube (EvPatchHost b x r) \<notin> set (Kube (EvGetHost k (Inr latest)) # es)"
    using assms by (auto simp: list_all_iff from_read_def)
next
  fix pre x r post assume eq: "Kube (EvGetHost k (Inr latest)) # es = pre @ Kube (EvStatusUpdateHost x r) # post"
  then obtain pre' where pre: "pre = Kube (EvGetHost k (Inr latest)) # pre'" by (cases pre) auto
  with eq assms have "derived latest x" by simp
  with pre show "\<exists>k latest. Kube (EvGetHost k (Inr latest)) \<in> set pre \<and> derived latest x"
    by (intro exI [of _ k] exI [of _ latest]) simp
qed

lemma writes_read:
  assumes "\<And>latest. emits (from_read latest) (f (Inr latest))" and "\<And>e. writes.tracks (f (Inl e))"
  shows "writes.tracks (State_Monad.bind (kGetHost env k) f)"
  unfolding writes.tracks_def wp_bind wp_ask
proof
  fix s :: "('a, event) gst"
  let ?got = "k_get_host env (log s) k"
  let ?t = "s\<lparr>log := log s @ [Kube (EvGetHost k ?got)]\<rparr>"
  show "wp (f ?got) (\<lambda>_ s'. \<exists>es. log s' = log s @ es \<and> reads_first es) ?t"
  proof (cases ?got)
    case (Inl e)
    from assms(2) [of e]
    have "wp (f (Inl e)) (\<lambda>_ s'. \<exists>es. log s' = log ?t @ es \<and> reads_first es) ?t"
      unfolding writes.tracks_def by blast
    moreover have "reads_first [Kube (EvGetHost k ?got)]" by (rule reads_first_single) simp
    ultimately show ?thesis
      unfolding Inl by (elim wp_mono) (auto dest: reads_first_append)
  next
    case (Inr latest)
    show ?thesis
      unfolding Inr by (rule wp_mono [OF emits_wp [OF assms(1)]]) (auto dest: reads_first_read)
  qed
qed

lemma writes_read_case:
  assumes "\<And>latest. emits (from_read latest) (f latest)" and "\<And>e. writes.tracks (g e)"
  shows "writes.tracks (State_Monad.bind (kGetHost env k) (\<lambda>got. case got of Inl e \<Rightarrow> g e | Inr latest \<Rightarrow> f latest))"
  by (rule writes_read) (simp_all add: assms)

lemma writes_read_or:
  assumes "\<And>latest. emits (from_read latest) (f latest)"
  shows "writes.tracks (try_or (kGetHost env k) wrap f)"
  unfolding try_or_def
  by (rule writes_read) (simp_all add: assms writes.tracks_ret)

lemma writes_claim: "writes.tracks (claimHost r env helper)"
proof -
  have take_claim: "derived latest (set_claim m latest)" if "\<not> claimed_elsewhere (oUID (mMeta m)) latest" for latest m
    using that by (auto simp: derived_def holder_def set_claim_def claim_ref_of_def claimed_elsewhere_def split: option.splits)
  have cas: "writes.tracks (claimCAS env host)" for host
    unfolding claimCAS_def Let_def
    by (intro writes.tracks_bind writes.tracks_get writes_read_or emits_intros) (simp_all add: take_claim status_write_def)
  have resolve: "writes.tracks (resolveClaimCandidate env)"
    unfolding resolveClaimCandidate_def resolveHostRef_def selectClaimCandidate_def
    by (intro writes.tracks_intros writes_ask; simp add: status_write_def)
  show ?thesis
    unfolding claimHost_def verifyExistingClaim_def searchAndClaim_def takeCandidate_def clearResolvedHost_def
      patchMachine_def Let_def
    by (intro writes.tracks_intros cas resolve writes_ask; simp)
qed

text \<open>The release and the version mirror.\<close>

lemma quiet_from_read: "emits (\<lambda>e. \<not> status_write e) m \<Longrightarrow> emits (from_read latest) m"
  by (erule emits_mono) simp

lemma talos_no_write: "emits talos_only m \<Longrightarrow> emits (\<lambda>e. \<not> status_write e) m"
  by (erule emits_mono) (auto simp: talos_only_def split: event.splits)

lemma harmless_no_write: "harmless e \<Longrightarrow> \<not> status_write e"
  by (auto simp: harmless_def talos_only_def status_write_def)

lemma reset_no_write: "emits (\<lambda>e. \<not> status_write e) (attemptReset env cands eps)"
  by (rule emits_reset_tried) simp

lemma writes_release: "writes.tracks (releaseHost env)"
proof -
  have cleared: "derived latest (release_to ph latest)" for latest ph
    by (simp add: derived_def holder_def release_to_def)
  show ?thesis
    unfolding releaseHost_def update_released_def Let_def
    by (rule writes.tracks_bind [OF writes.tracks_get], rule writes.tracks_if, rule writes.tracks_ret, rule writes_read_case)
       ((intro emits_intros quiet_from_read [OF reset_no_write]
          quiet_from_read [OF emits_mono [OF harmless_probes(1) harmless_no_write]];
        (simp add: cleared)?), simp add: writes.tracks_ret)
qed

lemma writes_mirror: "writes.tracks (syncHostTalosVersion env)"
proof -
  have mirrored: "derived latest (hStatus_update (\<lambda>st. st\<lparr>hTalosVersion := v\<rparr>) latest)" for latest v
    by (simp add: derived_def holder_def)
  show ?thesis
    unfolding syncHostTalosVersion_def Let_def
    by (rule writes.tracks_bind [OF writes.tracks_get], rule writes.tracks_if, rule writes.tracks_ret, rule writes_read_case)
       ((intro emits_intros; simp add: mirrored), simp add: writes.tracks_ret)
qed

text \<open>Everything else writes no host status.\<close>

lemma talosconfig_no_write:
  "emits (\<lambda>e. \<not> status_write e) (referencedTalosConfig env n ns)"
  "emits (\<lambda>e. \<not> status_write e) (clusterTalosConfig env n ns)"
  "emits (\<lambda>e. \<not> status_write e) (resetCredentialCandidates env)"
  by (rule emits_talosconfig; simp)+

lemmas probes_no_write = harmless_probes [THEN emits_mono, OF harmless_no_write]

lemma await_no_write: "emits (\<lambda>e. \<not> status_write e) (awaitClusterTalosConfig r env c)"
  unfolding awaitClusterTalosConfig_def by (intro emits_intros talosconfig_no_write)

lemma patch_no_write: "emits (\<lambda>e. \<not> status_write e) (patchMachine env helper own what)"
  by (intro emits_patchMachine) simp

lemma writes_upgrade: "writes.tracks (ensureTalosVersion r env helper machine)"
proof -
  note quiet = writes_emits [OF await_no_write] writes_emits [OF patch_no_write]
    writes_emits [OF probes_no_write(6)] writes_emits [OF probes_no_write(8)]
  have stamp: "writes.tracks stampGeneration" unfolding stampGeneration_def by (rule writes.tracks_modify)
  have fin: "writes.tracks (finalizeUpgradeFailure r env reason e)" for reason e
    unfolding finalizeUpgradeFailure_def resetAdoptedHostImpl_def
    by (intro writes.tracks_intros quiet stamp writes_emits [OF talosconfig_no_write(3)]
        writes_emits [OF reset_no_write] writes_ask) simp_all
  have rec: "writes.tracks (recordUpgradeProbeFailure r env helper thr reason e rst)" for thr reason e rst
    unfolding recordUpgradeProbeFailure_def by (intro writes.tracks_intros quiet stamp fin)
  have complete: "writes.tracks (markUpgradeComplete env helper)"
    unfolding markUpgradeComplete_def by (intro writes.tracks_intros quiet stamp writes_mirror)
  have upg: "writes.tracks (upgradeMachine env eps cfg img)" for eps cfg img
    unfolding upgradeMachine_def runLifecycleUpgrade_def rebootMachine_def Let_def
    by (rule writes_emits) (intro emits_intros probes_no_write; simp)
  have issue: "writes.tracks (upgradeProbeAndIssue r env helper machine d)" for d
    unfolding upgradeProbeAndIssue_def issueUpgrade_def
    by (auto intro!: writes.tracks_intros quiet stamp rec fin upg split: awaited.split)
  have poll: "writes.tracks (pollAgain r env helper)"
    unfolding pollAgain_def by (intro writes.tracks_intros quiet)
  have fb: "writes.tracks (upgradeInFlightVersionFallback r env helper eps cfg)" for eps cfg
    unfolding upgradeInFlightVersionFallback_def Let_def
    by (intro writes.tracks_intros quiet rec complete poll)
  have gate: "writes.tracks (upgradeInFlightBootIDGate r env helper eps cfg b)" for eps cfg b
    unfolding upgradeInFlightBootIDGate_def by (intro writes.tracks_intros quiet rec complete poll fb)
  have fly: "writes.tracks (upgradeInFlight r env helper machine)"
    unfolding upgradeInFlight_def
    by (auto intro!: writes.tracks_intros quiet fb gate split: awaited.split)
  have retrigger: "writes.tracks (retriggerStaleUpgradeFailure env helper)"
    "writes.tracks (markInvalidImageRef env helper)"
    unfolding retriggerStaleUpgradeFailure_def markInvalidImageRef_def
    by (intro writes.tracks_intros quiet stamp)+
  show ?thesis
    unfolding ensureTalosVersion_def
    by (auto intro!: writes.tracks_intros retrigger issue fly complete split: upgrade_state.split option.split)
qed

lemma writes_link: "writes.tracks (linkNode r env helper machine)"
proof -
  have client: "writes.tracks (resolveWorkloadClient env k)" for k
    unfolding resolveWorkloadClient_def buildIPDirectClient_def
    by (intro writes.tracks_intros writes_ask; simp)
  have node: "writes.tracks (getWorkloadNode env c n)" for c n
    unfolding getWorkloadNode_def by (intro writes.tracks_intros writes_ask; simp)
  have pid: "writes.tracks (patchWorkloadNode env c p)" for c p
    unfolding patchWorkloadNode_def Let_def by (intro writes.tracks_intros node writes_ask; simp)
  have labels: "writes.tracks (patchWorkloadNodeLabels env c n l)" for c n l
    unfolding patchWorkloadNodeLabels_def Let_def by (intro writes.tracks_intros node writes_ask; simp)
  show ?thesis
    unfolding linkNode_def updateNodeProviderID_def syncNodeLabels_def ensureNodeLinked_def Let_def
    by (intro writes.tracks_intros client pid labels writes_emits [OF patch_no_write] writes_ask;
        simp add: status_write_def)
qed

lemma writes_inputs: "writes.tracks (adoptionInputs r env)"
  unfolding adoptionInputs_def bootstrapData_def Let_def
  by (intro writes.tracks_intros writes_ask; simp add: status_write_def)

lemma writes_preflight: "writes.tracks (resolveApplyAuth r env helper machine)"
proof -
  note quiet = writes_emits [OF await_no_write] writes_emits [OF patch_no_write]
    writes_emits [OF talosconfig_no_write(1)] writes_emits [OF talosconfig_no_write(2)]
    writes_emits [OF probes_no_write(1)] writes_emits [OF probes_no_write(2)]
  have fail: "writes.tracks (recordPreflightFailure env helper reason e)" for reason e
    unfolding recordPreflightFailure_def by (intro writes.tracks_intros quiet)
  have foreign: "writes.tracks (preflightForeignMachine r env helper)"
    unfolding preflightForeignMachine_def by (intro writes.tracks_intros quiet fail)
  show ?thesis
    unfolding resolveApplyAuth_def preflightJoin_def Let_def by (intro writes.tracks_intros quiet foreign)
qed

lemma writes_apply: "writes.tracks (applyAndMarkAdopted r env helper machine mc h)"
proof -
  note patch = writes_emits [OF patch_no_write]
  have gate: "writes.tracks (awaitControlPlaneReady r env helper machine)"
    unfolding awaitControlPlaneReady_def clusterControlPlaneReady_def
    by (intro writes.tracks_intros patch writes_ask; simp add: status_write_def)
  have fail: "writes.tracks (recordApplyFailure env helper e)" for e
    unfolding recordApplyFailure_def by (intro writes.tracks_intros patch)
  have disk: "writes.tracks (resolveInstallDisk env c tc)" for c tc
    unfolding resolveInstallDisk_def Let_def by (intro writes.tracks_intros writes_emits [OF probes_no_write(5)])
  have send: "writes.tracks (applyMachineConfig env eps c tc)" for eps c tc
    unfolding applyMachineConfig_def clientFor_def authenticatedClient_def maintenanceClient_def dial_def
    by (intro writes.tracks_intros writes_ask; simp)
  have config: "writes.tracks (applyConfiguration env helper c tc)" for c tc
    unfolding applyConfiguration_def Let_def by (intro writes.tracks_intros disk send fail)
  have nudge: "writes.tracks (nudgeKubeletAfterReadopt env tc bm wr)" for tc bm wr
    unfolding nudgeKubeletAfterReadopt_def Let_def
    by (intro writes.tracks_intros writes_emits [OF probes_no_write(3)] writes_emits [OF probes_no_write(4)])
  have adopted: "writes.tracks (reconcileAdopted r env helper machine)" for helper machine
    unfolding reconcileAdopted_def by (intro writes.tracks_intros writes_upgrade writes_link)
  show ?thesis
    unfolding applyAndMarkAdopted_def applyAuthorized_def finishAdoption_def Let_def
    by (auto intro!: writes.tracks_intros writes_preflight gate config nudge adopted patch split: awaited.split)
qed

text \<open>A whole reconcile of a ByotMachine only writes hosts it has read.\<close>

lemma writes_reconcile: "writes.tracks (machineReconcile r env req)"
proof -
  have adopted: "writes.tracks (reconcileAdopted r env helper machine)" for helper machine
    unfolding reconcileAdopted_def by (intro writes.tracks_intros writes_upgrade writes_link)
  have claimed: "writes.tracks (adoptClaimed r env helper machine mc)" for helper machine mc
    unfolding adoptClaimed_def Let_def by (intro writes.tracks_intros adopted writes_apply)
  have inputs: "writes.tracks (adoptWith r env helper inputs)" for helper inputs
    unfolding adoptWith_def by (cases inputs) (auto intro!: writes.tracks_intros writes_claim claimed)
  have adopt: "writes.tracks (adopt r env)"
    unfolding adopt_def by (intro writes.tracks_intros writes_inputs inputs writes_ask) simp
  have delete: "writes.tracks (machineReconcileDelete r env)"
    unfolding machineReconcileDelete_def Let_def
    by (intro writes.tracks_intros writes_release writes_ask; simp add: status_write_def)
  show ?thesis
    unfolding machineReconcile_def
    by (intro writes.tracks_intros adopt delete writes_ask; simp add: status_write_def)
qed

section \<open>The registry\<close>

text \<open>The API server's side: the stored hosts, and every version of a host there has ever been.\<close>

record registry =
  stored :: "object_key \<Rightarrow> byot_host option"
  version_of :: "object_key \<Rightarrow> string \<Rightarrow> byot_host option"

definition revision :: "byot_host \<Rightarrow> string" where
  "revision h = oResourceVersion (hMeta h)"

definition host_key :: "byot_host \<Rightarrow> object_key" where
  "host_key h = key_of (hMeta h)"

definition store :: "byot_host \<Rightarrow> registry \<Rightarrow> registry" where
  "store h g = g\<lparr>stored := (stored g)(host_key h \<mapsto> h),
     version_of := (version_of g)(host_key h := (version_of g (host_key h))(revision h \<mapsto> h))\<rparr>"

definition fresh :: "registry \<Rightarrow> byot_host \<Rightarrow> bool" where
  "fresh g h \<longleftrightarrow> version_of g (host_key h) (revision h) = None"

text \<open>How the API server answers. A read comes from the client's cache: any version there has been. A
  status update is accepted only at the version it was read at (optimistic concurrency) and
  changes only the status. A patch of the host controller is a merge patch without such a
  check: it changes the claim only if the sender changed it. Updates of the main resource leave
  the status alone. Calls that fail, and calls about other objects, change nothing.\<close>

inductive serve :: "registry \<Rightarrow> event \<Rightarrow> registry \<Rightarrow> bool" where
  got: "host_key h = k \<Longrightarrow> version_of g k (revision h) = Some h \<Longrightarrow> serve g (Kube (EvGetHost k (Inr h))) g"
| wrote: "stored g (host_key x) = Some cur \<Longrightarrow> revision x = revision cur \<Longrightarrow> host_key y = host_key cur \<Longrightarrow>
    hStatus y = hStatus x \<Longrightarrow> fresh g y \<Longrightarrow> serve g (Kube (EvStatusUpdateHost x (Inr y))) (store y g)"
| updated: "stored g (host_key x) = Some cur \<Longrightarrow> host_key y = host_key cur \<Longrightarrow>
    hStatus y = hStatus cur \<Longrightarrow> fresh g y \<Longrightarrow> serve g (Kube (EvUpdateHost x (Inr y))) (store y g)"
| patched: "stored g (host_key x) = Some cur \<Longrightarrow> host_key y = host_key cur \<Longrightarrow>
    holder y = (if holder x = holder b then holder cur else holder x) \<Longrightarrow> fresh g y \<Longrightarrow>
    serve g (Kube (EvPatchHost b x None)) (store y g)"
| unaffected: "(\<And>k h. e \<noteq> Kube (EvGetHost k (Inr h))) \<Longrightarrow> (\<And>x y. e \<noteq> Kube (EvStatusUpdateHost x (Inr y))) \<Longrightarrow>
    (\<And>x y. e \<noteq> Kube (EvUpdateHost x (Inr y))) \<Longrightarrow> (\<And>b x. e \<noteq> Kube (EvPatchHost b x None)) \<Longrightarrow> serve g e g"

inductive_cases serve_gotE: "serve g (Kube (EvGetHost k (Inr h))) g'"
inductive_cases serve_wroteE: "serve g (Kube (EvStatusUpdateHost x (Inr y))) g'"
inductive_cases serve_patchedE: "serve g (Kube (EvPatchHost b x None)) g'"

text \<open>A history: calls of any number of reconciles, each with the number of its run, interleaved
  in any order, and between them operators who create, edit or delete hosts but do not write
  the status.\<close>

inductive history :: "registry \<Rightarrow> (nat \<times> event) list \<Rightarrow> registry \<Rightarrow> bool" for g\<^sub>0 where
  begins: "history g\<^sub>0 [] g\<^sub>0"
| serves: "history g\<^sub>0 tr g \<Longrightarrow> serve g e g' \<Longrightarrow> history g\<^sub>0 (tr @ [(i, e)]) g'"
| created: "history g\<^sub>0 tr g \<Longrightarrow> stored g (host_key h) = None \<Longrightarrow> fresh g h \<Longrightarrow> holder h = None \<Longrightarrow>
    history g\<^sub>0 tr (store h g)"
| edited: "history g\<^sub>0 tr g \<Longrightarrow> stored g (host_key h) = Some cur \<Longrightarrow> hStatus h = hStatus cur \<Longrightarrow> fresh g h \<Longrightarrow>
    history g\<^sub>0 tr (store h g)"
| deleted: "history g\<^sub>0 tr g \<Longrightarrow> history g\<^sub>0 tr (g\<lparr>stored := (stored g)(k := None)\<rparr>)"

definition calls_of :: "nat \<Rightarrow> (nat \<times> event) list \<Rightarrow> event list" where
  "calls_of i tr = map snd (filter (\<lambda>p. fst p = i) tr)"

definition consistent :: "registry \<Rightarrow> bool" where
  "consistent g \<longleftrightarrow> (\<forall>k h. stored g k = Some h \<longrightarrow> host_key h = k \<and> version_of g k (revision h) = Some h)"

lemma consistentD:
  "consistent g \<Longrightarrow> stored g k = Some h \<Longrightarrow> host_key h = k"
  "consistent g \<Longrightarrow> stored g k = Some h \<Longrightarrow> version_of g k (revision h) = Some h"
  unfolding consistent_def by blast+

lemma consistent_store: "consistent g \<Longrightarrow> fresh g h \<Longrightarrow> consistent (store h g)"
  by (auto simp: consistent_def store_def fresh_def)

lemma version_store: "version_of g k v = Some h' \<Longrightarrow> fresh g h \<Longrightarrow> version_of (store h g) k v = Some h'"
  by (auto simp: store_def fresh_def)

lemma serve_consistent: "serve g e g' \<Longrightarrow> consistent g \<Longrightarrow> consistent g'"
  by (erule serve.cases) (auto intro: consistent_store)

lemma serve_versions: "serve g e g' \<Longrightarrow> version_of g k v = Some h \<Longrightarrow> version_of g' k v = Some h"
  by (erule serve.cases) (auto intro: version_store)

lemma history_sound:
  assumes "history g\<^sub>0 tr g" and "consistent g\<^sub>0"
  shows "consistent g \<and> (\<forall>i k h. (i, Kube (EvGetHost k (Inr h))) \<in> set tr \<longrightarrow>
     version_of g (host_key h) (revision h) = Some h)"
  using assms(1)
proof induction
  case begins
  with assms(2) show ?case by simp
next
  case (serves tr g e g' i)
  have "version_of g' (host_key h) (revision h) = Some h"
    if "(j, Kube (EvGetHost k (Inr h))) \<in> set (tr @ [(i, e)])" for j k h
  proof (cases "(j, Kube (EvGetHost k (Inr h))) \<in> set tr")
    case True
    with serves.IH have "version_of g (host_key h) (revision h) = Some h" by blast
    with serves.hyps(2) show ?thesis by (rule serve_versions)
  next
    case False
    with that have "e = Kube (EvGetHost k (Inr h))" by simp
    with serves.hyps(2) show ?thesis by (auto elim: serve_gotE)
  qed
  with serves show ?case by (blast intro: serve_consistent)
next
  case (created tr g h)
  then show ?case by (auto intro: consistent_store version_store)
next
  case (edited tr g h cur)
  then show ?case by (auto intro: consistent_store version_store)
next
  case (deleted tr g k)
  then show ?case by (auto simp: consistent_def)
qed

section \<open>What the host controller writes\<close>

text \<open>A patch of the host controller keeps the claim it has read or clears it.\<close>

definition gentle :: "event \<Rightarrow> bool" where
  "gentle e \<longleftrightarrow> (\<forall>x r. e \<noteq> Kube (EvStatusUpdateHost x r)) \<and>
     (\<forall>b x r. e = Kube (EvPatchHost b x r) \<longrightarrow> holder x = holder b \<or> holder x = None)"

definition kept_or_cleared :: "byot_host \<Rightarrow> byot_host \<Rightarrow> bool" where
  "kept_or_cleared b x \<longleftrightarrow> holder x = holder b \<or> holder x = None"

lemma gentle_simps [simp]:
  "gentle (Kube (EvPatchHost b x r)) = kept_or_cleared b x" "gentle (Talos t)" "gentle (Clock n)"
  "gentle (Kube (EvNewHelper q))" "gentle (Kube (EvGetHost k h))" "gentle (Kube (EvUpdateHost y u))"
  "gentle (Kube (EvEnsureFinalizerHost y' f w))"
  by (auto simp: gentle_def status_write_def kept_or_cleared_def)

lemma harmless_gentle: "emits harmless m \<Longrightarrow> emits gentle m"
  by (erule emits_mono) (auto simp: harmless_def talos_only_def split: event.splits)

lemma host_patch_gentle: "under (kept_or_cleared b) gentle (patchThenRequeue env b d)"
  unfolding patchThenRequeue_def patchHost_def
  by (intro under_intros) simp_all

lemma host_modify:
  assumes "\<And>st. hClaimRef (f st) = hClaimRef st \<or> hClaimRef (f st) = None"
  shows "under (kept_or_cleared b) gentle (modify_obj (hStatus_update f))"
proof (rule under_modify)
  fix x assume "kept_or_cleared b x"
  with assms [of "hStatus x"] show "kept_or_cleared b (hStatus_update f x)"
    by (auto simp: kept_or_cleared_def holder_def)
qed

lemma host_labels: "under (kept_or_cleared b) gentle (modify_obj (applyDiscoveryLabels env))"
  by (rule under_modify) (simp add: kept_or_cleared_def holder_def)

lemma host_gentle: "under (kept_or_cleared b) gentle (reconcileHost r env b)"
proof -
  have now: "under (kept_or_cleared b) gentle (tNow env)" by (rule under_ask) simp
  have probe: "under (kept_or_cleared b) gentle (probeMaintenance env eps)" for eps
    by (intro under_kept keeps_intros harmless_gentle harmless_probes(1))
  have disc: "under (kept_or_cleared b) gentle (discoverHost env eps ip)" for eps ip
    by (intro under_kept keeps_discoverHost harmless_gentle harmless_discoverHost)
  have pop: "under (kept_or_cleared b) gentle (populateFromDiscovery env result)" for result
    unfolding populateFromDiscovery_def
    by (intro under_intros host_modify now) (simp_all add: markHostFalse_def markHostTrue_def split: option.split)
  have dfail: "under (kept_or_cleared b) gentle (recordDiscoveryFailure r env b e)" for e
    unfolding recordDiscoveryFailure_def
    by (intro under_intros host_modify now host_labels host_patch_gentle) (simp_all add: markHostFalse_def)
  have pfail: "under (kept_or_cleared b) gentle (recordProbeFailure r env b)"
    unfolding recordProbeFailure_def Let_def
    by (intro under_intros host_modify now host_labels host_patch_gentle) (simp_all add: markHostFalse_def)
  note parts = under_intros host_modify now host_labels host_patch_gentle probe disc pop dfail pfail
  have "under (kept_or_cleared b) gentle (reconcileProbing r env b)"
    "under (kept_or_cleared b) gentle (reconcileAvailable r env b)"
    "under (kept_or_cleared b) gentle (reconcileUnavailable r env b)"
    "under (kept_or_cleared b) gentle (reconcileReleasing r env b)"
    unfolding reconcileProbing_def reconcileAvailable_def reconcileUnavailable_def reconcileReleasing_def
    by (intro parts; simp add: markHostTrue_def)+
  then show ?thesis
    unfolding reconcileHost_def by (intro under_get) (auto intro: under_ret split: host_phase.split)
qed

lemma host_delete_gentle: "emits gentle (hostReconcileDelete r env)"
  unfolding hostReconcileDelete_def Let_def by (intro emits_intros) simp

lemma gentle_later:
  assumes "wp m (\<lambda>_ s'. \<exists>es'. log s' = log t @ es' \<and> list_all gentle es') t"
    and "log t = l @ es" and "list_all gentle es"
  shows "wp m (\<lambda>_ s'. \<exists>es. log s' = l @ es \<and> list_all gentle es) t"
  using assms(1) by (rule wp_mono) (use assms(2,3) in auto)

lemma hostReconcile_gentle:
  "wp (hostReconcile r env req) (\<lambda>_ s'. \<exists>es. log s' = log s @ es \<and> list_all gentle es) s"
    (is "wp _ ?Q s")
proof -
  have run: "wp (reconcileHost r env h) (\<lambda>_ s'. \<exists>es'. log s' = log t @ es' \<and> list_all gentle es') t" if "obj t = h" for h t
  proof -
    have "wp (reconcileHost r env h) (\<lambda>_ s'. kept_or_cleared h (obj s') \<and>
        (\<exists>es'. log s' = log t @ es' \<and> list_all gentle es')) t"
      using host_gentle [of h r env] that by (simp add: under_def kept_or_cleared_def)
    then show ?thesis by (rule wp_mono) blast
  qed
  show ?thesis
    unfolding hostReconcile_def wp_bind wp_ask
  proof (rule wp_case_sumI)
    fix e assume "k_get_host env (log s) req = Inl e"
    then show "wp (if is_not_found e then ret (Inr no_result)
               else ret (Inl (errorf (''failed to get ByotHost '' @ key_text req) e))) ?Q
       (s\<lparr>log := log s @ [Kube (EvGetHost req (k_get_host env (log s) req))]\<rparr>)"
      by (simp add: wp_simps)
  next
    fix h assume "k_get_host env (log s) req = Inr h"
    then show "wp (do { modify_obj (\<lambda>_. h);
                   if oDeletionTimestamp (hMeta h) \<noteq> None then hostReconcileDelete r env
                   else try_or (kEnsureFinalizerHost env h byotHostFinalizer)
                     (errorf (''failed to add finalizer to ByotHost '' @ key_text req)) (\<lambda>host.
                       do { modify_obj (\<lambda>_. host);
                            check_or (kNewHelper env)
                              (errorf (''failed to create patch helper for ByotHost '' @ key_text req))
                              (reconcileHost r env host) }) }) ?Q
       (s\<lparr>log := log s @ [Kube (EvGetHost req (k_get_host env (log s) req))]\<rparr>)"
      by (cases s) (auto simp: wp_simps split: sum.split option.split
        intro!: gentle_later [OF emits_wp [OF host_delete_gentle]] gentle_later [OF run])
  qed
qed


section \<open>Exclusive claims\<close>

definition machine_run :: "event list \<Rightarrow> bool" where
  "machine_run es \<longleftrightarrow> (\<exists>r env req s a s'. run_state (machineReconcile r env req) s = (a, s') \<and> log s' = log s @ es)"

definition host_run :: "event list \<Rightarrow> bool" where
  "host_run es \<longleftrightarrow> (\<exists>r env req s a s'. run_state (hostReconcile r env req) s = (a, s') \<and> log s' = log s @ es)"

definition runs_controllers :: "(nat \<times> event) list \<Rightarrow> bool" where
  "runs_controllers tr \<longleftrightarrow> (\<forall>i. \<exists>es. prefix (calls_of i tr) es \<and> (machine_run es \<or> host_run es))"

lemma machine_run_writes: "machine_run es \<Longrightarrow> reads_first es"
  by (auto simp: machine_run_def dest!: writes.tracks_run [OF writes_reconcile])

lemma host_run_gentle: "host_run es \<Longrightarrow> list_all gentle es"
  by (auto simp: host_run_def dest!: wp_run [OF hostReconcile_gentle])

lemma calls_of_snoc: "calls_of i (tr @ [(i, e)]) = calls_of i tr @ [e]"
  by (simp add: calls_of_def)

lemma calls_of_mem: "e \<in> set (calls_of i tr) \<longleftrightarrow> (i, e) \<in> set tr"
  by (force simp: calls_of_def)

text \<open>What a call of a controller can be, given its earlier calls.\<close>

lemma controller_call:
  assumes "runs_controllers (tr @ [(i, e)])"
  obtains x r k latest where "e = Kube (EvStatusUpdateHost x r)" "(i, Kube (EvGetHost k (Inr latest))) \<in> set tr"
      "derived latest x"
  | b x r where "e = Kube (EvPatchHost b x r)" "kept_or_cleared b x"
  | "\<not> status_write e"
proof -
  from assms obtain es where "prefix (calls_of i tr @ [e]) es" and run: "machine_run es \<or> host_run es"
    unfolding runs_controllers_def by (metis calls_of_snoc)
  then obtain post where es: "es = calls_of i tr @ e # post" by (auto simp: prefix_def)
  from run show thesis
  proof
    assume "machine_run es"
    then have *: "reads_first es" by (rule machine_run_writes)
    show thesis
    proof (cases "status_write e")
      case True
      from * have "\<forall>b x r. Kube (EvPatchHost b x r) \<notin> set es" by (simp add: reads_first_def)
      with es have "e \<noteq> Kube (EvPatchHost b x r)" for b x r by auto
      with True obtain x r where e: "e = Kube (EvStatusUpdateHost x r)" by (auto simp: status_write_def)
      with * es obtain k latest where "Kube (EvGetHost k (Inr latest)) \<in> set (calls_of i tr)" "derived latest x"
        unfolding reads_first_def by blast
      with e that(1) show thesis by (simp add: calls_of_mem)
    qed (rule that(3))
  next
    assume "host_run es"
    then have "list_all gentle es" by (rule host_run_gentle)
    with es have "gentle e" by simp
    then show thesis using that(2,3) by (auto simp: gentle_def status_write_def kept_or_cleared_def)
  qed
qed

text \<open>C1. Claims are exclusive: in any interleaving of any number of reconciles of ByotMachines and
  ByotHosts, with reads as stale as the cache likes and whatever the machines, clocks and other
  API objects answer, and with operators creating, editing and deleting hosts in between, a call
  leaves the claim of a host as it is, clears it, or sets it where there was none: a host held
  by one machine never passes to another without having been released in between.\<close>

theorem claims_are_exclusive:
  assumes "history g\<^sub>0 tr g" and "consistent g\<^sub>0"
    and "runs_controllers (tr @ [(i, e)])" and "serve g e g'"
    and "stored g k = Some h" and "holder h = Some u"
  shows "\<exists>h'. stored g' k = Some h' \<and> (holder h' = Some u \<or> holder h' = None)"
proof -
  from history_sound [OF assms(1,2)] have ok: "consistent g"
    and reads: "\<And>i k h. (i, Kube (EvGetHost k (Inr h))) \<in> set tr \<Longrightarrow> version_of g (host_key h) (revision h) = Some h"
    by blast+
  from assms(4) show ?thesis
  proof cases
    case (wrote x cur y)
    from assms(3) obtain k' latest where read: "(i, Kube (EvGetHost k' (Inr latest))) \<in> set tr" "derived latest x"
      by (rule controller_call) (use wrote in \<open>auto simp: status_write_def\<close>)
    have "version_of g (host_key cur) (revision cur) = Some cur" "host_key x = host_key cur"
      using consistentD [OF ok wrote(3)] by simp_all
    moreover have "host_key x = host_key latest" "revision x = revision latest"
      using read(2) by (simp_all add: derived_def host_key_def revision_def)
    ultimately have "latest = cur" using reads [OF read(1)] wrote(4) by simp
    with read(2) wrote(6) have "holder y = None \<or> holder cur = None \<or> holder y = holder cur"
      by (simp add: derived_def holder_def)
    then show ?thesis
      using assms(5,6) wrote consistentD [OF ok] by (auto simp: store_def)
  next
    case (patched x cur y b)
    from assms(3) have "kept_or_cleared b x"
      by (rule controller_call) (use patched in \<open>auto simp: status_write_def\<close>)
    then show ?thesis
      using assms(5,6) patched consistentD [OF ok] by (auto simp: store_def kept_or_cleared_def split: if_splits)
  next
    case (updated x cur y)
    then show ?thesis using assms(5,6) consistentD [OF ok] by (auto simp: store_def holder_def)
  qed (use assms(5,6) in auto)
qed

section \<open>Example\<close>

text \<open>A host held by machine \<open>uid-1\<close>, which is deleted: its reconcile writes the host back unclaimed.\<close>

definition held_host :: byot_host where
  "held_host = live_host ''a'' Claimed (Some (sample_ref ''uid-1''))"

definition freed_host :: byot_host where
  "freed_host = hMeta_update (\<lambda>m. m\<lparr>oResourceVersion := ''2''\<rparr>) (release_to Available held_host)"

definition freeing_env :: env where
  "freeing_env = deleting_env\<lparr>k_get_host := \<lambda>l k. Inr held_host, k_status_update_host := \<lambda>l x. Inr freed_host\<rparr>"

definition held_registry :: registry where
  "held_registry = \<lparr>stored = [(''default'', ''a'') \<mapsto> held_host],
     version_of = (\<lambda>k v. None)((''default'', ''a'') := [''1'' \<mapsto> held_host])\<rparr>"

lemma held_host_facts:
  "host_key held_host = (''default'', ''a'')" "revision held_host = ''1''" "holder held_host = Some ''uid-1''"
  "host_key (release_to ph held_host) = (''default'', ''a'')" "revision (release_to ph held_host) = ''1''"
  "host_key freed_host = (''default'', ''a'')" "revision freed_host = ''2''"
  "hStatus freed_host = hStatus (release_to Available held_host)"
  by (simp_all add: held_host_def freed_host_def release_to_def live_host_def sample_host_def sample_meta_def
      host_key_def key_of_def revision_def holder_def sample_ref_def)

lemma freeing_run:
  "\<exists>m c v rest. machine_run ([Kube (EvGetMachine (''default'', ''m1'') m), Kube (EvGetHost (''default'', ''a'') (Inr held_host)),
     Talos (EvDial c None), Talos (EvVersion c v),
     Kube (EvStatusUpdateHost (release_to Available held_host) (Inr freed_host))] @ rest)"
proof -
  have answers: "k_get_machine freeing_env l k = k_get_machine deleting_env [] k" "k_get_host freeing_env l k' = Inr held_host"
    "t_dial freeing_env l c = None" "t_version freeing_env l c = Inr [Some \<lparr>viTag = ''v1.9.0'', viArch = ''amd64''\<rparr>]"
    "k_status_update_host freeing_env l h = Inr freed_host" "k_update_machine freeing_env l x = Inr x"
    "l_contains_finalizer freeing_env fs f = (f \<in> set fs)"
    "l_remove_finalizer freeing_env fs f = (filter (\<lambda>g. g \<noteq> f) fs, f \<in> set fs)" for l k k' c h x fs f
    by (simp_all add: freeing_env_def deleting_env_def claim_env_def sample_env_def sample_lib_def)
  have m: "k_get_machine deleting_env l k = Inr (bound_machine
     \<lparr>mMeta := (mMeta sample_machine)\<lparr>oDeletionTimestamp := Some 1, oFinalizers := [byotMachineFinalizer]\<rparr>\<rparr>)" for l k
    by (simp add: deleting_env_def)
  have fields: "mResolvedHost (mStatus bound_machine) = ''a''" "oNamespace (mMeta sample_machine) = ''default''"
    by (simp_all add: bound_machine_def sample_machine_def sample_meta_def)
  have "wp (machineReconcile NewByotMachineReconciler freeing_env (''default'', ''m1'')) (\<lambda>_ s'. \<exists>m c v rest. log s' =
     [Kube (EvGetMachine (''default'', ''m1'') m), Kube (EvGetHost (''default'', ''a'') (Inr held_host)),
     Talos (EvDial c None), Talos (EvVersion c v),
     Kube (EvStatusUpdateHost (release_to Available held_host) (Inr freed_host))] @ rest) (start sample_machine)"
    unfolding machineReconcile_def machineReconcileDelete_def releaseHost_def probeMaintenance_def version_ok_def
      maintenanceClient_def dial_def update_released_def Let_def
    by (simp add: wp_simps answers m fields)
  from wp_run [OF this prod.collapse [symmetric]] show ?thesis
    unfolding machine_run_def by (metis (no_types, lifting) append_Nil gst.select_convs(2) prod.collapse)
qed

lemma claims_are_exclusive_witness:
  "\<exists>tr g'. history held_registry tr held_registry \<and>
     serve held_registry (Kube (EvStatusUpdateHost (release_to Available held_host) (Inr freed_host))) g' \<and>
     (\<exists>h'. stored g' (''default'', ''a'') = Some h' \<and> (holder h' = Some ''uid-1'' \<or> holder h' = None))"
proof -
  let ?e = "Kube (EvStatusUpdateHost (release_to Available held_host) (Inr freed_host))"
  obtain m c v rest where run: "machine_run ([Kube (EvGetMachine (''default'', ''m1'') m),
      Kube (EvGetHost (''default'', ''a'') (Inr held_host)), Talos (EvDial c None), Talos (EvVersion c v), ?e] @ rest)"
    using freeing_run by blast
  define tr where "tr = [(0 :: nat, Kube (EvGetMachine (''default'', ''m1'') m)),
      (0, Kube (EvGetHost (''default'', ''a'') (Inr held_host))), (0, Talos (EvDial c None)), (0, Talos (EvVersion c v))]"
  have "history held_registry ((([] @ [(0 :: nat, Kube (EvGetMachine (''default'', ''m1'') m))]) @
      [(0, Kube (EvGetHost (''default'', ''a'') (Inr held_host)))]) @ [(0, Talos (EvDial c None))] @ [(0, Talos (EvVersion c v))]) held_registry"
    unfolding append_assoc [symmetric]
    by (rule history.serves, rule history.serves, rule history.serves, rule history.serves, rule history.begins)
       (auto intro!: serve.intros simp: held_registry_def held_host_facts)
  then have hist: "history held_registry tr held_registry" by (simp add: tr_def)
  have ok: "consistent held_registry" by (simp add: consistent_def held_registry_def held_host_facts)
  have calls: "calls_of i (tr @ [(0, ?e)]) = (if i = 0 then [Kube (EvGetMachine (''default'', ''m1'') m),
      Kube (EvGetHost (''default'', ''a'') (Inr held_host)), Talos (EvDial c None), Talos (EvVersion c v), ?e] else [])" for i
    by (simp add: calls_of_def tr_def)
  have "runs_controllers (tr @ [(0, ?e)])"
    unfolding runs_controllers_def calls using run by (auto intro: prefixI)
  moreover have "serve held_registry ?e (store freed_host held_registry)"
    by (rule serve.wrote) (auto simp: held_registry_def held_host_facts fresh_def)
  moreover have "stored held_registry (''default'', ''a'') = Some held_host" by (simp add: held_registry_def)
  ultimately show ?thesis
    using claims_are_exclusive [OF hist ok _ _ _ held_host_facts(3)] hist by blast
qed

end
