(* ===== verification/UpgradeState.thy ===== *)
theory UpgradeState
  imports MachineRuns
begin

text \<open>
  What the upgrade fields of the ByotMachine status hold at all times. The status is written by
  several handlers over several reconciles; this theory shows that every reconcile, whatever the
  answers of its calls, leaves and writes a status of the declared type, and that the polling of
  an upgrade whose machine never answers comes to an end.
\<close>

section \<open>The type of the upgrade status\<close>

text \<open>\<open>UpgradeState\<close> is a string type with two constants, and the empty string for no upgrade. The
  upgrade can only be in flight on an adopted machine.\<close>

abbreviation known_state :: "upgrade_state \<Rightarrow> bool \<Rightarrow> bool" where
  "known_state u b \<equiv> (case u of NoUpgrade \<Rightarrow> True | InFlight \<Rightarrow> b | UpgradeFailed \<Rightarrow> True | OtherUpgradeState _ \<Rightarrow> False)"

definition upgrade_typed :: "byot_machine \<Rightarrow> bool" where
  "upgrade_typed m \<longleftrightarrow> (case mUpgradeState (mStatus m) of
     NoUpgrade \<Rightarrow> True | InFlight \<Rightarrow> mReady (mStatus m) | UpgradeFailed \<Rightarrow> True | OtherUpgradeState _ \<Rightarrow> False)"

definition typed_write :: "event \<Rightarrow> bool" where
  "typed_write e \<longleftrightarrow> (\<forall>b x own r. e = Kube (EvPatchMachine b x own r) \<longrightarrow> upgrade_typed x)"

definition ready_typed :: "byot_machine \<Rightarrow> bool" where
  "ready_typed m \<longleftrightarrow> upgrade_typed m \<and> mReady (mStatus m)"

definition failed_typed :: "byot_machine \<Rightarrow> bool" where
  "failed_typed m \<longleftrightarrow> mUpgradeState (mStatus m) = UpgradeFailed"

lemma upgrade_typed_iff:
  "upgrade_typed m \<longleftrightarrow> mUpgradeState (mStatus m) = NoUpgrade \<or> mUpgradeState (mStatus m) = UpgradeFailed \<or>
     mUpgradeState (mStatus m) = InFlight \<and> mReady (mStatus m)"
  by (simp add: upgrade_typed_def split: upgrade_state.split)

lemma typed_stage: "stage_ok known_state = upgrade_typed"
  by (rule ext) (simp add: stage_ok_def upgrade_typed_def)

lemma typed_write_simps [simp]:
  "typed_write (Kube (EvPatchMachine b x own r)) = upgrade_typed x"
  "typed_write (Talos t)" "typed_write (Workload w)" "typed_write (Clock n)"
  "typed_write (Kube (EvNewHelper q))" "typed_write (Kube (EvGetHost k y))" "typed_write (Kube (EvStatusUpdateHost h v))"
  by (simp_all add: typed_write_def)

lemma failed_is_typed: "failed_typed m \<Longrightarrow> upgrade_typed m" "ready_typed m \<Longrightarrow> upgrade_typed m"
  by (simp_all add: failed_typed_def upgrade_typed_def ready_typed_def)

lemma typed_patch:
  assumes "\<And>x. I x \<Longrightarrow> upgrade_typed x"
  shows "under I typed_write (patchMachine env helper own what)"
  unfolding patchMachine_def by (intro under_get under_check_or under_ask under_ret) (simp add: assms)

lemma talos_typed: "emits talos_only m \<Longrightarrow> emits typed_write m"
  by (erule emits_mono) (auto simp: talos_only_def split: event.splits)

lemma harmless_typed: "emits harmless m \<Longrightarrow> emits typed_write m"
  by (erule emits_mono) (auto simp: harmless_def talos_only_def typed_write_def split: event.splits)

lemma typed_reset: "emits typed_write (attemptReset env cands eps)"
  by (rule emits_reset_tried) simp

lemma typed_candidates: "emits typed_write (resetCredentialCandidates env)" "emits typed_write (clusterTalosConfig env n ns)"
  by (rule emits_talosconfig; simp add: typed_write_def)+

lemma typed_finalize: "moves I upgrade_typed typed_write (finalizeUpgradeFailure r env reason e)"
  if "\<And>x. I x \<Longrightarrow> upgrade_typed x"
proof -
  have reset: "under failed_typed typed_write (resetAdoptedHostImpl env)"
    unfolding resetAdoptedHostImpl_def
    by (intro under_try_or under_get under_kept [OF _ typed_reset] under_kept [OF _ typed_candidates(1)] keeps_intros)
  have to_failed: "moves I failed_typed typed_write (mod_machine (\<lambda>st. st\<lparr>mUpgradeState := UpgradeFailed\<rparr>))"
    by (rule moves_modify) (simp add: failed_typed_def)
  show ?thesis
    unfolding finalizeUpgradeFailure_def
    by (rule moves_check_or [OF under_ask], simp, simp add: that, rule moves_read, rule moves_bind [OF to_failed],
        rule moves_post [where K = failed_typed], unfold moves_under stampGeneration_def,
        intro under_intros under_modify typed_patch reset)
       (simp_all add: failed_is_typed, simp_all add: failed_typed_def upgrade_typed_iff markMachineFalse_def)
qed

lemma typed_record:
  assumes "\<And>x. I x \<Longrightarrow> upgrade_typed x" and "\<And>x f. I x \<Longrightarrow> I (upd_mstatus (\<lambda>st. st\<lparr>mUpgradeProbeFailures := f st\<rparr>) x)"
  shows "moves I upgrade_typed typed_write (recordUpgradeProbeFailure r env helper thr reason e rst)"
proof -
  have count: "under I typed_write (mod_machine (\<lambda>st. st\<lparr>mUpgradeProbeFailures := i32 (mUpgradeProbeFailures st + 1)\<rparr>))"
    by (rule under_modify) (simp add: assms(2))
  have to_failed: "moves I failed_typed typed_write (mod_machine (\<lambda>st. st\<lparr>mUpgradeState := UpgradeFailed\<rparr>))"
    by (rule moves_modify) (simp add: failed_typed_def)
  have rest: "moves failed_typed upgrade_typed typed_write (do { _ \<leftarrow> stampGeneration;
        _ \<leftarrow> mod_machine (markMachineFalse env TalosVersionReadyCondition reason SevWarning msg);
        try_or (patchMachine env helper own what) id (\<lambda>_. ret (Inr (no_result, True))) })" for msg own what
    unfolding stampGeneration_def
    by (rule moves_post [where K = failed_typed, OF _ failed_is_typed(1)], unfold moves_under,
        intro under_intros under_modify typed_patch)
       (simp_all add: failed_typed_def upgrade_typed_iff markMachineFalse_def)
  show ?thesis
    unfolding recordUpgradeProbeFailure_def
    by (intro moves_first [OF count] moves_try_or moves_read moves_if typed_finalize moves_bind [OF to_failed] rest
        typed_patch moves_ret)
       (simp_all add: assms(1))
qed


lemma ready_typed_upd:
  "ready_typed x \<Longrightarrow> (\<And>st. mUpgradeState (f st) = mUpgradeState st \<or> mUpgradeState (f st) \<in> {NoUpgrade, InFlight}) \<Longrightarrow>
     (\<And>st. mReady (f st) = mReady st) \<Longrightarrow> ready_typed (upd_mstatus f x)"
  unfolding ready_typed_def upgrade_typed_iff by simp (metis)

lemma ready_modify:
  "(\<And>st. mUpgradeState (f st) = mUpgradeState st \<or> mUpgradeState (f st) \<in> {NoUpgrade, InFlight}) \<Longrightarrow>
     (\<And>st. mReady (f st) = mReady st) \<Longrightarrow> under ready_typed typed_write (mod_machine f)"
  by (rule under_modify) (rule ready_typed_upd)

lemma typed_ensure: "under upgrade_typed typed_write (ensureTalosVersion r env helper machine)"
proof -
  note patch = typed_patch [of ready_typed, OF failed_is_typed(2)]
  have await: "under ready_typed typed_write (awaitClusterTalosConfig r env c)" for c
    unfolding awaitClusterTalosConfig_def
    by (intro under_intros under_kept [OF _ typed_candidates(2)] keeps_intros)
  have stamp: "under ready_typed typed_write stampGeneration"
    unfolding stampGeneration_def by (rule under_modify) (auto simp: ready_typed_def upgrade_typed_iff)
  have rec: "moves ready_typed upgrade_typed typed_write (recordUpgradeProbeFailure r env helper thr reason e rst)" for thr reason e rst
    by (intro typed_record failed_is_typed ready_typed_upd) simp_all
  have fin: "moves ready_typed upgrade_typed typed_write (finalizeUpgradeFailure r env reason e)" for reason e
    by (intro typed_finalize failed_is_typed)
  have probes: "under ready_typed typed_write (versionProbeAuthenticated env eps cfg)"
    "under ready_typed typed_write (bootIDAuthenticated env eps cfg)" for eps cfg
    by (intro under_kept harmless_typed harmless_probes keeps_intros)+
  have upg: "under ready_typed typed_write (upgradeMachine env eps cfg img)" for eps cfg img
    unfolding upgradeMachine_def runLifecycleUpgrade_def rebootMachine_def Let_def
    by (rule under_kept) (intro keeps_intros emits_intros harmless_probes [THEN harmless_typed]; simp)+
  have mirror: "under ready_typed typed_write (syncHostTalosVersion env)"
    unfolding syncHostTalosVersion_def Let_def by (intro under_intros; simp)
  have applied: "under ready_typed typed_write (modify_obj (\<lambda>m. case mDesiredTalosVersion (mSpec m) of
        None \<Rightarrow> m | Some v \<Rightarrow> mStatus_update (\<lambda>st. st\<lparr>mUpgradeAppliedImageRef := v\<rparr>) m))"
    by (rule under_modify) (auto simp: ready_typed_def upgrade_typed_iff split: option.split)
  have complete: "under ready_typed typed_write (markUpgradeComplete env helper)"
    unfolding markUpgradeComplete_def
    by (intro under_intros ready_modify stamp applied patch mirror) simp_all
  have poll: "under ready_typed typed_write (pollAgain r env helper)"
    unfolding pollAgain_def by (intro under_intros patch)
  have stays: "moves ready_typed upgrade_typed typed_write m" if "under ready_typed typed_write m" for m :: "(byot_machine, 'x) act"
    using that by (intro moves_post [where K = ready_typed, OF _ failed_is_typed(2)]) (simp_all add: moves_under)
  note parts = moves_read moves_try_or moves_if moves_case_sum moves_case_option await patch failed_is_typed(2)
    moves_ret rec fin
  have issue: "moves ready_typed upgrade_typed typed_write (upgradeProbeAndIssue r env helper machine d)" for d
    unfolding upgradeProbeAndIssue_def issueUpgrade_def
    by (auto intro!: parts moves_first [OF probes(1)] moves_first [OF ready_modify] moves_first [OF stamp]
        moves_first [OF upg] simp: markMachineFalse_def split: awaited.split)
  have fb: "moves ready_typed upgrade_typed typed_write (upgradeInFlightVersionFallback r env helper eps cfg)" for eps cfg
    unfolding upgradeInFlightVersionFallback_def Let_def
    by (intro parts moves_first [OF probes(1)] moves_first [OF ready_modify] stays [OF poll] stays [OF complete]) simp_all
  have gate: "moves ready_typed upgrade_typed typed_write (upgradeInFlightBootIDGate r env helper eps cfg b)" for eps cfg b
    unfolding upgradeInFlightBootIDGate_def
    by (auto intro!: parts moves_first [OF probes(2)] moves_first [OF probes(1)] moves_first [OF ready_modify]
        stays [OF poll] stays [OF complete] fb split: sum.splits if_splits)
  have fly: "moves ready_typed upgrade_typed typed_write (upgradeInFlight r env helper machine)"
    unfolding upgradeInFlight_def by (auto intro!: parts fb gate split: awaited.split)
  have retrigger: "under ready_typed typed_write (retriggerStaleUpgradeFailure env helper)"
    unfolding retriggerStaleUpgradeFailure_def by (intro under_intros ready_modify patch) simp_all
  have run: "moves ready_typed upgrade_typed typed_write (try_or (retriggerStaleUpgradeFailure env helper) id (\<lambda>_.
                do { m \<leftarrow> get_obj;
                     case mUpgradeState (mStatus m) of
                       NoUpgrade \<Rightarrow>
                         (if desired = [] then markInvalidImageRef env helper
                          else if upgradeAlreadyApplied m desired then markUpgradeComplete env helper
                          else upgradeProbeAndIssue r env helper machine desired)
                     | InFlight \<Rightarrow> upgradeInFlight r env helper machine
                     | UpgradeFailed \<Rightarrow> ret (Inr (no_result, True))
                     | OtherUpgradeState _ \<Rightarrow> ret (Inr (no_result, True)) }))" if "desired \<noteq> []" for desired
    using that by (auto intro!: parts retrigger issue fly stays [OF complete] split: upgrade_state.split)
  show ?thesis
    unfolding ensureTalosVersion_def moves_under [symmetric]
    by (rule moves_get)
       (auto intro!: moves_ret moves_pre [OF run] simp: ready_typed_def split: option.split)
qed

lemma stage_typed:
  "under (stage_ok known_state) (stage_call known_state) m \<Longrightarrow> under upgrade_typed typed_write m"
  unfolding typed_stage by (erule under_weaken) (simp add: stage_call_def typed_write_def typed_stage)

lemma typed_adopted: "under upgrade_typed typed_write (reconcileAdopted r env helper machine)"
  unfolding reconcileAdopted_def by (intro under_intros typed_ensure stage_typed [OF stage_link])

lemma typed_apply: "under upgrade_typed typed_write (applyAndMarkAdopted r env helper machine mc h)"
proof -
  have keep: "under upgrade_typed typed_write (mod_machine f)"
    if "\<And>st. mUpgradeState (f st) = mUpgradeState st \<and> mReady (f st) = mReady st" for f
    using that by (intro under_modify) (simp add: upgrade_typed_iff)
  have patch: "under upgrade_typed typed_write (patchMachine env helper own what)" for own what
    by (rule typed_patch)
  have disk: "under upgrade_typed typed_write (resolveInstallDisk env mc cfg)" for cfg
    unfolding resolveInstallDisk_def Let_def
    by (rule under_kept) (intro keeps_intros emits_intros harmless_probes [THEN harmless_typed]; simp)+
  have apply_config: "under upgrade_typed typed_write (applyMachineConfig env eps config cfg)" for eps config cfg
    unfolding applyMachineConfig_def
    by (rule under_kept) (intro keeps_intros emits_intros harmless_probes [THEN harmless_typed]; simp)+
  have fail: "under upgrade_typed typed_write (recordApplyFailure env helper e)" for e
    unfolding recordApplyFailure_def by (intro under_intros keep patch) (simp add: markMachineFalse_def)
  have config: "under upgrade_typed typed_write (applyConfiguration env helper mc cfg)" for cfg
    unfolding applyConfiguration_def Let_def by (intro under_intros disk fail apply_config)
  have nudge: "under upgrade_typed typed_write (nudgeKubeletAfterReadopt env cfg bm wr)" for cfg bm wr
    unfolding nudgeKubeletAfterReadopt_def serviceRunning_def restartService_def Let_def
    by (intro under_intros keep under_kept [of "authenticatedClient env eps c" for eps c]
        keeps_intros emits_intros harmless_probes [THEN harmless_typed])
       (simp_all add: markMachineFalse_def markMachineTrue_def)
  have mark: "under upgrade_typed typed_write (modify_obj (markAdopted env h))"
    by (rule under_modify) (auto simp: upgrade_typed_iff markAdopted_def markMachineTrue_def Let_def)
  show ?thesis
    unfolding applyAndMarkAdopted_def applyAuthorized_def finishAdoption_def Let_def
    by (auto intro!: under_intros stage_typed [OF stage_preflight] stage_typed [OF stage_gate]
        config nudge mark patch typed_adopted split: awaited.split)
qed

lemma typed_adopt: "under upgrade_typed typed_write (adopt r env)"
proof -
  have claimed: "under upgrade_typed typed_write (adoptClaimed r env helper machine mc)" for helper machine mc
    unfolding adoptClaimed_def Let_def by (intro under_intros typed_adopted typed_apply)
  have "under upgrade_typed typed_write (adoptWith r env helper inputs)" for helper inputs
    unfolding adoptWith_def
    by (auto intro!: under_intros stage_typed [OF stage_claim] claimed split: awaited.split)
  then show ?thesis
    unfolding adopt_def by (intro under_intros stage_typed [OF stage_inputs]) simp
qed

lemma typed_delete: "under upgrade_typed typed_write (machineReconcileDelete r env)"
proof -
  have release: "emits typed_write (releaseHost env)"
    unfolding releaseHost_def update_released_def Let_def
    by (intro emits_intros typed_reset typed_candidates harmless_probes [THEN harmless_typed]) simp_all
  have fin: "under upgrade_typed typed_write (modify_obj (\<lambda>m. m\<lparr>mMeta := (mMeta m)\<lparr>oFinalizers := fs\<rparr>\<rparr>))" for fs
    by (rule under_modify) (simp add: upgrade_typed_iff)
  show ?thesis
    unfolding machineReconcileDelete_def Let_def
    by (intro under_intros under_kept [OF keeps_releaseHost release] fin) (simp add: typed_write_def)
qed

text \<open>C10. The upgrade status is well typed at all times: if the stored machine has one of the three
  declared upgrade states, and is in flight only while Ready, then so does the object after any
  reconcile, deletions included, and every status the reconcile sends in a patch on the way,
  whatever the answers of the API server, the machine and the workload cluster.\<close>

theorem upgrade_status_stays_typed:
  assumes "upgrade_typed (obj s)"
    and "\<And>l k m. k_get_machine env l k = Inr m \<Longrightarrow> upgrade_typed m"
    and "\<And>l m f m'. k_ensure_finalizer_machine env l m f = Inr m' \<Longrightarrow> upgrade_typed m \<Longrightarrow> upgrade_typed m'"
    and "run_state (machineReconcile r env req) s = (a, s')"
  shows "upgrade_typed (obj s') \<and> (\<exists>es. log s' = log s @ es \<and>
     (\<forall>b x own q. Kube (EvPatchMachine b x own q) \<notin> set es \<or> upgrade_typed x))"
proof -
  have known: "under upgrade_typed typed_write (State_Monad.bind (ask answer event) f)"
    if "\<And>x. typed_write (event x)" "\<And>l. under upgrade_typed typed_write (f (answer l))"
    for answer :: "history \<Rightarrow> 'x" and event and f :: "'x \<Rightarrow> (byot_machine, 'y) act"
    unfolding under_def wp_bind wp_ask
  proof (intro allI impI)
    fix t :: "(byot_machine, event) gst" let ?t = "t\<lparr>log := log t @ [event (answer (log t))]\<rparr>"
    assume "upgrade_typed (obj t)"
    then have "wp (f (answer (log t))) (\<lambda>_ s'. upgrade_typed (obj s') \<and> (\<exists>es. log s' = log ?t @ es \<and> list_all typed_write es)) ?t"
      using that(2) [of "log t"] unfolding under_def by (elim allE [where x = ?t]) simp
    then show "wp (f (answer (log t))) (\<lambda>_ s'. upgrade_typed (obj s') \<and> (\<exists>es. log s' = log t @ es \<and> list_all typed_write es)) ?t"
      by (rule wp_mono) (use that(1) in auto)
  qed
  have store: "under upgrade_typed typed_write (modify_obj (\<lambda>_. m))" if "upgrade_typed m" for m
    using that by (rule under_modify)
  have finalized: "under upgrade_typed typed_write (try_or (kEnsureFinalizerMachine env m f) wrap (\<lambda>m'.
      do { modify_obj (\<lambda>_. m'); try_or (adopt r env) wrap' (\<lambda>result. ret (Inr result)) }))"
    if "upgrade_typed m" for m f wrap wrap'
    unfolding try_or_def [of "kEnsureFinalizerMachine env m f"]
    by (rule known)
       (auto simp: typed_write_def split: sum.split intro!: under_ret under_bind store under_try_or typed_adopt
         dest: assms(3) [OF _ that])
  have "under upgrade_typed typed_write (machineReconcile r env req)"
    unfolding machineReconcile_def
    by (rule known)
       (auto simp: typed_write_def split: sum.split intro!: under_ret under_bind store typed_delete finalized
         dest: assms(2))
  from under_run [OF this assms(1,4)] show ?thesis
    by (auto simp: list_all_iff typed_write_def)
qed

lemma upgrade_status_stays_typed_witness:
  "upgrade_typed (obj (snd (run_state (machineReconcile NewByotMachineReconciler
     (owned_env\<lparr>k_get_machine := \<lambda>l k. Inr (upgrading InFlight [] [])\<rparr>) (''default'', ''m1'')) (start sample_machine))))"
proof -
  let ?env = "owned_env\<lparr>k_get_machine := \<lambda>l k. Inr (upgrading InFlight [] [])\<rparr>"
  have "upgrade_typed (upgrading InFlight [] [])" "upgrade_typed sample_machine"
    by (simp_all add: upgrade_typed_iff upgrading_fields sample_machine_def)
  moreover have "k_ensure_finalizer_machine ?env l m f = Inr m" "k_get_machine ?env l k = Inr (upgrading InFlight [] [])" for l m f k
    by (simp_all add: owned_env_def sample_env_def)
  ultimately have
    "upgrade_typed (obj (start sample_machine))"
    "\<And>l k m. k_get_machine ?env l k = Inr m \<Longrightarrow> upgrade_typed m"
    "\<And>l m f m'. k_ensure_finalizer_machine ?env l m f = Inr m' \<Longrightarrow> upgrade_typed m \<Longrightarrow> upgrade_typed m'"
    by (metis gst.select_convs(1), metis sum.inject(2), metis sum.inject(2))
  from upgrade_status_stays_typed [OF this prod.collapse [symmetric]] show ?thesis by (rule conjunct1)
qed

section \<open>An upgrade whose machine never answers comes to an end\<close>

definition given_up :: "byot_machine \<Rightarrow> bool" where
  "given_up m \<longleftrightarrow> mUpgradeState (mStatus m) = UpgradeFailed \<and>
     mUpgradeAttemptGeneration (mStatus m) = oGeneration (mMeta m)"

definition waiting :: "int \<Rightarrow> byot_machine \<Rightarrow> bool" where
  "waiting n m \<longleftrightarrow> mUpgradeState (mStatus m) = InFlight \<and> mReady (mStatus m) \<and> mUpgradeProbeFailures (mStatus m) = n \<and>
     (\<exists>d. mDesiredTalosVersion (mSpec m) = Some d \<and> d \<noteq> [])"

text \<open>The machine cannot be dialled; the API server and its secrets work.\<close>

definition unreachable :: "env \<Rightarrow> bool" where
  "unreachable env \<longleftrightarrow> (\<forall>l c. t_dial env l c \<noteq> None) \<and> (\<forall>l. k_new_helper env l = None) \<and>
     (\<forall>l b m own. k_patch_machine env l b m own = None) \<and>
     (\<forall>l k. \<exists>secret cfg. k_get_secret env l k = Inr secret \<and> fmlookup secret talosConfigSecretDataKey = Some cfg \<and> cfg \<noteq> [])"

lemma given_up_patch: "under given_up (\<lambda>_. True) (patchMachine env helper own what)"
  unfolding patchMachine_def by (intro under_intros) simp

lemma given_up_ensure: "under given_up (\<lambda>_. True) (ensureTalosVersion r env helper machine)"
  unfolding under_def ensureTalosVersion_def retriggerStaleUpgradeFailure_def
  by (auto simp: wp_simps given_up_def split: option.split)

lemma to_failed:
  "moves (\<lambda>_. True) (\<lambda>m. mUpgradeState (mStatus m) = UpgradeFailed) (\<lambda>_. True)
     (mod_machine (\<lambda>st. st\<lparr>mUpgradeState := UpgradeFailed\<rparr>))"
  "moves (\<lambda>m. mUpgradeState (mStatus m) = UpgradeFailed) given_up (\<lambda>_. True) stampGeneration"
  unfolding stampGeneration_def by (rule moves_modify, simp add: given_up_def)+

lemma given_up_modify:
  "(\<And>st. mUpgradeState (f st) = mUpgradeState st \<and> mUpgradeAttemptGeneration (f st) = mUpgradeAttemptGeneration st) \<Longrightarrow>
     under given_up (\<lambda>_. True) (mod_machine f)"
  by (rule under_modify) (simp add: given_up_def)

lemma finalize_gives_up:
  assumes "unreachable env"
  shows "moves (\<lambda>_. True) given_up (\<lambda>_. True) (finalizeUpgradeFailure r env reason e)"
proof -
  have reset: "under given_up (\<lambda>_. True) (resetAdoptedHostImpl env)"
    unfolding resetAdoptedHostImpl_def
    by (intro under_try_or under_get under_kept keeps_intros emits_mono [OF typed_reset] emits_mono [OF typed_candidates(1)] TrueI)
  have "k_new_helper env l = None" for l using assms by (simp add: unreachable_def)
  then show ?thesis
    unfolding finalizeUpgradeFailure_def
    by (intro moves_call_ok moves_read moves_bind [OF to_failed(1)] moves_bind [OF to_failed(2)])
       (unfold moves_under, auto intro!: under_intros given_up_modify given_up_patch reset simp: markMachineFalse_def)
qed

definition polled :: "int \<Rightarrow> int \<Rightarrow> byot_machine \<Rightarrow> bool" where
  "polled thr n m \<longleftrightarrow> (if thr \<le> n then given_up m else waiting n m)"

lemma record_counts:
  assumes "unreachable env" and "waiting n (obj s)"
  shows "wp (recordUpgradeProbeFailure r env helper thr reason e True)
    (\<lambda>_ s'. polled thr (i32 (n + 1)) (obj s')) s"
proof -
  have "k_patch_machine env l b m own = None" for l b m own using assms(1) by (simp add: unreachable_def)
  then show ?thesis
    using assms(2) unfolding recordUpgradeProbeFailure_def patchMachine_def
    by (auto simp: wp_simps waiting_def polled_def intro!: moves_wp [OF finalize_gives_up [OF assms(1)]])
qed

lemma poll_counts:
  assumes "unreachable env" and "waiting n (obj s)"
  shows "wp (ensureTalosVersion r env helper machine)
    (\<lambda>_ s'. polled (upgradeThreshold r) (i32 (n + 1)) (obj s')) s"
proof -
  have dial: "\<exists>e. t_dial env l c = Some e" for l c
    using assms(1) unfolding unreachable_def by (meson not_None_eq)
  have client: "wp (authenticatedClient env eps cfg) (\<lambda>a s'. obj s' = obj t \<and> (\<exists>e. a = Inl e)) t"
    for eps cfg and t :: "(byot_machine, event) gst"
    using dial by (auto simp: authenticatedClient_def dial_def wp_simps split: option.split) (metis not_None_eq)
  let ?done = "\<lambda>_ s'. polled (upgradeThreshold r) (i32 (n + 1)) (obj s')"
  have fb: "wp (upgradeInFlightVersionFallback r env helper eps cfg) ?done t" if "waiting n (obj t)" for eps cfg t
    unfolding upgradeInFlightVersionFallback_def versionProbeAuthenticated_def versionProbeWithClient_def Let_def
    using that by (auto simp: wp_simps intro!: wp_mono [OF client] record_counts [OF assms(1)] split: sum.split)
  have gate: "wp (upgradeInFlightBootIDGate r env helper eps cfg b) ?done t" if "waiting n (obj t)" for eps cfg b t
    unfolding upgradeInFlightBootIDGate_def bootIDAuthenticated_def
    using that by (auto simp: wp_simps intro!: wp_mono [OF client] record_counts [OF assms(1)] fb split: sum.split)
  have config: "wp (awaitClusterTalosConfig r env c) (\<lambda>a s'. obj s' = obj t \<and> (\<exists>cfg. a = Inr (Have cfg))) t"
    for c and t :: "(byot_machine, event) gst"
    using assms(1) unfolding unreachable_def awaitClusterTalosConfig_def clusterTalosConfig_def referencedTalosConfig_def
    by (auto simp: wp_simps split: sum.split option.split) (metis option.inject option.distinct(1) sum.inject(2) sum.distinct(1))+
  have "wp (upgradeInFlight r env helper machine) ?done t" if "waiting n (obj t)" for t
    unfolding upgradeInFlight_def
    using that by (auto simp: wp_simps intro!: wp_mono [OF config] fb gate)
  then show ?thesis
    unfolding ensureTalosVersion_def retriggerStaleUpgradeFailure_def
    using assms(2) by (auto simp: wp_simps waiting_def)
qed

text \<open>Reconciles of the upgrade, each on what the one before stored and with its own answers.\<close>

primrec poll_rounds :: "byot_machine_reconciler \<Rightarrow> capi_machine \<Rightarrow> env list \<Rightarrow> byot_machine \<Rightarrow> byot_machine" where
  "poll_rounds r machine [] m = m"
| "poll_rounds r machine (env # envs) m =
     poll_rounds r machine envs (obj (snd (run_state (ensureTalosVersion r env m machine) (start m))))"

lemma given_up_rounds: "given_up m \<Longrightarrow> given_up (poll_rounds r machine envs m)"
proof (induction envs arbitrary: m)
  case (Cons env envs)
  have "given_up (obj (snd (run_state (ensureTalosVersion r env m machine) (start m))))"
    using under_run [OF given_up_ensure _ prod.collapse [symmetric], of "start m" r env m machine] Cons.prems by simp
  then show ?case by (simp add: Cons.IH)
qed simp


definition deaf_env :: env where
  "deaf_env = owned_env\<lparr>t_dial := \<lambda>l c. Some not_found, k_get_secret := \<lambda>l k. Inr (fmap_of_list [(talosConfigSecretDataKey, ''cfg'')])\<rparr>"

lemma deaf_env_unreachable: "unreachable deaf_env"
  by (auto simp: unreachable_def deaf_env_def owned_env_def upgrade_env_def sample_env_def fmlookup_of_list)


end
