(* ===== verification/Disruption.thy ===== *)
theory Disruption
  imports MachineRuns
begin

text \<open>
  Which machines a run of the ByotMachine reconciler disturbs. Every handler after the claim
  addresses the endpoints in the status, which no handler changes, and the claim ties these to a
  host that the run has seen held by this machine.
\<close>

section \<open>Where a disruptive call goes\<close>

definition target :: "event \<Rightarrow> endpoints option" where
  "target e = (case e of
     Talos (EvReset c _) \<Rightarrow> Some (tcEndpoints c)
   | Talos (EvApplyConfiguration c _ _) \<Rightarrow> Some (tcEndpoints c)
   | Talos (EvLifecycleUpgrade c _ _) \<Rightarrow> Some (tcEndpoints c)
   | Talos (EvReboot c _) \<Rightarrow> Some (tcEndpoints c)
   | _ \<Rightarrow> None)"

definition at_only :: "endpoints \<Rightarrow> event \<Rightarrow> bool" where
  "at_only eps e \<longleftrightarrow> (\<forall>eps'. target e = Some eps' \<longrightarrow> eps' = eps)"

definition addressed :: "endpoints \<Rightarrow> byot_machine \<Rightarrow> bool" where
  "addressed eps m \<longleftrightarrow> machineEndpoints m = eps"

lemma target_disruptive: "target e \<noteq> None \<longleftrightarrow> is_disruptive e"
  by (auto simp: target_def is_disruptive_def is_reset_def is_apply_def is_install_def is_reboot_def
      split: event.splits talos_event.splits)

lemma at_only_undisturbed: "\<not> is_disruptive e \<Longrightarrow> at_only eps e"
  using target_disruptive [of e] by (simp add: at_only_def)

lemma at_only_simps [simp]:
  "at_only eps (Talos (EvReset c r)) = (tcEndpoints c = eps)"
  "at_only eps (Talos (EvApplyConfiguration c d r)) = (tcEndpoints c = eps)"
  "at_only eps (Talos (EvLifecycleUpgrade c i r'')) = (tcEndpoints c = eps)"
  "at_only eps (Talos (EvReboot c r)) = (tcEndpoints c = eps)"
  "at_only eps (Kube k)" "at_only eps (Workload w)" "at_only eps (Clock n)"
  by (auto simp: at_only_def target_def)

lemma at_quiet: "emits (\<lambda>e. \<not> is_disruptive e) m \<Longrightarrow> emits (at_only eps) m"
  by (erule emits_mono) (rule at_only_undisturbed)

lemma at_harmless: "emits harmless m \<Longrightarrow> emits (at_only eps) m"
  by (erule emits_mono) (auto simp: harmless_def intro: at_only_undisturbed)

lemma at_kept: "keeps m \<Longrightarrow> emits (\<lambda>e. \<not> is_disruptive e) m \<Longrightarrow> under (addressed eps) (at_only eps) m"
  by (intro under_kept at_quiet)

lemma at_modify:
  "(\<And>st. mResolvedInternalIP (f st) = mResolvedInternalIP st \<and> mResolvedPublicIP (f st) = mResolvedPublicIP st) \<Longrightarrow>
     under (addressed eps) (at_only eps) (mod_machine f)"
  by (rule under_modify) (simp add: addressed_def machineEndpoints_def)

lemma at_stamp: "under (addressed eps) (at_only eps) stampGeneration"
  unfolding stampGeneration_def by (rule under_modify) (simp add: addressed_def machineEndpoints_def)

lemma at_patch: "under (addressed eps) (at_only eps) (patchMachine env helper own what)"
  unfolding patchMachine_def by (intro under_intros) simp

text \<open>The Talos calls go where their client goes.\<close>

lemma authenticated_at:
  "wp (authenticatedClient env eps cfg) (\<lambda>a s'. obj s' = obj s \<and> (\<exists>es. log s' = log s @ es \<and> list_all (at_only eps') es \<and>
     (\<forall>c. a = Inr c \<longrightarrow> tcEndpoints c = eps))) s"
  by (auto simp: authenticatedClient_def dial_def wp_simps at_only_def target_def split: option.split)

lemma emits_after_client:
  fixes k :: "talos_client \<Rightarrow> ('o, 'a res) act"
  assumes "\<And>c. tcEndpoints c = eps \<Longrightarrow> emits (at_only eps) (k c)"
  shows "emits (at_only eps) (try_or (authenticatedClient env eps cfg) wrap k)"
  unfolding emits_def
proof (intro allI, rule wp_try_orI [OF authenticated_at [where eps' = eps]])
  fix s e and t :: "('o, event) gst"
  assume "obj t = obj s \<and> (\<exists>es. log t = log s @ es \<and> list_all (at_only eps) es \<and> (\<forall>c. Inl e = Inr c \<longrightarrow> tcEndpoints c = eps))"
  then show "\<exists>es. log t = log s @ es \<and> list_all (at_only eps) es" by blast
next
  fix s and c :: talos_client and t :: "('o, event) gst"
  assume "obj t = obj s \<and> (\<exists>es. log t = log s @ es \<and> list_all (at_only eps) es \<and> (\<forall>c'. Inr c = Inr c' \<longrightarrow> tcEndpoints c' = eps))"
  then obtain es where t: "log t = log s @ es" "list_all (at_only eps) es" "tcEndpoints c = eps" by blast
  from assms [OF t(3)] have "wp (k c) (\<lambda>_ s'. \<exists>es. log s' = log t @ es \<and> list_all (at_only eps) es) t"
    by (simp add: emits_def)
  then show "wp (k c) (\<lambda>_ s'. \<exists>es. log s' = log s @ es \<and> list_all (at_only eps) es) t"
    by (rule wp_mono) (use t in auto)
qed

lemma upgrade_at: "emits (at_only eps) (upgradeMachine env eps cfg img)"
  unfolding upgradeMachine_def runLifecycleUpgrade_def rebootMachine_def Let_def
  by (rule emits_after_client) (intro emits_intros harmless_probes [THEN at_harmless]; simp)

lemma apply_at: "emits (at_only eps) (applyMachineConfig env eps mc cfg)"
  unfolding applyMachineConfig_def clientFor_def maintenanceClient_def authenticatedClient_def dial_def emits_def
  by (auto simp: wp_simps at_only_def target_def split: option.split sum.split)

lemma reset_at: "emits (at_only eps) (attemptReset env cands eps)"
proof -
  have reset: "emits (at_only eps) (resetMachine env eps c)" for c
    unfolding resetMachine_def clientFor_def maintenanceClient_def authenticatedClient_def dial_def emits_def
    by (auto simp: wp_simps at_only_def target_def split: option.split sum.split)
  have "emits (at_only eps) (attemptReset_loop env cands eps err)" for err
    by (induction cands arbitrary: err) (auto intro!: emits_intros reset)
  then show ?thesis by (simp add: attemptReset_def)
qed

section \<open>Every handler after the claim\<close>

lemma await_at: "under (addressed eps) (at_only eps) (awaitClusterTalosConfig r env c)"
  by (intro at_kept undisturbed_upgrade_steps(1)) (unfold awaitClusterTalosConfig_def, intro keeps_intros)

lemma ensure_at: "under (addressed eps) (at_only eps) (ensureTalosVersion r env helper machine)"
proof -
  have config: "emits (\<lambda>e. \<not> is_disruptive e) (resetCredentialCandidates env)"
    by (rule emits_talosconfig) simp
  have mirror: "under (addressed eps) (at_only eps) (syncHostTalosVersion env)"
    unfolding syncHostTalosVersion_def Let_def by (intro under_intros) simp_all
  have attempt: "under (addressed eps) (at_only eps) (attemptReset env cands (machineEndpoints m))"
    if "addressed eps m" for cands m
    using that by (intro under_kept keeps_intros) (simp add: addressed_def reset_at)
  have reset: "under (addressed eps) (at_only eps) (resetAdoptedHostImpl env)"
    unfolding resetAdoptedHostImpl_def by (intro under_try_or at_kept config keeps_intros under_get attempt)
  have fin: "under (addressed eps) (at_only eps) (finalizeUpgradeFailure r env reason e)" for reason e
    unfolding finalizeUpgradeFailure_def
    by (intro under_intros at_modify at_stamp at_patch reset) (simp_all add: markMachineFalse_def)
  have rec: "under (addressed eps) (at_only eps) (recordUpgradeProbeFailure r env helper thr reason e rst)" for thr reason e rst
    unfolding recordUpgradeProbeFailure_def
    by (intro under_intros at_modify at_stamp at_patch fin) (simp_all add: markMachineFalse_def)
  have probes: "under (addressed eps) (at_only eps) (versionProbeAuthenticated env eps' cfg)"
    "under (addressed eps) (at_only eps) (bootIDAuthenticated env eps' cfg)" for eps' cfg
    by (intro under_kept harmless_probes [THEN at_harmless] keeps_intros)+
  have applied: "under (addressed eps) (at_only eps) (modify_obj (\<lambda>m. case mDesiredTalosVersion (mSpec m) of
        None \<Rightarrow> m | Some v \<Rightarrow> mStatus_update (\<lambda>st. st\<lparr>mUpgradeAppliedImageRef := v\<rparr>) m))"
    by (rule under_modify) (simp add: addressed_def machineEndpoints_def split: option.split)
  have complete: "under (addressed eps) (at_only eps) (markUpgradeComplete env helper)"
    unfolding markUpgradeComplete_def
    by (intro under_intros at_modify at_stamp applied at_patch mirror) simp_all
  have poll: "under (addressed eps) (at_only eps) (pollAgain r env helper)"
    unfolding pollAgain_def by (intro under_intros at_patch)
  have upgrade: "under (addressed eps) (at_only eps) (upgradeMachine env (machineEndpoints m) cfg img)"
    if "addressed eps m" for m cfg img
    using that by (intro under_kept keeps_intros) (simp add: addressed_def upgrade_at)
  have issue: "under (addressed eps) (at_only eps) (issueUpgrade r env helper cfg tag d)" for cfg tag d
    unfolding issueUpgrade_def
    by (intro under_intros at_modify at_stamp at_patch fin upgrade) (simp_all add: markMachineFalse_def)
  have fb: "under (addressed eps) (at_only eps) (upgradeInFlightVersionFallback r env helper eps' cfg)" for eps' cfg
    unfolding upgradeInFlightVersionFallback_def Let_def
    by (intro under_intros at_modify probes rec complete poll) simp_all
  have gate: "under (addressed eps) (at_only eps) (upgradeInFlightBootIDGate r env helper eps' cfg b)" for eps' cfg b
    unfolding upgradeInFlightBootIDGate_def
    by (intro under_intros at_modify probes rec complete poll fb) (simp split: sum.split)
  have fly: "under (addressed eps) (at_only eps) (upgradeInFlight r env helper machine)"
    unfolding upgradeInFlight_def by (auto intro!: under_intros await_at fb gate split: awaited.split)
  have probe: "under (addressed eps) (at_only eps) (upgradeProbeAndIssue r env helper machine d)" for d
    unfolding upgradeProbeAndIssue_def by (auto intro!: under_intros await_at probes rec issue split: awaited.split)
  have rest: "under (addressed eps) (at_only eps) (retriggerStaleUpgradeFailure env helper)"
    "under (addressed eps) (at_only eps) (markInvalidImageRef env helper)"
    unfolding retriggerStaleUpgradeFailure_def markInvalidImageRef_def
    by (intro under_intros at_modify at_stamp at_patch; simp add: markMachineFalse_def)+
  show ?thesis
    unfolding ensureTalosVersion_def
    by (auto intro!: under_intros rest complete probe fly split: option.split upgrade_state.split)
qed

lemma link_at: "under (addressed eps) (at_only eps) (linkNode r env helper machine)"
  unfolding under_def
proof (intro allI impI)
  fix s :: "(byot_machine, event) gst" assume "addressed eps (obj s)"
  moreover have "wp (linkNode r env helper machine) (\<lambda>_ s'. linking s s' \<and>
      (\<exists>es. log s' = log s @ es \<and> list_all (at_only eps) es)) s"
    using linkNode_linking [of r env helper machine] emits_wp [OF at_quiet [OF adopt_parts_undisturbed(4)]]
    by (intro wp_conj) (simp_all add: linking.steps_def)
  ultimately show "wp (linkNode r env helper machine) (\<lambda>_ s'. addressed eps (obj s') \<and>
      (\<exists>es. log s' = log s @ es \<and> list_all (at_only eps) es)) s"
    by (elim wp_mono) (auto simp: linking_def addressed_def machineEndpoints_def)
qed

lemma adopted_at: "under (addressed eps) (at_only eps) (reconcileAdopted r env helper machine)"
  unfolding reconcileAdopted_def by (intro under_intros ensure_at link_at)

lemma preflight_at: "under (addressed eps) (at_only eps) (resolveApplyAuth r env helper machine)"
  unfolding under_def
proof (intro allI impI)
  fix s :: "(byot_machine, event) gst" assume "addressed eps (obj s)"
  moreover have "under (same_identity (obj s)) (at_only eps) (resolveApplyAuth r env helper machine)"
    by (intro same_identity_under identity_preflight at_quiet preflight_undisturbed)
  then have "wp (resolveApplyAuth r env helper machine) (\<lambda>_ s'. same_identity (obj s) (obj s') \<and>
      (\<exists>es. log s' = log s @ es \<and> list_all (at_only eps) es)) s"
    by (simp add: under_def)
  ultimately show "wp (resolveApplyAuth r env helper machine) (\<lambda>_ s'. addressed eps (obj s') \<and>
      (\<exists>es. log s' = log s @ es \<and> list_all (at_only eps) es)) s"
    by (elim wp_mono) (simp add: same_identity_def addressed_def)
qed

lemma apply_and_mark_at: "under (addressed eps) (at_only eps) (applyAndMarkAdopted r env helper machine mc h)"
proof -
  have gate: "under (addressed eps) (at_only eps) (awaitControlPlaneReady r env helper machine)"
    unfolding awaitControlPlaneReady_def clusterControlPlaneReady_def
    by (intro under_intros at_patch at_modify; simp add: markMachineFalse_def)
  have fail: "under (addressed eps) (at_only eps) (recordApplyFailure env helper e)" for e
    unfolding recordApplyFailure_def by (intro under_intros at_patch at_modify) (simp add: markMachineFalse_def)
  have send: "under (addressed eps) (at_only eps) (applyMachineConfig env (machineEndpoints m) config cfg)"
    if "addressed eps m" for m config cfg
    using that by (intro under_kept keeps_intros) (simp add: addressed_def apply_at)
  have config: "under (addressed eps) (at_only eps) (applyConfiguration env helper mc cfg)" for cfg
    unfolding applyConfiguration_def Let_def
    by (intro under_intros at_kept keeps_intros disk_undisturbed fail send)
  have client: "under (addressed eps) (at_only eps) (authenticatedClient env eps' cfg)" for eps' cfg
    unfolding authenticatedClient_def dial_def by (intro under_intros; simp add: at_only_def target_def)
  have nudge: "under (addressed eps) (at_only eps) (nudgeKubeletAfterReadopt env cfg bm wr)" for cfg bm wr
    unfolding nudgeKubeletAfterReadopt_def serviceRunning_def restartService_def Let_def
    by (intro under_intros client at_modify)
       (simp_all add: markMachineFalse_def markMachineTrue_def at_only_def target_def)
  have mark: "under (addressed eps) (at_only eps) (modify_obj (markAdopted env h))"
    by (rule under_modify) (simp add: addressed_def machineEndpoints_def markAdopted_def markMachineTrue_def Let_def)
  show ?thesis
    unfolding applyAndMarkAdopted_def applyAuthorized_def finishAdoption_def Let_def
    by (auto intro!: under_intros preflight_at gate config nudge mark at_patch adopted_at split: awaited.split)
qed

lemma claimed_at: "under (addressed eps) (at_only eps) (adoptClaimed r env helper machine mc)"
  unfolding adoptClaimed_def Let_def by (intro under_intros adopted_at apply_and_mark_at)

section \<open>Only claimed hosts are disturbed\<close>

definition shielded :: "byot_machine \<Rightarrow> event list \<Rightarrow> bool" where
  "shielded m es \<longleftrightarrow> (\<forall>pre e post. es = pre @ e # post \<longrightarrow> is_disruptive e \<longrightarrow>
     (\<exists>n ip internal. claim_evidence m n ip pre \<and> target e = Some (buildEndpoints internal ip)))"

lemma shielded_quiet: "list_all (\<lambda>e. \<not> is_disruptive e) es \<Longrightarrow> shielded m es"
  by (auto simp: shielded_def)

lemma shielded_append:
  assumes "list_all (\<lambda>e. \<not> is_disruptive e) es" and "claim_evidence m n ip es"
    and "list_all (at_only (buildEndpoints internal ip)) es'"
  shows "shielded m (es @ es')"
  unfolding shielded_def
proof (intro allI impI)
  fix pre e post assume eq: "es @ es' = pre @ e # post" and e: "is_disruptive e"
  with assms(1) obtain us where pre: "pre = es @ us" and es': "es' = us @ e # post"
    by (auto simp: append_eq_append_conv2 Cons_eq_append_conv append_eq_Cons_conv)
  from assms(3) es' have "at_only (buildEndpoints internal ip) e" by simp
  with e have "target e = Some (buildEndpoints internal ip)"
    using target_disruptive [of e] by (auto simp: at_only_def)
  moreover have "claim_evidence m n ip pre" using assms(2) pre by (auto elim: claim_evidence_mono)
  ultimately show "\<exists>n ip internal. claim_evidence m n ip pre \<and> target e = Some (buildEndpoints internal ip)" by blast
qed

lemma shielded_with:
  assumes "list_all (\<lambda>e. \<not> is_disruptive e) es\<^sub>0" and "log s = l @ es\<^sub>0" and "mMeta (obj s) = mMeta m"
  shows "wp (adoptWith r env helper inputs) (\<lambda>_ s'. \<exists>es. log s' = l @ es \<and> shielded m es) s"
proof (cases inputs)
  case (Wait result)
  with assms show ?thesis by (simp add: adoptWith_def wp_ret shielded_quiet)
next
  case (Have p)
  obtain machine mc where p: "p = (machine, mc)" by (cases p)
  have quiet: "\<exists>es'. l @ es\<^sub>0 @ es = l @ es' \<and> shielded m es'" if "list_all (\<lambda>e. \<not> is_disruptive e) es" for es
    using that assms(1) by (intro exI [of _ "es\<^sub>0 @ es"]) (simp add: shielded_quiet)
  show ?thesis
    unfolding adoptWith_def Have p awaited.case prod.case
  proof (rule wp_try_orI [OF wp_conj [OF claimHost_wp emits_wp [OF adopt_parts_undisturbed(5)]]], goal_cases)
    case (1 e t)
    with assms(2) quiet show ?case by auto
  next
    case (2 x t)
    obtain res hd where x: "x = (res, hd)" by (cases x)
    from 2 obtain es where t: "log t = log s @ es" "list_all (\<lambda>e. \<not> is_disruptive e) es"
      and held: "hd = False \<longrightarrow> claim_evidence (obj s) (mResolvedHost (mStatus (obj t))) (mResolvedPublicIP (mStatus (obj t))) es"
      unfolding claimed_post_def x by auto
    let ?eps = "machineEndpoints (obj t)"
    show ?case
    proof (cases hd)
      case True
      with x t assms(2) quiet show ?thesis by (auto simp: wp_ret)
    next
      case False
      with held have "claim_evidence m (mResolvedHost (mStatus (obj t))) (mResolvedPublicIP (mStatus (obj t))) (es\<^sub>0 @ es)"
        using claim_evidence_cong [OF assms(3)] by (auto elim: claim_evidence_mono)
      from shielded_append [OF _ this] t(2) assms(1)
      have shield: "shielded m ((es\<^sub>0 @ es) @ es')" if "list_all (at_only ?eps) es'" for es'
        using that by (simp add: machineEndpoints_def)
      have "wp (adoptClaimed r env helper machine mc) (\<lambda>_ s'. addressed ?eps (obj s') \<and>
          (\<exists>es. log s' = log t @ es \<and> list_all (at_only ?eps) es)) t"
        using claimed_at [of ?eps r env helper machine mc] by (simp add: under_def addressed_def)
      then show ?thesis
        unfolding x prod.case by (simp add: False, elim wp_mono) (use t assms(2) shield in fastforce)
    qed
  qed
qed



end
