(* ===== verification/ClusterController.thy ===== *)
theory ClusterController
  imports HostController Sample
begin

text \<open>
  The ByotCluster reconciler (\<open>byotcluster_controller.go\<close>): a cluster whose infrastructure is
  not managed is simply marked ready, once.
\<close>

definition clusterReconcile :: "env \<Rightarrow> object_key \<Rightarrow> (byot_cluster, ctrl_result res) act" where
  "clusterReconcile env req =
     do { got \<leftarrow> kGetByotCluster env req;
          case got of
            Inl err \<Rightarrow>
              (if is_not_found err then ret (Inr no_result)
               else ret (Inl (errorf (''failed to get ByotCluster '' @ key_text req) err)))
          | Inr byotCluster \<Rightarrow>
              do { modify_obj (\<lambda>_. byotCluster);
                   if oDeletionTimestamp (bcMeta byotCluster) \<noteq> None then ret (Inr no_result)
                   else if bcReady byotCluster then ret (Inr no_result)
                   else check_or (kNewHelper env)
                     (errorf (''failed to create patch helper for ByotCluster '' @ key_text req))
                     (do { modify_obj (\<lambda>c. c\<lparr>bcReady := True\<rparr>);
                           patched \<leftarrow> get_obj;
                           check_or (kPatchByotCluster env byotCluster patched)
                             (errorf (''failed to patch ByotCluster '' @ key_text req))
                             (ret (Inr no_result)) }) } }"

definition cluster_outcome ::
  "env \<Rightarrow> object_key \<Rightarrow> (byot_cluster, event) gst \<Rightarrow> ctrl_result res \<Rightarrow> (byot_cluster, event) gst \<Rightarrow> bool" where
  "cluster_outcome env req s a s' \<longleftrightarrow>
    (let got = k_get_byot_cluster env (log s) req; read = log s @ [Kube (EvGetByotCluster req got)] in
     case got of
      Inl err \<Rightarrow> log s' = read \<and> obj s' = obj s \<and>
        a = (if is_not_found err then Inr no_result else Inl (errorf (''failed to get ByotCluster '' @ key_text req) err))
    | Inr c \<Rightarrow>
        if oDeletionTimestamp (bcMeta c) \<noteq> None \<or> bcReady c
        then log s' = read \<and> obj s' = c \<and> a = Inr no_result
        else (\<exists>h. log s' = read @ [Kube (EvNewHelper (Some h))] \<and> (\<exists>e. a = Inl e))
          \<or> (\<exists>r. log s' = read @ [Kube (EvNewHelper None), Kube (EvPatchByotCluster c (c\<lparr>bcReady := True\<rparr>) r)] \<and>
               obj s' = c\<lparr>bcReady := True\<rparr> \<and>
               (case r of None \<Rightarrow> a = Inr no_result | Some e \<Rightarrow> \<exists>e. a = Inl e)))"

text \<open>C40. A reconcile of a ByotCluster touches the API server only: it reads the object, and patches
  it at most once, to the object as read with \<open>status.ready\<close> set, which happens exactly when it
  was read alive and not ready; a deleted, missing or ready cluster ends the reconcile without a
  write, and every error of the API other than NotFound is returned.\<close>

theorem clusterReconcile_marks_ready_once:
  assumes "run_state (clusterReconcile env req) s = (a, s')"
  shows "cluster_outcome env req s a s'"
proof -
  have "wp (clusterReconcile env req) (cluster_outcome env req s) s"
    by (cases "k_get_byot_cluster env (log s) req")
       (auto simp: clusterReconcile_def cluster_outcome_def wp_simps Let_def split: option.split)
  then show ?thesis using assms by (rule wp_run)
qed

definition new_cluster :: byot_cluster where
  "new_cluster = \<lparr>bcMeta = sample_meta ''c'' ''uid-c'', bcReady = False, bcConditions = []\<rparr>"

lemma clusterReconcile_marks_ready_once_witness:
  "log (snd (run_state (clusterReconcile (sample_env\<lparr>k_get_byot_cluster := \<lambda>l k. Inr new_cluster\<rparr>) (''default'', ''c'')) (start new_cluster)))
     \<in> {[Kube (EvGetByotCluster (''default'', ''c'') (Inr new_cluster)), Kube (EvNewHelper None),
        Kube (EvPatchByotCluster new_cluster (new_cluster\<lparr>bcReady := True\<rparr>) r)] | r. True} \<union>
       {[Kube (EvGetByotCluster (''default'', ''c'') (Inr new_cluster)), Kube (EvNewHelper (Some h))] | h. True}"
proof -
  let ?env = "sample_env\<lparr>k_get_byot_cluster := \<lambda>l k. Inr new_cluster\<rparr>"
  have "oDeletionTimestamp (bcMeta new_cluster) = None" "\<not> bcReady new_cluster"
    by (simp_all add: new_cluster_def sample_meta_def)
  with clusterReconcile_marks_ready_once [of ?env "(''default'', ''c'')" "start new_cluster", OF prod.collapse [symmetric]]
  show ?thesis by (auto simp: cluster_outcome_def Let_def)
qed

end
