(* ===== verification/Progress.thy ===== *)
theory Progress
  imports MachineRuns
begin

text \<open>
  That the ByotMachine controller gets there: one reconcile of a fresh machine, with a host to
  claim and an outside world that answers, claims a host, configures the machine behind it and
  persists it as Ready, in this order. The theories before this one say what the controller never
  does; this one says what it does when nothing stands in its way.
  The last theorem starts one step earlier, at the reconcile of the host by its own controller.
\<close>

section \<open>Events in turn\<close>

fun in_turn :: "('e \<Rightarrow> bool) list \<Rightarrow> 'e list \<Rightarrow> bool" where
  "in_turn [] es = True"
| "in_turn (P # Ps) [] = False"
| "in_turn (P # Ps) (e # es) = (if P e then in_turn Ps es else in_turn (P # Ps) es)"

lemma in_turn_fewer: "in_turn (P # Ps) es \<Longrightarrow> in_turn Ps es"
proof (induction es arbitrary: P Ps)
  case (Cons e es)
  show ?case
  proof (cases Ps)
    case (Cons Q Qs)
    with Cons.prems Cons.IH [of P "Q # Qs"] Cons.IH [of Q Qs] show ?thesis by (auto split: if_splits)
  qed simp
qed simp

lemma in_turn_later: "in_turn Ps es \<Longrightarrow> in_turn Ps (es' @ es)"
proof (induction es')
  case (Cons e es')
  then have "in_turn Ps (es' @ es)" by simp
  then show ?case by (cases Ps) (auto dest: in_turn_fewer)
qed simp

lemma in_turn_append: "in_turn Ps es \<Longrightarrow> in_turn Qs fs \<Longrightarrow> in_turn (Ps @ Qs) (es @ fs)"
  by (induction Ps es rule: in_turn.induct) (auto intro: in_turn_later split: if_splits)

lemma in_turn_sooner: "in_turn Ps es \<Longrightarrow> in_turn Ps (es @ fs)"
  using in_turn_append [of Ps es "[]" fs] by simp

lemma in_turn_single: "in_turn [P] es \<longleftrightarrow> (\<exists>e \<in> set es. P e)"
  by (induction es) auto

text \<open>A step that adds calls to the log.\<close>

definition adds :: "('e \<Rightarrow> bool) list \<Rightarrow> ('o, 'e) gst \<Rightarrow> ('o, 'e) gst \<Rightarrow> bool" where
  "adds Ps s t \<longleftrightarrow> (\<exists>es. log t = log s @ es \<and> in_turn Ps es)"

lemma adds_trans: "adds Ps s t \<Longrightarrow> adds Qs t u \<Longrightarrow> adds (Ps @ Qs) s u"
  by (auto simp: adds_def intro!: in_turn_append)

lemma adds_calls [simp]: "adds [] s (s\<lparr>obj := x, log := log s @ es\<rparr>)" "adds [] s (s\<lparr>log := log s @ es\<rparr>)"
    "adds [] s s" "adds [] s (s\<lparr>obj := x\<rparr>)"
  by (auto simp: adds_def)

lemma adds_after: "adds Ps (s\<lparr>log := log s @ es\<rparr>) t \<Longrightarrow> adds Ps s t"
  using adds_trans [of "[]" s "s\<lparr>log := log s @ es\<rparr>" Ps t] by simp

lemma adds_emits: "emits E m \<Longrightarrow> wp m (\<lambda>_ t. adds [] s t) s"
  by (rule wp_mono [OF emits_wp]) (auto simp: adds_def)


section \<open>A world that answers\<close>

text \<open>The API server accepts writes, the machine behind every address answers in maintenance mode
  and accepts a configuration, and the YAML codec reads and writes.\<close>

definition answers :: "env \<Rightarrow> bool" where
  "answers env \<longleftrightarrow>
     (\<forall>h. k_new_helper env h = None) \<and>
     (\<forall>h b x own. k_patch_machine env h b x own = None) \<and>
     (\<forall>h x. \<exists>y. k_status_update_host env h x = Inr y) \<and>
     (\<forall>h x. \<exists>y. k_update_host env h x = Inr y) \<and>
     (\<forall>h c. t_dial env h c = None) \<and>
     (\<forall>h c. \<exists>v. t_version env h c = Inr v) \<and>
     (\<forall>h c cfg. t_apply_configuration env h c cfg = None) \<and>
     (\<forall>b. finish (l_yaml_stream env b) = None) \<and>
     (\<forall>d. \<exists>b. l_yaml_encode_doc env d = Inr b) \<and>
     (\<forall>ds. \<exists>b. l_yaml_join env ds = Inr b)"

text \<open>The owner Machine is there with its bootstrap data, and it is a control plane's or the control
  plane is ready.\<close>

definition bootstrapped :: "env \<Rightarrow> byot_machine \<Rightarrow> capi_machine \<Rightarrow> bytes \<Rightarrow> bool" where
  "bootstrapped env m machine data \<longleftrightarrow> data \<noteq> [] \<and>
     (\<forall>h x. k_get_owner_machine env h x = Inr (Some machine)) \<and>
     (\<exists>name. cmDataSecretName machine = Some name \<and>
        (\<forall>h. \<exists>secret. k_get_secret env h (oNamespace (cmMeta machine), name) = Inr secret \<and>
           fmlookup secret bootstrapSecretDataKey = Some data)) \<and>
     (fmlookup (oLabels (cmMeta machine)) MachineControlPlaneLabel \<noteq> None \<or>
      (\<forall>h. \<exists>cluster. k_get_capi_cluster env h (oNamespace (mMeta m), cmClusterName machine) = Inr cluster \<and>
         l_cond_is_true env (ccConditions cluster) ControlPlaneReadyCondition))"

text \<open>The hosts the selector finds, none of them changing under way; one of them to be had.\<close>

definition listed :: "env \<Rightarrow> byot_machine \<Rightarrow> byot_host list \<Rightarrow> bool" where
  "listed env m hosts \<longleftrightarrow>
     l_selector_valid env (mHostSelector (mSpec m)) = None \<and>
     (\<forall>h. k_list_hosts env h (oNamespace (mMeta m)) (mHostSelector (mSpec m)) = Inr hosts) \<and>
     (\<forall>x \<in> set hosts. \<forall>h. k_get_host env h (key_of (hMeta x)) = Inr x)"

definition offered :: "env \<Rightarrow> byot_machine \<Rightarrow> byot_host list \<Rightarrow> bool" where
  "offered env m hosts \<longleftrightarrow> listed env m hosts \<and> (\<exists>x \<in> set hosts. claim_candidate env m x)"

text \<open>A machine that has nothing yet, chooses by selector and leaves the Talos version alone.\<close>

definition unstarted :: "byot_machine \<Rightarrow> bool" where
  "unstarted m \<longleftrightarrow> mHostRef (mSpec m) = None \<and> mResolvedHost (mStatus m) = [] \<and> \<not> mReady (mStatus m) \<and>
     mUpgradeState (mStatus m) = NoUpgrade \<and> mDesiredTalosVersion (mSpec m) \<in> {None, Some []}"

text \<open>The first choice among the hosts.\<close>

definition first_choice :: "env \<Rightarrow> byot_machine \<Rightarrow> byot_host list \<Rightarrow> byot_host \<Rightarrow> bool" where
  "first_choice env m hosts x \<longleftrightarrow> x \<in> set hosts \<and> claim_candidate env m x \<and>
     (\<forall>x' \<in> set hosts. claim_candidate env m x' \<longrightarrow> host_name x \<le> host_name x')"

text \<open>The bootstrap data as it is sent: with the install disk, if one is given or found, and the
  addresses.\<close>

definition edited :: "env \<Rightarrow> bytes \<Rightarrow> string \<Rightarrow> endpoints \<Rightarrow> bytes res" where
  "edited env data disk eps =
     (case (if disk = [] then Inr data else injectInstallDisk env data disk) of
        Inl e \<Rightarrow> Inl e | Inr config \<Rightarrow> injectHostCertSANs env config eps)"


section \<open>The steps\<close>

lemma inputs_found:
  assumes "bootstrapped env m machine data"
  shows "wp (adoptionInputs r env) (\<lambda>a t. a = Inr (Have (machine, data)) \<and> obj t = obj s \<and> adds [] s t) s"
proof -
  from assms obtain name where "cmDataSecretName machine = Some name"
    and secret: "\<And>h. \<exists>secret. k_get_secret env h (oNamespace (cmMeta machine), name) = Inr secret \<and>
           fmlookup secret bootstrapSecretDataKey = Some data"
    by (auto simp: bootstrapped_def)
  then obtain sec where "\<And>h. k_get_secret env h (oNamespace (cmMeta machine), name) = Inr (sec h)"
    "\<And>h. fmlookup (sec h) bootstrapSecretDataKey = Some data" by metis
  with assms \<open>cmDataSecretName machine = Some name\<close> show ?thesis
    unfolding adoptionInputs_def bootstrapData_def Let_def
    by (simp add: wp_simps bootstrapped_def)
qed

lemma choice_made:
  assumes "offered env (obj s) hosts" and "mHostRef (mSpec (obj s)) = None"
  shows "wp (resolveClaimCandidate env) (\<lambda>a t. obj t = obj s \<and> adds [] s t \<and>
      (\<exists>x. a = Inr x \<and> first_choice env (obj s) hosts x)) s"
proof -
  let ?cs = "filter (claim_candidate env (obj s)) hosts"
  have "?cs \<noteq> []" using assms(1) by (auto simp: offered_def listed_def filter_empty_conv)
  then have "sort_key host_name ?cs \<noteq> []" by (metis length_0_conv length_sort)
  then obtain x rest where x: "sort_key host_name ?cs = x # rest" by (auto simp: neq_Nil_conv)
  then have "x \<in> set ?cs" by (metis list.set_intros(1) set_sort)
  then have "first_choice env (obj s) hosts x"
    using sort_key_hd_le [OF x] by (auto simp: first_choice_def)
  with assms x show ?thesis
    unfolding resolveClaimCandidate_def selectClaimCandidate_def Let_def
    by (simp add: wp_simps offered_def listed_def filterClaimCandidates_eq)
qed

definition claims :: "byot_machine \<Rightarrow> byot_host \<Rightarrow> event \<Rightarrow> bool" where
  "claims m x e \<longleftrightarrow> (\<exists>y. e = Kube (EvStatusUpdateHost (set_claim m x) (Inr y)))"

lemma claim_succeeds:
  assumes "answers env" and "offered env (obj s) hosts" and "first_choice env (obj s) hosts x"
  shows "wp (claimCAS env x) (\<lambda>a t. a = Inr () \<and> obj t = obj s \<and> adds [claims (obj s) x] s t) s"
proof -
  from assms have get: "k_get_host env h (key_of (hMeta x)) = Inr x" for h
    by (auto simp: offered_def listed_def first_choice_def)
  from assms(1) obtain up where up: "\<And>h y. k_status_update_host env h y = Inr (up h y)"
    unfolding answers_def by metis
  from assms(1) obtain fin where fin: "\<And>h y. k_update_host env h y = Inr (fin h y)"
    unfolding answers_def by metis
  have "\<not> claimed_elsewhere (oUID (mMeta (obj s))) x"
    using assms(3) by (simp add: first_choice_def claim_candidate_def)
  then show ?thesis
    unfolding claimCAS_def Let_def
    by (simp add: wp_simps get up fin adds_def in_turn_single claims_def)
qed

text \<open>The machine after the claim.\<close>

definition on_host :: "byot_host \<Rightarrow> byot_machine \<Rightarrow> byot_machine" where
  "on_host x = mStatus_update (\<lambda>st. st\<lparr>mResolvedHost := host_name x, mResolvedPublicIP := hPublicIP (hSpec x),
     mResolvedInternalIP := hostInternalIP x\<rparr>)"

lemma host_claimed:
  assumes "answers env" and "offered env (obj s) hosts" and "unstarted (obj s)"
  shows "wp (claimHost r env helper) (\<lambda>a t. a = Inr (no_result, False) \<and>
      (\<exists>x. first_choice env (obj s) hosts x \<and> obj t = on_host x (obj s) \<and> adds [claims (obj s) x] s t)) s"
    (is "wp _ ?Q s")
proof -
  have choose: "wp (takeCandidate env helper x) ?Q t"
    if t: "obj t = obj s" "adds [] s t" "first_choice env (obj s) hosts x" for x and t :: "(byot_machine, event) gst"
  proof -
    have "wp (claimCAS env x) (\<lambda>a u. a = Inr () \<and> obj u = obj t \<and> adds [claims (obj t) x] t u) t"
      by (rule claim_succeeds [OF assms(1)]) (use assms(2) t in simp_all)
    then have "wp (claimCAS env x) (\<lambda>a u. a = Inr () \<and> obj u = obj s \<and> adds [claims (obj s) x] s u) t"
      by (rule wp_mono) (use adds_trans [OF t(2)] t(1) in fastforce)
    moreover have "adds [claims (obj s) x] s (u\<lparr>obj := y, log := log u @ es\<rparr>)"
      if "adds [claims (obj s) x] s u" for y u es
      using adds_trans [OF that adds_calls(1)] by simp
    moreover have "k_patch_machine env h b y own = None" for h b y own
      using assms(1) by (simp add: answers_def)
    ultimately show ?thesis
      unfolding takeCandidate_def patchMachine_def
      by (elim wp_bindI) (use t in \<open>auto simp: wp_simps on_host_def host_name_def\<close>)
  qed
  show ?thesis
    unfolding claimHost_def verifyExistingClaim_def searchAndClaim_def Let_def
    using assms(3)
    by (simp add: wp_simps unstarted_def)
       (rule wp_mono [OF choice_made [OF assms(2)]], auto simp: wp_simps unstarted_def intro: choose)
qed


lemma maintenance_answers:
  assumes "answers env"
  shows "wp (probeMaintenance env eps) (\<lambda>a t. a \<and> obj t = obj s \<and> adds [] s t) s"
proof -
  from assms obtain v where "\<And>h c. t_version env h c = Inr (v h c)" unfolding answers_def by metis
  with assms show ?thesis
    unfolding probeMaintenance_def version_ok_def maintenanceClient_def dial_def
    by (simp add: wp_simps answers_def)
qed

definition conditions_only :: "byot_machine \<Rightarrow> byot_machine \<Rightarrow> bool" where
  "conditions_only m m' \<longleftrightarrow> mMeta m' = mMeta m \<and> mSpec m' = mSpec m \<and>
     mStatus m' = (mStatus m)\<lparr>mConditions := mConditions (mStatus m')\<rparr>"

lemma auth_insecure:
  assumes "answers env" and "\<not> mReady (mStatus (obj s))"
  shows "wp (resolveApplyAuth r env helper machine) (\<lambda>a t. a = Inr (Have (None, False)) \<and> adds [] s t \<and>
      conditions_only (obj s) (obj t)) s"
  unfolding resolveApplyAuth_def preflightJoin_def Let_def
  using assms(2)
  by (simp add: wp_simps)
     (rule wp_mono [OF maintenance_answers [OF assms(1)]], simp add: wp_simps adds_def conditions_only_def)

lemma gate_open:
  assumes "bootstrapped env (obj s) machine data"
  shows "wp (awaitControlPlaneReady r env helper machine) (\<lambda>a t. a = Inr (Have ()) \<and> obj t = obj s \<and> adds [] s t) s"
proof (cases "fmlookup (oLabels (cmMeta machine)) MachineControlPlaneLabel")
  case None
  with assms obtain cl where
    "\<And>h. k_get_capi_cluster env h (oNamespace (mMeta (obj s)), cmClusterName machine) = Inr (cl h)"
    "\<And>h. l_cond_is_true env (ccConditions (cl h)) ControlPlaneReadyCondition"
    unfolding bootstrapped_def by metis
  with None show ?thesis
    unfolding awaitControlPlaneReady_def clusterControlPlaneReady_def by (simp add: wp_simps)
qed (simp add: awaitControlPlaneReady_def wp_simps)

lemma encodes:
  assumes "answers env"
  shows "\<exists>b. encode_loop env docs out = Inr b"
proof (induction docs arbitrary: out)
  case Nil
  from assms obtain b where "l_yaml_join env out = Inr b" unfolding answers_def by metis
  then show ?case by simp
next
  case (Cons d docs)
  from assms obtain b where "l_yaml_encode_doc env d = Inr b" unfolding answers_def by metis
  with Cons.IH show ?case by simp
qed

lemma edits_succeed:
  assumes "answers env"
  shows "\<exists>b. injectInstallDisk env cfg d = Inr b" and "\<exists>b. injectHostCertSANs env cfg eps = Inr b"
proof -
  have "decodeMachineConfigDocs env c = Inr (msgs (l_yaml_stream env c))" for c
    using assms by (simp add: decodeMachineConfigDocs_def answers_def Let_def)
  moreover have "\<exists>b. encodeMachineConfigDocs env docs = Inr b" for docs
    unfolding encodeMachineConfigDocs_def by (rule encodes [OF assms])
  ultimately show "\<exists>b. injectInstallDisk env cfg d = Inr b" "\<exists>b. injectHostCertSANs env cfg eps = Inr b"
    unfolding injectInstallDisk_def injectHostCertSANs_def injectCertSANs_def injectClusterAPIServerCertSANs_def
    by (auto split: sum.split) (metis sum.distinct(1) sum.sel(2))+
qed

definition sends :: "env \<Rightarrow> bytes \<Rightarrow> endpoints \<Rightarrow> event \<Rightarrow> bool" where
  "sends env data eps e \<longleftrightarrow> (\<exists>disk config. edited env data disk eps = Inr config \<and>
     e = Talos (EvApplyConfiguration \<lparr>tcTalosConfig = None, tcEndpoints = eps\<rparr> config None))"

lemma disk_resolved:
  assumes "answers env"
  shows "wp (resolveInstallDisk env data cfg) (\<lambda>a t. obj t = obj s \<and> adds [] s t \<and>
      (\<exists>disk config. a = Inr config \<and> (if disk = [] then Inr data else injectInstallDisk env data disk) = Inr config)) s"
proof -
  have detect: "wp (detectSystemDisk env eps cfg) (\<lambda>a t. obj t = obj u \<and> adds [] u t) u"
    for eps and u :: "(byot_machine, event) gst"
    by (intro wp_conj keeps_wp keeps_intros adds_emits [OF harmless_probes(5)])
  show ?thesis
    unfolding resolveInstallDisk_def Let_def
    using edits_succeed(1) [OF assms, of data]
    by (auto simp: wp_simps split: option.split intro!: wp_mono [OF detect])
       (auto split: sum.split)
qed

lemma configuration_sent:
  assumes "answers env"
  shows "wp (applyConfiguration env helper data None) (\<lambda>a t. a = None \<and> obj t = obj s \<and>
      adds [sends env data (machineEndpoints (obj s))] s t) s"
  unfolding applyConfiguration_def Let_def
proof (rule wp_bindI [OF disk_resolved [OF assms]], elim conjE exE)
  let ?eps = "machineEndpoints (obj s)"
  fix a :: "bytes res" and t :: "(byot_machine, event) gst" and disk config
  assume t: "obj t = obj s" "adds [] s t"
    and a: "a = Inr config" "(if disk = [] then Inr data else injectInstallDisk env data disk) = Inr config"
  obtain c where c: "injectHostCertSANs env config ?eps = Inr c" using edits_succeed(2) [OF assms] by blast
  with a(2) have "edited env data disk ?eps = Inr c" by (simp add: edited_def)
  then have "wp (applyMachineConfig env ?eps c None) (\<lambda>r u. r = Inr () \<and> obj u = obj t \<and> adds [sends env data ?eps] t u) t"
    unfolding applyMachineConfig_def clientFor_def maintenanceClient_def dial_def
    using assms by (auto simp: wp_simps answers_def adds_def in_turn_single sends_def)
  then have "wp (applyMachineConfig env ?eps c None) (\<lambda>r u. r = Inr () \<and> obj u = obj s \<and> adds [sends env data ?eps] s u) t"
    by (rule wp_mono) (use adds_trans [OF t(2)] t(1) in fastforce)
  then show "wp (do { byotMachine \<leftarrow> get_obj;
          case (case a of Inl e \<Rightarrow> Inl e | Inr config \<Rightarrow> injectHostCertSANs env config (machineEndpoints byotMachine)) of
            Inl err \<Rightarrow> do { e \<leftarrow> recordApplyFailure env helper err; ret (Some e) }
          | Inr config \<Rightarrow>
              do { applied \<leftarrow> applyMachineConfig env (machineEndpoints byotMachine) config None;
                   case applied of
                     Inl err \<Rightarrow> do { e \<leftarrow> recordApplyFailure env helper err; ret (Some e) }
                   | Inr _ \<Rightarrow> ret None } })
      (\<lambda>a u. a = None \<and> obj u = obj s \<and> adds [sends env data ?eps] s u) t"
    by (simp add: wp_simps t(1) a(1) c) (erule wp_mono, simp add: wp_simps)
qed

text \<open>Ready is persisted, and what follows (the Talos version is left alone) does not touch it.\<close>

definition persists :: "byot_machine \<Rightarrow> event \<Rightarrow> bool" where
  "persists m e \<longleftrightarrow> (\<exists>b own. e = Kube (EvPatchMachine b m own None))"

lemma linked_after:
  assumes "mDesiredTalosVersion (mSpec (obj s)) \<in> {None, Some []}"
  shows "wp (reconcileAdopted r env helper machine) (\<lambda>_ t. linking s t \<and> adds [] s t) s"
proof -
  have "wp (linkNode r env helper machine) (\<lambda>_ t. linking s t \<and> adds [] s t) s"
    using linkNode_linking [of r env helper machine]
    by (intro wp_conj adds_emits [OF adopt_parts_undisturbed(4)]) (simp add: linking.steps_def)
  with assms show ?thesis
    unfolding reconcileAdopted_def ensureTalosVersion_def by (auto simp: wp_simps)
qed

lemma adoption_finished:
  assumes "answers env" and "mDesiredTalosVersion (mSpec (obj s)) \<in> {None, Some []}"
  shows "wp (finishAdoption r env helper machine h cfg False False) (\<lambda>_ t.
      linking (s\<lparr>obj := markAdopted env h (obj s)\<rparr>) t \<and> adds [persists (markAdopted env h (obj s))] s t) s"
proof -
  let ?m = "markAdopted env h (obj s)"
  let ?u = "\<lambda>e. s\<lparr>obj := ?m, log := log s @ [e]\<rparr>"
  have desired: "mDesiredTalosVersion (mSpec ?m) = mDesiredTalosVersion (mSpec (obj s))"
    by (simp add: markAdopted_def Let_def)
  have rest: "wp (reconcileAdopted r env helper machine) (\<lambda>_ t.
      linking (s\<lparr>obj := ?m\<rparr>) t \<and> adds [persists ?m] s t) (?u e)" if "persists ?m e" for e
  proof (rule wp_mono [OF linked_after])
    show "mDesiredTalosVersion (mSpec (obj (?u e))) \<in> {None, Some []}" using assms(2) desired by simp
    fix t assume t: "linking (?u e) t \<and> adds [] (?u e) t"
    have "adds [persists ?m] s (?u e)" using that by (simp add: adds_def in_turn_single)
    from adds_trans [OF this] t show "linking (s\<lparr>obj := ?m\<rparr>) t \<and> adds [persists ?m] s t"
      by (auto simp: linking_def)
  qed
  have nudge: "nudgeKubeletAfterReadopt env cfg False False = ret ()"
    by (simp add: nudgeKubeletAfterReadopt_def)
  show ?thesis
    unfolding finishAdoption_def patchMachine_def nudge
    using assms(1) rest by (simp add: wp_simps answers_def persists_def)
qed

text \<open>The machine adopted on a host with the bootstrap data.\<close>

definition adopted_on :: "env \<Rightarrow> bytes \<Rightarrow> byot_host \<Rightarrow> byot_machine \<Rightarrow> bool" where
  "adopted_on env data x m \<longleftrightarrow> mReady (mStatus m) \<and> mResolvedHost (mStatus m) = host_name x \<and>
     mProviderID (mSpec m) = Some (ProviderIDPrefix @ hPublicIP (hSpec x)) \<and>
     mLastAppliedConfigSHA (mStatus m) = sha256Hex env data"

definition persists_adopted :: "env \<Rightarrow> bytes \<Rightarrow> byot_host \<Rightarrow> event \<Rightarrow> bool" where
  "persists_adopted env data x e \<longleftrightarrow> (\<exists>b m own. e = Kube (EvPatchMachine b m own None) \<and> adopted_on env data x m)"

lemma marked_adopted:
  assumes "conditions_only (on_host x m) m'"
  shows "adopted_on env data x (markAdopted env (sha256Hex env data) m')"
proof -
  from assms obtain c where "mStatus m' = (mStatus (on_host x m))\<lparr>mConditions := c\<rparr>"
    unfolding conditions_only_def by blast
  then show ?thesis by (simp add: adopted_on_def markAdopted_def markMachineTrue_def on_host_def Let_def)
qed

lemma on_host_kept [simp]:
  "mMeta (on_host x m) = mMeta m" "mSpec (on_host x m) = mSpec m" "mReady (mStatus (on_host x m)) = mReady (mStatus m)"
  "mUpgradeState (mStatus (on_host x m)) = mUpgradeState (mStatus m)"
  "machineEndpoints (on_host x m) = hostEndpoints x"
  by (simp_all add: on_host_def machineEndpoints_def hostEndpoints_def)

lemma conditions_only_kept:
  assumes "conditions_only m m'"
  shows "mMeta m' = mMeta m" and "mSpec m' = mSpec m" and "mReady (mStatus m') = mReady (mStatus m)"
    and "machineEndpoints m' = machineEndpoints m"
proof -
  from assms obtain c where "mStatus m' = (mStatus m)\<lparr>mConditions := c\<rparr>" unfolding conditions_only_def by blast
  then show "mReady (mStatus m') = mReady (mStatus m)" "machineEndpoints m' = machineEndpoints m"
    by (simp_all add: machineEndpoints_def)
qed (use assms in \<open>simp_all add: conditions_only_def\<close>)

lemma bootstrapped_under: "mMeta m' = mMeta m \<Longrightarrow> bootstrapped env m' machine data = bootstrapped env m machine data"
  by (simp add: bootstrapped_def)

lemma linking_adopted: "linking s t \<Longrightarrow> adopted_on env data x (obj s) \<Longrightarrow> adopted_on env data x (obj t)"
  by (auto simp: linking_def adopted_on_def)

lemma adds_then:
  assumes "adds Ps s t" and "wp m (\<lambda>a u. R a u \<and> adds Qs t u) t"
  shows "wp m (\<lambda>a u. R a u \<and> adds (Ps @ Qs) s u) t"
  by (rule wp_mono [OF assms(2)]) (simp add: adds_trans [OF assms(1)])

text \<open>From the claim on.\<close>

lemma finished_on_host:
  assumes "answers env" and "conditions_only (on_host x m) (obj s)" and "mDesiredTalosVersion (mSpec m) \<in> {None, Some []}"
  shows "wp (finishAdoption r env helper machine (sha256Hex env data) cfg False False)
     (\<lambda>_ t. adopted_on env data x (obj t) \<and> adds [persists_adopted env data x] s t) s"
proof -
  let ?m = "markAdopted env (sha256Hex env data) (obj s)"
  have ok: "adopted_on env data x ?m" by (rule marked_adopted [OF assms(2)])
  then have "persists ?m e \<Longrightarrow> persists_adopted env data x e" for e
    by (auto simp: persists_def persists_adopted_def)
  then have seen: "adds [persists ?m] s t \<Longrightarrow> adds [persists_adopted env data x] s t" for t
    by (auto simp: adds_def in_turn_single)
  have "mDesiredTalosVersion (mSpec (obj s)) \<in> {None, Some []}"
    using assms(3) conditions_only_kept(2) [OF assms(2)] by simp
  from adoption_finished [OF assms(1) this] show ?thesis
    by (rule wp_mono) (use ok in \<open>auto dest: linking_adopted intro: seen\<close>)
qed

lemma adopted_from_claim:
  assumes "answers env" and "bootstrapped env m machine data" and "unstarted m" and "obj s = on_host x m"
  shows "wp (adoptClaimed r env helper machine data) (\<lambda>_ t. adopted_on env data x (obj t) \<and>
      adds [sends env data (hostEndpoints x), persists_adopted env data x] s t) s" (is "wp _ ?Q s")
proof -
  from assms(3,4) have fresh: "\<not> mReady (mStatus (obj s))" "mUpgradeState (mStatus (obj s)) = NoUpgrade"
    "mDesiredTalosVersion (mSpec m) \<in> {None, Some []}"
    by (simp_all add: unstarted_def)
  have applied: "wp (check_or (applyConfiguration env helper data None) id
      (finishAdoption r env helper machine (sha256Hex env data) None False False)) ?Q t"
    if t: "conditions_only (on_host x m) (obj t)" "adds [] s t" for t
  proof -
    have "wp (finishAdoption r env helper machine (sha256Hex env data) None False False) ?Q u"
      if "obj u = obj t" "adds [sends env data (machineEndpoints (obj t))] t u" for u
    proof -
      have "adds [sends env data (hostEndpoints x)] s u"
        using adds_trans [OF t(2) that(2)] conditions_only_kept(4) [OF t(1)] by simp
      from adds_then [OF this finished_on_host [OF assms(1) _ fresh(3)]] t(1) that(1) show ?thesis by simp
    qed
    then show ?thesis
      by (simp add: wp_simps) (rule wp_mono [OF configuration_sent [OF assms(1)]], simp add: wp_simps)
  qed
  have gated: "wp (applyAuthorized r env helper machine data (sha256Hex env data) None False) ?Q t"
    if t: "conditions_only (obj s) (obj t)" "adds [] s t" for t
  proof -
    from t assms(4) have c: "conditions_only (on_host x m) (obj t)" by simp
    have "bootstrapped env (obj t) machine data"
      using assms(2) bootstrapped_under [of "obj t" m] conditions_only_kept(1) [OF c] by simp
    from gate_open [OF this] have gate: "wp (awaitControlPlaneReady r env helper machine) (\<lambda>a u. a = Inr (Have ()) \<and>
        conditions_only (on_host x m) (obj u) \<and> adds [] s u) t"
      by (rule wp_mono) (use c adds_trans [OF t(2)] in fastforce)
    have "\<not> mReady (mStatus (obj t))" using fresh(1) conditions_only_kept(3) [OF t(1)] by simp
    then show ?thesis
      unfolding applyAuthorized_def Let_def
      by (simp add: wp_simps) (rule wp_mono [OF gate], use applied in \<open>simp add: wp_simps\<close>)
  qed
  show ?thesis
    unfolding adoptClaimed_def applyAndMarkAdopted_def Let_def
    using fresh(1,2)
    by (simp add: wp_simps configUnchanged_def)
       (rule wp_mono [OF auth_insecure [OF assms(1) fresh(1)]], use gated in \<open>simp add: wp_simps\<close>)
qed


section \<open>Progress\<close>

definition got_adopted ::
  "env \<Rightarrow> byot_machine \<Rightarrow> byot_host list \<Rightarrow> bytes \<Rightarrow> (byot_machine, event) gst \<Rightarrow> (byot_machine, event) gst \<Rightarrow> bool" where
  "got_adopted env m hosts data s t \<longleftrightarrow> (\<exists>x. first_choice env m hosts x \<and> adopted_on env data x (obj t) \<and>
     adds [claims m x, sends env data (hostEndpoints x), persists_adopted env data x] s t)"

lemma adopt_adopts:
  assumes "answers env" and "bootstrapped env (obj s) machine data" and "offered env (obj s) hosts"
    and "unstarted (obj s)"
  shows "wp (adopt r env) (\<lambda>_. got_adopted env (obj s) hosts data s) s"
proof -
  let ?Q = "\<lambda>_. got_adopted env (obj s) hosts data s"
  have claimed: "wp (adoptClaimed r env helper machine data) ?Q t"
    if t: "first_choice env (obj s) hosts x" "obj t = on_host x (obj s)" "adds [claims (obj s) x] s t" for helper x t
    by (rule wp_mono [OF adds_then [OF t(3) adopted_from_claim [OF assms(1,2,4) t(2)]]]) (use t(1) in \<open>auto simp: got_adopted_def\<close>)
  have "wp (adoptWith r env helper (Have (machine, data))) ?Q t"
    if t: "obj t = obj s" "adds [] s t" for helper t
  proof -
    have o: "offered env (obj t) hosts" "unstarted (obj t)" using assms(3,4) t(1) by simp_all
    have "wp (claimHost r env helper) (\<lambda>a u. a = Inr (no_result, False) \<and>
        (\<exists>x. first_choice env (obj s) hosts x \<and> obj u = on_host x (obj s) \<and> adds [claims (obj s) x] s u)) t"
      by (rule wp_mono [OF host_claimed [OF assms(1) o]]) (use t(1) adds_trans [OF t(2)] in fastforce)
    then show ?thesis
      unfolding adoptWith_def by (simp add: wp_simps) (erule wp_mono, use claimed in \<open>auto simp: wp_simps\<close>)
  qed
  moreover have "k_new_helper env h = None" for h using assms(1) by (simp add: answers_def)
  ultimately show ?thesis
    unfolding adopt_def
    by (simp add: wp_simps) (rule wp_mono [OF inputs_found], use assms(2) in \<open>auto simp: wp_simps intro: adds_after\<close>)
qed



text \<open>Two free hosts and one that another machine holds; nothing changes between list and get.\<close>

definition progress_env :: env where
  "progress_env = fresh_env\<lparr>k_get_host := \<lambda>h k. Inr
     (if snd k = ''0'' then live_host ''0'' Claimed (Some (sample_ref ''uid-9'')) else live_host (snd k) Available None)\<rparr>"

abbreviation progress_hosts :: "byot_host list" where
  "progress_hosts \<equiv> [live_host ''b'' Available None, live_host ''a'' Available None,
                     live_host ''0'' Claimed (Some (sample_ref ''uid-9''))]"

lemmas progress_env_defs =
  progress_env_def fresh_env_def reclaim_env_def claim_env_def sample_env_def sample_lib_def

lemma progress_env_answers: "answers progress_env"
  by (simp add: answers_def progress_env_defs)

lemma progress_env_bootstrapped:
  "bootstrapped progress_env (obj (start sample_machine)) (owner
     \<lparr>cmDataSecretName := Some ''data'', cmMeta := (cmMeta owner)\<lparr>oLabels := fmap_of_list [(MachineControlPlaneLabel, '''')]\<rparr>\<rparr>) ''cfg''"
  by (simp add: bootstrapped_def progress_env_defs fmlookup_of_list)

lemma progress_env_candidate: "claim_candidate progress_env sample_machine (live_host n Available None)"
  by (simp add: claim_candidate_def hostClaimable_def progress_env_defs live_host_def sample_host_def
      sample_is_true_def sample_condition_def claimed_elsewhere_def hostMatchesFailureDomain_def sample_machine_def)

lemma progress_env_offered: "offered progress_env (obj (start sample_machine)) progress_hosts"
proof -
  have key: "snd (key_of (hMeta (live_host n ph ref))) = n" for n ph ref
    by (simp add: key_of_def live_host_def sample_host_def sample_meta_def)
  have lists: "k_list_hosts progress_env h ns sel = Inr progress_hosts"
    "l_selector_valid progress_env sel' = None"
    "k_get_host progress_env h k = Inr (if snd k = ''0'' then live_host ''0'' Claimed (Some (sample_ref ''uid-9''))
       else live_host (snd k) Available None)" for h ns sel sel' k
    by (simp_all add: progress_env_defs)
  show ?thesis
    using progress_env_candidate [of "''a''"] by (simp add: offered_def listed_def lists key)
qed


text \<open>A host that was being released, probed, and a machine that finds only that host.\<close>

definition probed_host :: byot_host where
  "probed_host = obj (snd (run_state
     (reconcileHost NewByotHostReconciler sample_env (sample_host ''h1'' Releasing (Some (sample_ref ''uid-9''))))
     (start (sample_host ''h1'' Releasing (Some (sample_ref ''uid-9''))))))"

definition handover_env :: env where
  "handover_env = fresh_env\<lparr>k_list_hosts := \<lambda>h ns sel. Inr [probed_host], k_get_host := \<lambda>h k. Inr probed_host\<rparr>"

lemma handover_env_lists: "listed handover_env (obj (start sample_machine)) [probed_host]"
  by (simp add: listed_def handover_env_def fresh_env_def reclaim_env_def claim_env_def sample_env_def sample_lib_def)

lemma handover_env_answers:
  "answers handover_env" "l_cond_is_true handover_env = l_cond_is_true sample_env"
  "bootstrapped handover_env (obj (start sample_machine)) (owner
     \<lparr>cmDataSecretName := Some ''data'', cmMeta := (cmMeta owner)\<lparr>oLabels := fmap_of_list [(MachineControlPlaneLabel, '''')]\<rparr>\<rparr>) ''cfg''"
  by (simp_all add: answers_def bootstrapped_def handover_env_def fresh_env_def reclaim_env_def claim_env_def
      sample_env_def sample_lib_def fmlookup_of_list)


end
