(* ===== verification/Memory.thy ===== *)
theory Memory
  imports Prelude
begin

text \<open>
  Go values that hold pointers, slices or maps share memory when they are assigned. This theory
  is the store such values live in, what a value shows (\<open>view\<close>) and which cells that depends on
  (\<open>foot\<close>), and the contract of a deep copy (locale \<open>deep_copy\<close>) with the rules that
  build the copy of a struct from the copies of its fields. Theory DeepCopy has the types.

  A cell holds one allocated value: the target of a pointer or the array of a slice (API objects
  hold whole arrays). A pointer or slice is \<open>None\<close> (nil) or the number of its cell.
\<close>

named_theorems copy_intros "how deep copies are composed"

section \<open>The store\<close>

record 'c memory =
  cells :: "nat \<Rightarrow> 'c"
  nextFree :: nat

definition allocate :: "('c memory, nat) state" where
  "allocate = State (\<lambda>s. (nextFree s, s\<lparr>nextFree := Suc (nextFree s)\<rparr>))"

definition load :: "nat \<Rightarrow> ('c memory, 'c) state" where
  "load a = State (\<lambda>s. (cells s a, s))"

definition save :: "nat \<Rightarrow> 'c \<Rightarrow> ('c memory, unit) state" where
  "save a c = State (\<lambda>s. ((), s\<lparr>cells := (cells s)(a := c)\<rparr>))"

lemma wp_store [wp_simps]:
  "wp allocate Q s = Q (nextFree s) (s\<lparr>nextFree := Suc (nextFree s)\<rparr>)"
  "wp (load a) R s = R (cells s a) s"
  "wp (save a c) S s = S () (s\<lparr>cells := (cells s)(a := c)\<rparr>)"
  by (simp_all add: wp_def allocate_def load_def save_def)

definition same_on :: "nat set \<Rightarrow> 'c memory \<Rightarrow> 'c memory \<Rightarrow> bool" where
  "same_on N s u \<longleftrightarrow> (\<forall>a \<in> N. cells u a = cells s a)"

lemma same_on_mono: "same_on N s u \<Longrightarrow> M \<subseteq> N \<Longrightarrow> same_on M s u"
  by (auto simp: same_on_def)

lemma same_on_refl [simp]: "same_on N s s"
  by (simp add: same_on_def)

lemma same_on_sym: "same_on N s u \<Longrightarrow> same_on N u s"
  by (simp add: same_on_def)

lemma same_on_trans: "same_on N s t \<Longrightarrow> same_on N t u \<Longrightarrow> same_on N s u"
  by (simp add: same_on_def)


section \<open>What a value shows\<close>

record ('c, 'a, 'v) shape =
  foot :: "'c memory \<Rightarrow> 'a \<Rightarrow> nat set"
  view :: "'c memory \<Rightarrow> 'a \<Rightarrow> 'v"

definition flat :: "('c, 'a, 'a) shape" where
  "flat = \<lparr>foot = (\<lambda>s x. {}), view = (\<lambda>s x. x)\<rparr>"

definition both :: "('c, 'a, 'v) shape \<Rightarrow> ('c, 'b, 'w) shape \<Rightarrow> ('c, 'a \<times> 'b, 'v \<times> 'w) shape" where
  "both A B =
     \<lparr>foot = (\<lambda>s p. foot A s (fst p) \<union> foot B s (snd p)),
      view = (\<lambda>s p. (view A s (fst p), view B s (snd p)))\<rparr>"

definition elements :: "('c, 'a, 'v) shape \<Rightarrow> ('c, 'a list, 'v list) shape" where
  "elements A = \<lparr>foot = (\<lambda>s xs. \<Union>x \<in> set xs. foot A s x), view = (\<lambda>s xs. map (view A s) xs)\<rparr>"

definition pointer :: "('c \<Rightarrow> 'a) \<Rightarrow> ('c, 'a, 'v) shape \<Rightarrow> ('c, nat option, 'v option) shape" where
  "pointer un A =
     \<lparr>foot = (\<lambda>s p. case p of None \<Rightarrow> {} | Some a \<Rightarrow> insert a (foot A s (un (cells s a)))),
      view = (\<lambda>s p. map_option (\<lambda>a. view A s (un (cells s a))) p)\<rparr>"

text \<open>A struct shows its fields \<open>get r\<close>, and what is left of it when they are replaced.\<close>

definition struct ::
  "('r \<Rightarrow> 'f) \<Rightarrow> ('r \<Rightarrow> 'f \<Rightarrow> 'r) \<Rightarrow> ('c, 'f, 'v) shape \<Rightarrow> ('c, 'r, ('f \<Rightarrow> 'r) \<times> 'v) shape" where
  "struct get put A = \<lparr>foot = (\<lambda>s r. foot A s (get r)), view = (\<lambda>s r. (put r, view A s (get r)))\<rparr>"

lemmas shape_defs = flat_def both_def elements_def pointer_def struct_def


section \<open>Deep copies\<close>

definition owned :: "('c, 'a, 'v) shape \<Rightarrow> 'c memory \<Rightarrow> 'a \<Rightarrow> bool" where
  "owned A s x \<longleftrightarrow> foot A s x \<subseteq> {..< nextFree s}"

text \<open>What the copy \<open>y\<close> of \<open>x\<close> is afterwards: nothing that existed has changed, \<open>y\<close> shows the
  same and consists of new cells only.\<close>

definition is_copy :: "('c, 'a, 'v) shape \<Rightarrow> 'c memory \<Rightarrow> 'a \<Rightarrow> 'a \<Rightarrow> 'c memory \<Rightarrow> bool" where
  "is_copy A s x y t \<longleftrightarrow>
     nextFree s \<le> nextFree t \<and> same_on {..< nextFree s} s t \<and>
     foot A t y \<subseteq> {nextFree s ..< nextFree t} \<and> view A t y = view A s x"

text \<open>Whatever is written later to cells outside the copy is not seen through the copy, and
  whatever is written to cells of the copy is not seen through the original.\<close>

definition apart :: "('c, 'a, 'v) shape \<Rightarrow> 'c memory \<Rightarrow> 'a \<Rightarrow> 'a \<Rightarrow> 'c memory \<Rightarrow> bool" where
  "apart A s x y t \<longleftrightarrow>
     view A t y = view A s x \<and> foot A t x \<inter> foot A t y = {} \<and>
     (\<forall>u. same_on (foot A t y) t u \<longrightarrow> view A u y = view A s x) \<and>
     (\<forall>u. same_on (- foot A t y) t u \<longrightarrow> view A u x = view A s x)"

locale framed =
  fixes A :: "('c, 'a, 'v) shape"
  assumes frame: "same_on (foot A s x) s u \<Longrightarrow> foot A u x = foot A s x \<and> view A u x = view A s x"
begin

lemma frame_owned:
  assumes "owned A s x" and "same_on {..< nextFree s} s u" and "nextFree s \<le> nextFree u"
  shows "owned A u x" and "view A u x = view A s x" and "foot A u x = foot A s x"
proof -
  have "same_on (foot A s x) s u" using assms by (auto simp: owned_def intro: same_on_mono)
  from frame [OF this] assms(1,3) show "owned A u x" "view A u x = view A s x" "foot A u x = foot A s x"
    by (auto simp: owned_def)
qed

end

locale deep_copy = framed A for A :: "('c, 'a, 'v) shape" +
  fixes copy :: "'a \<Rightarrow> ('c memory, 'a) state"
  assumes copies: "owned A s x \<Longrightarrow> wp (copy x) (\<lambda>y t. is_copy A s x y t) s"
begin

lemma copy_apart:
  assumes x: "owned A s x" and run: "run_state (copy x) s = (y, t)"
  shows "apart A s x y t"
proof -
  from wp_run [OF copies [OF x] run]
  have y: "nextFree s \<le> nextFree t" "same_on {..< nextFree s} s t"
      "foot A t y \<subseteq> {nextFree s ..< nextFree t}" "view A t y = view A s x"
    by (simp_all add: is_copy_def)
  note x' = frame_owned [OF x y(2,1)]
  from x x'(3) y(3) have disjoint: "foot A t x \<inter> foot A t y = {}" by (fastforce simp: owned_def)
  have "view A u y = view A s x" if "same_on (foot A t y) t u" for u
    using frame [OF that] y(4) by simp
  moreover have "view A u x = view A s x" if "same_on (- foot A t y) t u" for u
    using frame [of t x u] that disjoint x'(2) by (auto intro: same_on_mono)
  ultimately show ?thesis using y(4) disjoint by (simp add: apart_def)
qed

end

lemma deep_copyI:
  assumes "\<And>s x u. same_on (foot A s x) s u \<Longrightarrow> foot A u x = foot A s x \<and> view A u x = view A s x"
    and "\<And>s x. owned A s x \<Longrightarrow> wp (copy x) (\<lambda>y t. is_copy A s x y t) s"
  shows "deep_copy A copy"
  using assms by (simp add: deep_copy_def deep_copy_axioms_def framed_def)

lemma deep_copyD:
  assumes "deep_copy A copy"
  shows "framed A" and "owned A s x \<Longrightarrow> wp (copy x) (\<lambda>y t. is_copy A s x y t) s"
  using assms by (simp_all add: deep_copy_def deep_copy_axioms_def)


section \<open>Copying by parts\<close>

definition copy_both ::
  "('a \<Rightarrow> ('c memory, 'a) state) \<Rightarrow> ('b \<Rightarrow> ('c memory, 'b) state) \<Rightarrow> 'a \<times> 'b \<Rightarrow> ('c memory, 'a \<times> 'b) state" where
  "copy_both c d p = do { a \<leftarrow> c (fst p); b \<leftarrow> d (snd p); ret (a, b) }"

text \<open>\<open>for i := range *in { (*in)[i].DeepCopyInto(&(*out)[i]) }\<close>, or \<open>copy(*out, *in)\<close> with
  \<open>ret\<close> as the copy of an element.\<close>

fun copy_elements :: "('a \<Rightarrow> ('c memory, 'a) state) \<Rightarrow> 'a list \<Rightarrow> ('c memory, 'a list) state" where
  "copy_elements c [] = ret []"
| "copy_elements c (x # xs) = do { y \<leftarrow> c x; ys \<leftarrow> copy_elements c xs; ret (y # ys) }"

text \<open>\<open>if in != nil { *out = new(T); (*in).DeepCopyInto(*out) }\<close>, and the same for
  \<open>make([]T, len(*in))\<close> and its elements: the new cell is taken before its content is copied.\<close>

definition copy_pointer ::
  "('a \<Rightarrow> 'c) \<Rightarrow> ('c \<Rightarrow> 'a) \<Rightarrow> ('a \<Rightarrow> ('c memory, 'a) state) \<Rightarrow> nat option \<Rightarrow> ('c memory, nat option) state" where
  "copy_pointer mk un c p =
     (case p of
        None \<Rightarrow> ret None
      | Some a \<Rightarrow>
          do { b \<leftarrow> allocate;
               x \<leftarrow> load a;
               y \<leftarrow> c (un x);
               save b (mk y);
               ret (Some b) })"

text \<open>\<open>*out = *in\<close>, then the fields that hold references.\<close>

definition copy_struct ::
  "('r \<Rightarrow> 'f) \<Rightarrow> ('r \<Rightarrow> 'f \<Rightarrow> 'r) \<Rightarrow> ('f \<Rightarrow> ('c memory, 'f) state) \<Rightarrow> 'r \<Rightarrow> ('c memory, 'r) state" where
  "copy_struct get put c r = do { f \<leftarrow> c (get r); ret (put r f) }"

lemma deep_copy_flat [copy_intros]: "deep_copy flat ret"
  by (rule deep_copyI) (auto simp: flat_def owned_def is_copy_def wp_simps)

lemma frame_both:
  assumes "framed A" and "framed B"
  shows "framed (both A B)"
proof
  fix s u and p
  assume "same_on (foot (both A B) s p) s u"
  then have "same_on (foot A s (fst p)) s u" "same_on (foot B s (snd p)) s u"
    by (auto simp: both_def intro: same_on_mono)
  with assms [THEN framed.frame]
  show "foot (both A B) u p = foot (both A B) s p \<and> view (both A B) u p = view (both A B) s p"
    by (simp add: both_def)
qed

lemma frame_elements:
  assumes "framed A"
  shows "framed (elements A)"
proof
  fix s u and xs
  assume same: "same_on (foot (elements A) s xs) s u"
  have "foot A u x = foot A s x \<and> view A u x = view A s x" if "x \<in> set xs" for x
    using same that by (intro framed.frame [OF assms]) (auto simp: elements_def intro: same_on_mono)
  then show "foot (elements A) u xs = foot (elements A) s xs \<and>
      view (elements A) u xs = view (elements A) s xs"
    by (simp add: elements_def)
qed

text \<open>Two copies after one another.\<close>

lemma copies_in_turn:
  fixes s :: "'c memory" and A :: "('c, 'a, 'v) shape" and B :: "('c, 'b, 'w) shape"
  assumes fA: "framed A" and fB: "framed B"
    and c: "owned A s x \<Longrightarrow> wp (c x) (\<lambda>x' t. is_copy A s x x' t) s"
    and d: "\<And>t. owned B t y \<Longrightarrow> wp (d y) (\<lambda>y' v. is_copy B t y y' v) t"
    and xy: "owned (both A B) s (x, y)"
    and Q: "\<And>x' y' v. is_copy (both A B) s (x, y) (x', y') v \<Longrightarrow> Q (h x' y') v"
  shows "wp (do { a \<leftarrow> c x; b \<leftarrow> d y; ret (h a b) }) Q s"
proof -
  from xy have x: "owned A s x" and y: "owned B s y" by (auto simp: owned_def both_def)
  show ?thesis
  proof (rule wp_bindI [OF c [OF x]])
    fix x' t assume x': "is_copy A s x x' t"
    then have t: "nextFree s \<le> nextFree t" "same_on {..< nextFree s} s t" by (simp_all add: is_copy_def)
    note y' = framed.frame_owned [OF fB y t(2,1)]
    show "wp (do { b \<leftarrow> d y; ret (h x' b) }) Q t"
    proof (rule wp_bindI [OF d [OF y'(1)]])
      fix b v assume b: "is_copy B t y b v"
      have "owned A t x'" using x' by (auto simp: is_copy_def owned_def)
      from framed.frame_owned [OF fA this, of v] b have "foot A v x' = foot A t x'" "view A v x' = view A t x'"
        by (simp_all add: is_copy_def)
      moreover have "foot A t x' \<subseteq> {nextFree s ..< nextFree v}" "foot B v b \<subseteq> {nextFree s ..< nextFree v}"
        using x' b by (fastforce simp: is_copy_def)+
      moreover have "same_on {..< nextFree s} s v"
        using b t by (auto simp: is_copy_def intro: same_on_trans same_on_mono)
      moreover have "view A t x' = view A s x" "view B v b = view B s y" "nextFree t \<le> nextFree v"
        using x' b y'(2) by (simp_all add: is_copy_def)
      ultimately have "is_copy (both A B) s (x, y) (x', b) v"
        using t(1) by (simp add: is_copy_def both_def)
      then show "wp (ret (h x' b)) Q v" by (simp add: wp_simps Q)
    qed
  qed
qed

lemma deep_copy_both [copy_intros]:
  assumes "deep_copy A c" and "deep_copy B d"
  shows "deep_copy (both A B) (copy_both c d)"
proof (rule deep_copyI)
  note AB = deep_copyD(1) [OF assms(1)] deep_copyD(1) [OF assms(2)]
  show "foot (both A B) u p = foot (both A B) s p \<and> view (both A B) u p = view (both A B) s p"
    if "same_on (foot (both A B) s p) s u" for s p u
    by (rule framed.frame [OF frame_both [OF AB] that])
  show "wp (copy_both c d p) (\<lambda>q t. is_copy (both A B) s p q t) s" if "owned (both A B) s p" for s p
    unfolding copy_both_def
  proof (rule copies_in_turn [OF AB])
    show "owned (both A B) s (fst p, snd p)" using that by simp
    show "wp (c (fst p)) (\<lambda>y t. is_copy A s (fst p) y t) s" if "owned A s (fst p)"
      by (rule deep_copyD(2) [OF assms(1) that])
    show "wp (d (snd p)) (\<lambda>y v. is_copy B t (snd p) y v) t" if "owned B t (snd p)" for t
      by (rule deep_copyD(2) [OF assms(2) that])
  qed simp
qed

lemma deep_copy_elements [copy_intros]:
  assumes c: "deep_copy A c"
  shows "deep_copy (elements A) (copy_elements c)"
proof (rule deep_copyI)
  note A = deep_copyD(1) [OF c]
  show "foot (elements A) u xs = foot (elements A) s xs \<and> view (elements A) u xs = view (elements A) s xs"
    if "same_on (foot (elements A) s xs) s u" for s xs u
    by (rule framed.frame [OF frame_elements [OF A] that])
  show "wp (copy_elements c xs) (\<lambda>ys t. is_copy (elements A) s xs ys t) s" if "owned (elements A) s xs" for s xs
    using that
  proof (induction xs arbitrary: s)
    case Nil
    show ?case by (simp add: wp_simps is_copy_def elements_def)
  next
    case (Cons x xs)
    from Cons.prems have xs: "owned (both A (elements A)) s (x, xs)"
      by (auto simp: owned_def elements_def both_def)
    show ?case
      unfolding copy_elements.simps
    proof (rule copies_in_turn [OF A frame_elements [OF A] _ _ xs])
      show "wp (c x) (\<lambda>y t. is_copy A s x y t) s" if "owned A s x"
        by (rule deep_copyD(2) [OF c that])
      show "wp (copy_elements c xs) (\<lambda>ys t. is_copy (elements A) u xs ys t) u" if "owned (elements A) u xs" for u
        by (rule Cons.IH [OF that])
      show "is_copy (elements A) s (x # xs) (y # ys) v"
        if "is_copy (both A (elements A)) s (x, xs) (y, ys) v" for y ys v
        using that by (simp add: is_copy_def both_def elements_def)
    qed
  qed
qed

lemma deep_copy_struct:
  assumes c: "deep_copy A c" and get: "\<And>r f. get (put r f) = f" and put: "\<And>r f g. put (put r f) g = put r g"
  shows "deep_copy (struct get put A) (copy_struct get put c)"
proof (rule deep_copyI)
  show "foot (struct get put A) u r = foot (struct get put A) s r \<and>
      view (struct get put A) u r = view (struct get put A) s r"
    if "same_on (foot (struct get put A) s r) s u" for s r u
    using framed.frame [OF deep_copyD(1) [OF c]] that by (simp add: struct_def)
  show "wp (copy_struct get put c r) (\<lambda>q t. is_copy (struct get put A) s r q t) s"
    if "owned (struct get put A) s r" for s r
  proof -
    from that have "owned A s (get r)" by (simp add: owned_def struct_def)
    then show ?thesis
      unfolding copy_struct_def
      by (rule wp_bindI [OF deep_copyD(2) [OF c]]) (simp add: wp_simps is_copy_def struct_def get put fun_eq_iff)
  qed
qed

lemma deep_copy_structI:
  assumes "deep_copy A f" and "\<And>r. copy r = do { v \<leftarrow> f (get r); ret (put r v) }"
    and "\<And>r v. get (put r v) = v" and "\<And>r v w. put (put r v) w = put r w"
  shows "deep_copy (struct get put A) copy"
proof -
  have "copy = copy_struct get put f" by (rule ext) (simp add: assms(2) copy_struct_def)
  with deep_copy_struct [OF assms(1,3,4)] show ?thesis by simp
qed

lemma deep_copy_pointer [copy_intros]:
  fixes A :: "('c, 'a, 'v) shape"
  assumes c: "deep_copy A c" and un: "\<And>x. un (mk x) = x"
  shows "deep_copy (pointer un A) (copy_pointer mk un c)"
proof (rule deep_copyI)
  note A = deep_copyD(1) [OF c]
  show "foot (pointer un A) u p = foot (pointer un A) s p \<and> view (pointer un A) u p = view (pointer un A) s p"
    if "same_on (foot (pointer un A) s p) s u" for s p u
  proof (cases p)
    case (Some a)
    with that have "cells u a = cells s a" "same_on (foot A s (un (cells s a))) s u"
      by (auto simp: pointer_def same_on_def)
    with Some framed.frame [OF A] show ?thesis by (simp add: pointer_def)
  qed (simp add: pointer_def)
  show "wp (copy_pointer mk un c p) (\<lambda>q t. is_copy (pointer un A) s p q t) s"
    if p: "owned (pointer un A) s p" for s p
  proof (cases p)
    case None
    then show ?thesis by (simp add: copy_pointer_def wp_simps is_copy_def pointer_def)
  next
    case (Some a)
    let ?x = "un (cells s a)" and ?s = "s\<lparr>nextFree := Suc (nextFree s)\<rparr>"
    from p Some have "a < nextFree s" and x: "owned A s ?x" by (auto simp: owned_def pointer_def)
    from framed.frame_owned [OF A x, of ?s]
    have x': "owned A ?s ?x" "view A ?s ?x = view A s ?x" by (simp_all add: same_on_def)
    have "wp (do { y \<leftarrow> c ?x; save (nextFree s) (mk y); ret (Some (nextFree s)) })
        (\<lambda>q t. is_copy (pointer un A) s p q t) ?s"
    proof (rule wp_bindI [OF deep_copyD(2) [OF c x'(1)]])
      fix y t assume y: "is_copy A ?s ?x y t"
      let ?t = "t\<lparr>cells := (cells t)(nextFree s := mk y)\<rparr>"
      from y have "foot A t y \<subseteq> {Suc (nextFree s) ..< nextFree t}" by (simp add: is_copy_def)
      then have "same_on (foot A t y) t ?t" by (auto simp: same_on_def)
      from framed.frame [OF A this] y x'(2) Some
      show "wp (do { save (nextFree s) (mk y); ret (Some (nextFree s)) }) (\<lambda>q t. is_copy (pointer un A) s p q t) t"
        by (auto simp: wp_simps is_copy_def pointer_def un same_on_def)
    qed
    then show ?thesis using Some by (simp add: copy_pointer_def wp_simps)
  qed
qed

end
