(* ===== verification/DeepCopy.thy ===== *)
theory DeepCopy
  imports Memory Types
begin

text \<open>
  The deep copies of the API types (\<open>api/v1alpha1/zz_generated.deepcopy.go\<close>), over a store of
  cells. Everywhere else in the development an API object is a value. In the program it is a
  struct with pointers, slices and maps; the client hands out a \<open>DeepCopyObject\<close> of what its
  cache holds, and the reconcilers change it in place. The theorem at the end says that this is as
  good as a value: a copy shows what the original shows and neither sees what is written to the
  other.

  The structs of other packages (object metadata, label selectors, times, conditions, quantities)
  are values of a type \<open>'x\<close>, and their copies a parameter, the record \<open>external\<close>, which is
  assumed to keep the same contract (\<open>external_ok\<close>).
\<close>

section \<open>The types in memory\<close>

text \<open>A pointer or a slice is the number of a cell, \<open>None\<close> is nil.\<close>

record type_meta =
  TypeMeta_Kind :: string
  TypeMeta_APIVersion :: string

record local_object_reference =
  LocalObjectReference_Name :: string

record byot_cluster_spec_m =
  ControlPlaneEndpoint_Host :: string
  ControlPlaneEndpoint_Port :: int

record 'x host_disk_m =
  HostDisk_Name :: string
  HostDisk_Size :: 'x
  HostDisk_Type :: string
  HostDisk_Model :: string
  HostDisk_SystemDisk :: bool
  HostDisk_BusPath :: string

record 'x host_gpu_m =
  HostGPU_Vendor :: string
  HostGPU_Model :: string
  HostGPU_DeviceID :: string
  HostGPU_MemoryPerGPU :: 'x
  HostGPU_Count :: int
  HostGPU_TotalMemory :: 'x
  HostGPU_Mixed :: bool

record 'x host_hardware_m =
  HostHardware_CPU :: host_cpu
  HostHardware_Memory :: 'x
  HostHardware_Disks :: "nat option"
  HostHardware_NetworkInterfaces :: "nat option"
  HostHardware_ExternalIP :: string
  HostHardware_InternalIP :: string
  HostHardware_GPUs :: "nat option"

record byot_host_spec_m =
  HostSpec_PublicIP :: string
  HostSpec_FailureDomain :: "nat option"

record byot_host_status_m =
  HostStatus_Phase :: host_phase
  HostStatus_TalosVersion :: string
  HostStatus_Arch :: string
  HostStatus_Platform :: string
  HostStatus_Hardware :: "nat option"
  HostStatus_Identity :: "nat option"
  HostStatus_MaintenanceMode :: bool
  HostStatus_ClaimRef :: "nat option"
  HostStatus_ProbeFailureCount :: int
  HostStatus_LastProbedAt :: "nat option"
  HostStatus_Conditions :: "nat option"

record 'x byot_host_m =
  Host_TypeMeta :: type_meta
  Host_ObjectMeta :: 'x
  Host_Spec :: byot_host_spec_m
  Host_Status :: byot_host_status_m

record 'x byot_host_list_m =
  HostList_TypeMeta :: type_meta
  HostList_ListMeta :: 'x
  HostList_Items :: "nat option"

record byot_machine_spec_m =
  MachineSpec_HostRef :: "nat option"
  MachineSpec_HostSelector :: "nat option"
  MachineSpec_TalosConfigSecretRef :: "nat option"
  MachineSpec_ProviderID :: "nat option"
  MachineSpec_FailureDomain :: "nat option"
  MachineSpec_DesiredTalosVersion :: "nat option"
  MachineSpec_InstallDisk :: "nat option"

record byot_machine_status_m =
  MachineStatus_Ready :: bool
  MachineStatus_ResolvedHost :: string
  MachineStatus_ResolvedPublicIP :: string
  MachineStatus_ResolvedInternalIP :: string
  MachineStatus_LastAppliedConfigSHA :: string
  MachineStatus_LastResetAt :: "nat option"
  MachineStatus_NodeUpdated :: bool
  MachineStatus_Addresses :: "nat option"
  MachineStatus_Conditions :: "nat option"
  MachineStatus_CurrentTalosVersion :: string
  MachineStatus_UpgradeState :: upgrade_state
  MachineStatus_UpgradeProbeFailures :: int
  MachineStatus_UpgradeAttemptGeneration :: int
  MachineStatus_UpgradeAppliedImageRef :: string
  MachineStatus_UpgradePreRebootBootID :: string

record 'x byot_machine_m =
  Machine_TypeMeta :: type_meta
  Machine_ObjectMeta :: 'x
  Machine_Spec :: byot_machine_spec_m
  Machine_Status :: byot_machine_status_m

record 'x byot_machine_list_m =
  MachineList_TypeMeta :: type_meta
  MachineList_ListMeta :: 'x
  MachineList_Items :: "nat option"

record 'x byot_machine_template_resource_m =
  TemplateResource_ObjectMeta :: 'x
  TemplateResource_Spec :: byot_machine_spec_m

record 'x byot_machine_template_spec_m =
  TemplateSpec_Template :: "'x byot_machine_template_resource_m"

record 'x byot_machine_template_m =
  Template_TypeMeta :: type_meta
  Template_ObjectMeta :: 'x
  Template_Spec :: "'x byot_machine_template_spec_m"

record 'x byot_machine_template_list_m =
  TemplateList_TypeMeta :: type_meta
  TemplateList_ListMeta :: 'x
  TemplateList_Items :: "nat option"

record byot_cluster_status_m =
  ClusterStatus_Ready :: bool
  ClusterStatus_Conditions :: "nat option"

record 'x byot_cluster_m =
  Cluster_TypeMeta :: type_meta
  Cluster_ObjectMeta :: 'x
  Cluster_Spec :: byot_cluster_spec_m
  Cluster_Status :: byot_cluster_status_m

record 'x byot_cluster_list_m =
  ClusterList_TypeMeta :: type_meta
  ClusterList_ListMeta :: 'x
  ClusterList_Items :: "nat option"

text \<open>The allocated values.\<close>

datatype 'x cell =
    StringCell (un_string: string)
  | StringsCell (un_strings: "string list")
  | RefCell (un_ref: local_object_reference)
  | SelectorCell (un_selector: "'x")
  | TimeCell (un_time: "'x")
  | ConditionsCell (un_conditions: "'x list")
  | ForeignCell (un_foreign: "'x")
  | AddressesCell (un_addresses: "(machine_address_type \<times> string) list")
  | CPUCell (un_CPU: host_cpu)
  | ClaimRefCell (un_ClaimRef: host_claim_ref)
  | IdentityCell (un_Identity: host_identity)
  | ClusterSpecCell (un_clusterSpec: byot_cluster_spec_m)
  | DisksCell (un_disks: "'x host_disk_m list")
  | HostsCell (un_hosts: "'x byot_host_m list")
  | MachinesCell (un_machines: "'x byot_machine_m list")
  | TemplatesCell (un_templates: "'x byot_machine_template_m list")
  | ClustersCell (un_clusters: "'x byot_cluster_m list")
  | DiskCell (un_Disk: "'x host_disk_m")
  | GPUCell (un_GPU: "'x host_gpu_m")
  | HardwareCell (un_Hardware: "'x host_hardware_m")
  | HostSpecCell (un_HostSpec: byot_host_spec_m)
  | HostStatusCell (un_HostStatus: byot_host_status_m)
  | HostCell (un_Host: "'x byot_host_m")
  | HostListCell (un_HostList: "'x byot_host_list_m")
  | MachineSpecCell (un_MachineSpec: byot_machine_spec_m)
  | MachineStatusCell (un_MachineStatus: byot_machine_status_m)
  | MachineCell (un_Machine: "'x byot_machine_m")
  | MachineListCell (un_MachineList: "'x byot_machine_list_m")
  | TemplateResourceCell (un_TemplateResource: "'x byot_machine_template_resource_m")
  | TemplateSpecCell (un_TemplateSpec: "'x byot_machine_template_spec_m")
  | TemplateCell (un_Template: "'x byot_machine_template_m")
  | TemplateListCell (un_TemplateList: "'x byot_machine_template_list_m")
  | ClusterStatusCell (un_ClusterStatus: byot_cluster_status_m)
  | ClusterCell (un_Cluster: "'x byot_cluster_m")
  | ClusterListCell (un_ClusterList: "'x byot_cluster_list_m")

text \<open>The copies of other packages; \<open>ForeignCell\<close> is what their structs point to.\<close>

record 'x external =
  eObjectMeta :: "'x \<Rightarrow> ('x cell memory, 'x) state"
  eListMeta :: "'x \<Rightarrow> ('x cell memory, 'x) state"
  eTemplateMeta :: "'x \<Rightarrow> ('x cell memory, 'x) state"
  eLabelSelector :: "'x \<Rightarrow> ('x cell memory, 'x) state"
  eTime :: "'x \<Rightarrow> ('x cell memory, 'x) state"
  eCondition :: "'x \<Rightarrow> ('x cell memory, 'x) state"
  eQuantity :: "'x \<Rightarrow> ('x cell memory, 'x) state"

type_synonym ('x, 'a) copier = "'a \<Rightarrow> ('x cell memory, 'a) state"


section \<open>DeepCopyInto\<close>

text \<open>Structs without references: \<open>*out = *in\<close>.\<close>

definition LocalObjectReference_DeepCopyInto :: "('x, local_object_reference) copier" where
  "LocalObjectReference_DeepCopyInto r = ret r"

definition HostCPU_DeepCopyInto :: "('x, host_cpu) copier" where
  "HostCPU_DeepCopyInto r = ret r"

definition HostClaimRef_DeepCopyInto :: "('x, host_claim_ref) copier" where
  "HostClaimRef_DeepCopyInto r = ret r"

definition HostIdentity_DeepCopyInto :: "('x, host_identity) copier" where
  "HostIdentity_DeepCopyInto r = ret r"

definition ByotClusterSpec_DeepCopyInto :: "('x, byot_cluster_spec_m) copier" where
  "ByotClusterSpec_DeepCopyInto r = ret r"

text \<open>The others: \<open>*out = *in\<close>, then the fields that hold references.\<close>

definition HostDisk_DeepCopyInto :: "'x external \<Rightarrow> ('x, 'x host_disk_m) copier" where
  "HostDisk_DeepCopyInto E r =
     do { size \<leftarrow> eQuantity E (HostDisk_Size r);
          ret (r\<lparr>HostDisk_Size := size\<rparr>) }"

definition HostGPU_DeepCopyInto :: "'x external \<Rightarrow> ('x, 'x host_gpu_m) copier" where
  "HostGPU_DeepCopyInto E r =
     do { memoryPerGPU \<leftarrow> eQuantity E (HostGPU_MemoryPerGPU r);
          totalMemory \<leftarrow> eQuantity E (HostGPU_TotalMemory r);
          ret (r\<lparr>HostGPU_MemoryPerGPU := memoryPerGPU, HostGPU_TotalMemory := totalMemory\<rparr>) }"

definition HostHardware_DeepCopyInto :: "'x external \<Rightarrow> ('x, 'x host_hardware_m) copier" where
  "HostHardware_DeepCopyInto E r =
     do { memory \<leftarrow> eQuantity E (HostHardware_Memory r);
          disks \<leftarrow> copy_pointer DisksCell un_disks (copy_elements (HostDisk_DeepCopyInto E))
              (HostHardware_Disks r);
          networkInterfaces \<leftarrow> copy_pointer StringsCell un_strings (copy_elements ret)
              (HostHardware_NetworkInterfaces r);
          gpus \<leftarrow> copy_pointer GPUCell un_GPU (HostGPU_DeepCopyInto E) (HostHardware_GPUs r);
          ret (r\<lparr>HostHardware_Memory := memory, HostHardware_Disks := disks,
              HostHardware_NetworkInterfaces := networkInterfaces, HostHardware_GPUs := gpus\<rparr>) }"

definition ByotHostSpec_DeepCopyInto :: "('x, byot_host_spec_m) copier" where
  "ByotHostSpec_DeepCopyInto r =
     do { failureDomain \<leftarrow> copy_pointer StringCell un_string ret (HostSpec_FailureDomain r);
          ret (r\<lparr>HostSpec_FailureDomain := failureDomain\<rparr>) }"

definition ByotHostStatus_DeepCopyInto :: "'x external \<Rightarrow> ('x, byot_host_status_m) copier" where
  "ByotHostStatus_DeepCopyInto E r =
     do { hardware \<leftarrow> copy_pointer HardwareCell un_Hardware (HostHardware_DeepCopyInto E)
         (HostStatus_Hardware r);
          identity \<leftarrow> copy_pointer IdentityCell un_Identity HostIdentity_DeepCopyInto
              (HostStatus_Identity r);
          claimRef \<leftarrow> copy_pointer ClaimRefCell un_ClaimRef HostClaimRef_DeepCopyInto
              (HostStatus_ClaimRef r);
          lastProbedAt \<leftarrow> copy_pointer TimeCell un_time (eTime E) (HostStatus_LastProbedAt r);
          conditions \<leftarrow> copy_pointer ConditionsCell un_conditions (copy_elements (eCondition
              E)) (HostStatus_Conditions r);
          ret (r\<lparr>HostStatus_Hardware := hardware, HostStatus_Identity := identity,
              HostStatus_ClaimRef := claimRef, HostStatus_LastProbedAt := lastProbedAt,
              HostStatus_Conditions := conditions\<rparr>) }"

definition ByotHost_DeepCopyInto :: "'x external \<Rightarrow> ('x, 'x byot_host_m) copier" where
  "ByotHost_DeepCopyInto E r =
     do { objectMeta \<leftarrow> eObjectMeta E (Host_ObjectMeta r);
          spec \<leftarrow> ByotHostSpec_DeepCopyInto (Host_Spec r);
          status \<leftarrow> ByotHostStatus_DeepCopyInto E (Host_Status r);
          ret (r\<lparr>Host_ObjectMeta := objectMeta, Host_Spec := spec, Host_Status := status\<rparr>) }"

definition ByotHostList_DeepCopyInto :: "'x external \<Rightarrow> ('x, 'x byot_host_list_m) copier" where
  "ByotHostList_DeepCopyInto E r =
     do { listMeta \<leftarrow> eListMeta E (HostList_ListMeta r);
          items \<leftarrow> copy_pointer HostsCell un_hosts (copy_elements (ByotHost_DeepCopyInto E))
              (HostList_Items r);
          ret (r\<lparr>HostList_ListMeta := listMeta, HostList_Items := items\<rparr>) }"

definition ByotMachineSpec_DeepCopyInto :: "'x external \<Rightarrow> ('x, byot_machine_spec_m) copier" where
  "ByotMachineSpec_DeepCopyInto E r =
     do { hostRef \<leftarrow> copy_pointer RefCell un_ref LocalObjectReference_DeepCopyInto
         (MachineSpec_HostRef r);
          hostSelector \<leftarrow> copy_pointer SelectorCell un_selector (eLabelSelector E)
              (MachineSpec_HostSelector r);
          talosConfigSecretRef \<leftarrow> copy_pointer RefCell un_ref
              LocalObjectReference_DeepCopyInto (MachineSpec_TalosConfigSecretRef r);
          providerID \<leftarrow> copy_pointer StringCell un_string ret (MachineSpec_ProviderID r);
          failureDomain \<leftarrow> copy_pointer StringCell un_string ret (MachineSpec_FailureDomain r);
          desiredTalosVersion \<leftarrow> copy_pointer StringCell un_string ret
              (MachineSpec_DesiredTalosVersion r);
          installDisk \<leftarrow> copy_pointer StringCell un_string ret (MachineSpec_InstallDisk r);
          ret (r\<lparr>MachineSpec_HostRef := hostRef, MachineSpec_HostSelector := hostSelector,
              MachineSpec_TalosConfigSecretRef := talosConfigSecretRef,
              MachineSpec_ProviderID := providerID, MachineSpec_FailureDomain := failureDomain,
              MachineSpec_DesiredTalosVersion := desiredTalosVersion,
              MachineSpec_InstallDisk := installDisk\<rparr>) }"

definition ByotMachineStatus_DeepCopyInto :: "'x external \<Rightarrow> ('x,
    byot_machine_status_m) copier" where
  "ByotMachineStatus_DeepCopyInto E r =
     do { lastResetAt \<leftarrow> copy_pointer TimeCell un_time (eTime E) (MachineStatus_LastResetAt r);
          addresses \<leftarrow> copy_pointer AddressesCell un_addresses (copy_elements ret)
              (MachineStatus_Addresses r);
          conditions \<leftarrow> copy_pointer ConditionsCell un_conditions (copy_elements (eCondition
              E)) (MachineStatus_Conditions r);
          ret (r\<lparr>MachineStatus_LastResetAt := lastResetAt, MachineStatus_Addresses := addresses,
              MachineStatus_Conditions := conditions\<rparr>) }"

definition ByotMachine_DeepCopyInto :: "'x external \<Rightarrow> ('x, 'x byot_machine_m) copier" where
  "ByotMachine_DeepCopyInto E r =
     do { objectMeta \<leftarrow> eObjectMeta E (Machine_ObjectMeta r);
          spec \<leftarrow> ByotMachineSpec_DeepCopyInto E (Machine_Spec r);
          status \<leftarrow> ByotMachineStatus_DeepCopyInto E (Machine_Status r);
          ret (r\<lparr>Machine_ObjectMeta := objectMeta, Machine_Spec := spec,
              Machine_Status := status\<rparr>) }"

definition ByotMachineList_DeepCopyInto :: "'x external \<Rightarrow> ('x,
    'x byot_machine_list_m) copier" where
  "ByotMachineList_DeepCopyInto E r =
     do { listMeta \<leftarrow> eListMeta E (MachineList_ListMeta r);
          items \<leftarrow> copy_pointer MachinesCell un_machines (copy_elements
              (ByotMachine_DeepCopyInto E)) (MachineList_Items r);
          ret (r\<lparr>MachineList_ListMeta := listMeta, MachineList_Items := items\<rparr>) }"

definition ByotMachineTemplateResource_DeepCopyInto :: "'x external \<Rightarrow> ('x,
    'x byot_machine_template_resource_m) copier" where
  "ByotMachineTemplateResource_DeepCopyInto E r =
     do { objectMeta \<leftarrow> eTemplateMeta E (TemplateResource_ObjectMeta r);
          spec \<leftarrow> ByotMachineSpec_DeepCopyInto E (TemplateResource_Spec r);
          ret (r\<lparr>TemplateResource_ObjectMeta := objectMeta, TemplateResource_Spec := spec\<rparr>) }"

definition ByotMachineTemplateSpec_DeepCopyInto :: "'x external \<Rightarrow> ('x,
    'x byot_machine_template_spec_m) copier" where
  "ByotMachineTemplateSpec_DeepCopyInto E r =
     do { template \<leftarrow> ByotMachineTemplateResource_DeepCopyInto E (TemplateSpec_Template r);
          ret (r\<lparr>TemplateSpec_Template := template\<rparr>) }"

definition ByotMachineTemplate_DeepCopyInto :: "'x external \<Rightarrow> ('x,
    'x byot_machine_template_m) copier" where
  "ByotMachineTemplate_DeepCopyInto E r =
     do { objectMeta \<leftarrow> eObjectMeta E (Template_ObjectMeta r);
          spec \<leftarrow> ByotMachineTemplateSpec_DeepCopyInto E (Template_Spec r);
          ret (r\<lparr>Template_ObjectMeta := objectMeta, Template_Spec := spec\<rparr>) }"

definition ByotMachineTemplateList_DeepCopyInto :: "'x external \<Rightarrow> ('x,
    'x byot_machine_template_list_m) copier" where
  "ByotMachineTemplateList_DeepCopyInto E r =
     do { listMeta \<leftarrow> eListMeta E (TemplateList_ListMeta r);
          items \<leftarrow> copy_pointer TemplatesCell un_templates (copy_elements
              (ByotMachineTemplate_DeepCopyInto E)) (TemplateList_Items r);
          ret (r\<lparr>TemplateList_ListMeta := listMeta, TemplateList_Items := items\<rparr>) }"

definition ByotClusterStatus_DeepCopyInto :: "'x external \<Rightarrow> ('x,
    byot_cluster_status_m) copier" where
  "ByotClusterStatus_DeepCopyInto E r =
     do { conditions \<leftarrow> copy_pointer ConditionsCell un_conditions (copy_elements (eCondition
         E)) (ClusterStatus_Conditions r);
          ret (r\<lparr>ClusterStatus_Conditions := conditions\<rparr>) }"

definition ByotCluster_DeepCopyInto :: "'x external \<Rightarrow> ('x, 'x byot_cluster_m) copier" where
  "ByotCluster_DeepCopyInto E r =
     do { objectMeta \<leftarrow> eObjectMeta E (Cluster_ObjectMeta r);
          status \<leftarrow> ByotClusterStatus_DeepCopyInto E (Cluster_Status r);
          ret (r\<lparr>Cluster_ObjectMeta := objectMeta, Cluster_Status := status\<rparr>) }"

definition ByotClusterList_DeepCopyInto :: "'x external \<Rightarrow> ('x,
    'x byot_cluster_list_m) copier" where
  "ByotClusterList_DeepCopyInto E r =
     do { listMeta \<leftarrow> eListMeta E (ClusterList_ListMeta r);
          items \<leftarrow> copy_pointer ClustersCell un_clusters (copy_elements
              (ByotCluster_DeepCopyInto E)) (ClusterList_Items r);
          ret (r\<lparr>ClusterList_ListMeta := listMeta, ClusterList_Items := items\<rparr>) }"


section \<open>DeepCopy and DeepCopyObject\<close>

text \<open>\<open>if in == nil { return nil }; out := new(T); in.DeepCopyInto(out); return out\<close>.\<close>

definition LocalObjectReference_DeepCopy :: "('x, nat option) copier" where
  "LocalObjectReference_DeepCopy p = copy_pointer RefCell un_ref LocalObjectReference_DeepCopyInto p"

definition HostCPU_DeepCopy :: "('x, nat option) copier" where
  "HostCPU_DeepCopy p = copy_pointer CPUCell un_CPU HostCPU_DeepCopyInto p"

definition HostClaimRef_DeepCopy :: "('x, nat option) copier" where
  "HostClaimRef_DeepCopy p = copy_pointer ClaimRefCell un_ClaimRef HostClaimRef_DeepCopyInto p"

definition HostIdentity_DeepCopy :: "('x, nat option) copier" where
  "HostIdentity_DeepCopy p = copy_pointer IdentityCell un_Identity HostIdentity_DeepCopyInto p"

definition ByotClusterSpec_DeepCopy :: "('x, nat option) copier" where
  "ByotClusterSpec_DeepCopy p = copy_pointer ClusterSpecCell un_clusterSpec ByotClusterSpec_DeepCopyInto p"

definition HostDisk_DeepCopy :: "'x external \<Rightarrow> ('x, nat option) copier" where
  "HostDisk_DeepCopy E p = copy_pointer DiskCell un_Disk (HostDisk_DeepCopyInto E) p"

definition HostGPU_DeepCopy :: "'x external \<Rightarrow> ('x, nat option) copier" where
  "HostGPU_DeepCopy E p = copy_pointer GPUCell un_GPU (HostGPU_DeepCopyInto E) p"

definition HostHardware_DeepCopy :: "'x external \<Rightarrow> ('x, nat option) copier" where
  "HostHardware_DeepCopy E p = copy_pointer HardwareCell un_Hardware (HostHardware_DeepCopyInto E) p"

definition ByotHostSpec_DeepCopy :: "('x, nat option) copier" where
  "ByotHostSpec_DeepCopy p = copy_pointer HostSpecCell un_HostSpec ByotHostSpec_DeepCopyInto p"

definition ByotHostStatus_DeepCopy :: "'x external \<Rightarrow> ('x, nat option) copier" where
  "ByotHostStatus_DeepCopy E p = copy_pointer HostStatusCell un_HostStatus (ByotHostStatus_DeepCopyInto E) p"

definition ByotHost_DeepCopy :: "'x external \<Rightarrow> ('x, nat option) copier" where
  "ByotHost_DeepCopy E p = copy_pointer HostCell un_Host (ByotHost_DeepCopyInto E) p"

definition ByotHostList_DeepCopy :: "'x external \<Rightarrow> ('x, nat option) copier" where
  "ByotHostList_DeepCopy E p = copy_pointer HostListCell un_HostList (ByotHostList_DeepCopyInto E) p"

definition ByotMachineSpec_DeepCopy :: "'x external \<Rightarrow> ('x, nat option) copier" where
  "ByotMachineSpec_DeepCopy E p = copy_pointer MachineSpecCell un_MachineSpec
      (ByotMachineSpec_DeepCopyInto E) p"

definition ByotMachineStatus_DeepCopy :: "'x external \<Rightarrow> ('x, nat option) copier" where
  "ByotMachineStatus_DeepCopy E p = copy_pointer MachineStatusCell un_MachineStatus
      (ByotMachineStatus_DeepCopyInto E) p"

definition ByotMachine_DeepCopy :: "'x external \<Rightarrow> ('x, nat option) copier" where
  "ByotMachine_DeepCopy E p = copy_pointer MachineCell un_Machine (ByotMachine_DeepCopyInto E) p"

definition ByotMachineList_DeepCopy :: "'x external \<Rightarrow> ('x, nat option) copier" where
  "ByotMachineList_DeepCopy E p = copy_pointer MachineListCell un_MachineList
      (ByotMachineList_DeepCopyInto E) p"

definition ByotMachineTemplateResource_DeepCopy :: "'x external \<Rightarrow> ('x, nat option) copier" where
  "ByotMachineTemplateResource_DeepCopy E p = copy_pointer TemplateResourceCell un_TemplateResource
      (ByotMachineTemplateResource_DeepCopyInto E) p"

definition ByotMachineTemplateSpec_DeepCopy :: "'x external \<Rightarrow> ('x, nat option) copier" where
  "ByotMachineTemplateSpec_DeepCopy E p = copy_pointer TemplateSpecCell un_TemplateSpec
      (ByotMachineTemplateSpec_DeepCopyInto E) p"

definition ByotMachineTemplate_DeepCopy :: "'x external \<Rightarrow> ('x, nat option) copier" where
  "ByotMachineTemplate_DeepCopy E p = copy_pointer TemplateCell un_Template
      (ByotMachineTemplate_DeepCopyInto E) p"

definition ByotMachineTemplateList_DeepCopy :: "'x external \<Rightarrow> ('x, nat option) copier" where
  "ByotMachineTemplateList_DeepCopy E p = copy_pointer TemplateListCell un_TemplateList
      (ByotMachineTemplateList_DeepCopyInto E) p"

definition ByotClusterStatus_DeepCopy :: "'x external \<Rightarrow> ('x, nat option) copier" where
  "ByotClusterStatus_DeepCopy E p = copy_pointer ClusterStatusCell un_ClusterStatus
      (ByotClusterStatus_DeepCopyInto E) p"

definition ByotCluster_DeepCopy :: "'x external \<Rightarrow> ('x, nat option) copier" where
  "ByotCluster_DeepCopy E p = copy_pointer ClusterCell un_Cluster (ByotCluster_DeepCopyInto E) p"

definition ByotClusterList_DeepCopy :: "'x external \<Rightarrow> ('x, nat option) copier" where
  "ByotClusterList_DeepCopy E p = copy_pointer ClusterListCell un_ClusterList
      (ByotClusterList_DeepCopyInto E) p"

text \<open>A non-nil \<open>runtime.Object\<close> is a pointer (nil or not) with its type.\<close>

datatype runtime_object =
    ByotHostObject "nat option"
  | ByotHostListObject "nat option"
  | ByotMachineObject "nat option"
  | ByotMachineListObject "nat option"
  | ByotMachineTemplateObject "nat option"
  | ByotMachineTemplateListObject "nat option"
  | ByotClusterObject "nat option"
  | ByotClusterListObject "nat option"

text \<open>\<open>if c := in.DeepCopy(); c != nil { return c }; return nil\<close>.\<close>

definition non_nil :: "(nat option \<Rightarrow> runtime_object) \<Rightarrow> nat option \<Rightarrow>
    runtime_object option" where
  "non_nil mk c = (if c \<noteq> None then Some (mk c) else None)"

definition ByotHost_DeepCopyObject :: "'x external \<Rightarrow> nat option \<Rightarrow> ('x cell
    memory, runtime_object option) state" where
  "ByotHost_DeepCopyObject E p = do { c \<leftarrow> ByotHost_DeepCopy E p; ret (non_nil ByotHostObject c) }"

definition ByotHostList_DeepCopyObject :: "'x external \<Rightarrow> nat option \<Rightarrow> ('x cell
    memory, runtime_object option) state" where
  "ByotHostList_DeepCopyObject E p = do { c \<leftarrow> ByotHostList_DeepCopy E p; ret (non_nil
      ByotHostListObject c) }"

definition ByotMachine_DeepCopyObject :: "'x external \<Rightarrow> nat option \<Rightarrow> ('x cell
    memory, runtime_object option) state" where
  "ByotMachine_DeepCopyObject E p = do { c \<leftarrow> ByotMachine_DeepCopy E p; ret (non_nil
      ByotMachineObject c) }"

definition ByotMachineList_DeepCopyObject :: "'x external \<Rightarrow> nat option \<Rightarrow> ('x
    cell memory, runtime_object option) state" where
  "ByotMachineList_DeepCopyObject E p = do { c \<leftarrow> ByotMachineList_DeepCopy E p; ret (non_nil
      ByotMachineListObject c) }"

definition ByotMachineTemplate_DeepCopyObject :: "'x external \<Rightarrow> nat option \<Rightarrow>
    ('x cell memory, runtime_object option) state" where
  "ByotMachineTemplate_DeepCopyObject E p = do { c \<leftarrow> ByotMachineTemplate_DeepCopy E p; ret
      (non_nil ByotMachineTemplateObject c) }"

definition ByotMachineTemplateList_DeepCopyObject :: "'x external \<Rightarrow> nat option
    \<Rightarrow> ('x cell memory, runtime_object option) state" where
  "ByotMachineTemplateList_DeepCopyObject E p = do { c \<leftarrow> ByotMachineTemplateList_DeepCopy E
      p; ret (non_nil ByotMachineTemplateListObject c) }"

definition ByotCluster_DeepCopyObject :: "'x external \<Rightarrow> nat option \<Rightarrow> ('x cell
    memory, runtime_object option) state" where
  "ByotCluster_DeepCopyObject E p = do { c \<leftarrow> ByotCluster_DeepCopy E p; ret (non_nil
      ByotClusterObject c) }"

definition ByotClusterList_DeepCopyObject :: "'x external \<Rightarrow> nat option \<Rightarrow> ('x
    cell memory, runtime_object option) state" where
  "ByotClusterList_DeepCopyObject E p = do { c \<leftarrow> ByotClusterList_DeepCopy E p; ret (non_nil
      ByotClusterListObject c) }"

text \<open>The call through the interface.\<close>

fun DeepCopyObject :: "'x external \<Rightarrow> runtime_object \<Rightarrow> ('x cell memory,
    runtime_object option) state" where
  "DeepCopyObject E (ByotHostObject p) = ByotHost_DeepCopyObject E p"
| "DeepCopyObject E (ByotHostListObject p) = ByotHostList_DeepCopyObject E p"
| "DeepCopyObject E (ByotMachineObject p) = ByotMachine_DeepCopyObject E p"
| "DeepCopyObject E (ByotMachineListObject p) = ByotMachineList_DeepCopyObject E p"
| "DeepCopyObject E (ByotMachineTemplateObject p) = ByotMachineTemplate_DeepCopyObject E p"
| "DeepCopyObject E (ByotMachineTemplateListObject p) = ByotMachineTemplateList_DeepCopyObject E p"
| "DeepCopyObject E (ByotClusterObject p) = ByotCluster_DeepCopyObject E p"
| "DeepCopyObject E (ByotClusterListObject p) = ByotClusterList_DeepCopyObject E p"


section \<open>What the types show\<close>

definition HostDisk_shape where
  "HostDisk_shape X =
     struct HostDisk_Size
       (\<lambda>r v. r\<lparr>HostDisk_Size := v\<rparr>)
       X"

definition HostGPU_shape where
  "HostGPU_shape X =
     struct (\<lambda>r. (HostGPU_MemoryPerGPU r, HostGPU_TotalMemory r))
       (\<lambda>r (memoryPerGPU, totalMemory). r\<lparr>HostGPU_MemoryPerGPU := memoryPerGPU,
           HostGPU_TotalMemory := totalMemory\<rparr>)
       (both X X)"

definition HostHardware_shape where
  "HostHardware_shape X =
     struct (\<lambda>r. (HostHardware_Memory r, HostHardware_Disks r,
         HostHardware_NetworkInterfaces r, HostHardware_GPUs r))
       (\<lambda>r (memory, disks, networkInterfaces, gpus). r\<lparr>HostHardware_Memory := memory,
           HostHardware_Disks := disks, HostHardware_NetworkInterfaces := networkInterfaces,
           HostHardware_GPUs := gpus\<rparr>)
       (both X (both (pointer un_disks (elements (HostDisk_shape X))) (both (pointer un_strings
           (elements flat)) (pointer un_GPU (HostGPU_shape X)))))"

definition ByotHostSpec_shape where
  "ByotHostSpec_shape =
     struct HostSpec_FailureDomain
       (\<lambda>r v. r\<lparr>HostSpec_FailureDomain := v\<rparr>)
       (pointer un_string flat)"

definition ByotHostStatus_shape where
  "ByotHostStatus_shape X =
     struct (\<lambda>r. (HostStatus_Hardware r, HostStatus_Identity r, HostStatus_ClaimRef r,
         HostStatus_LastProbedAt r, HostStatus_Conditions r))
       (\<lambda>r (hardware, identity, claimRef, lastProbedAt,
           conditions). r\<lparr>HostStatus_Hardware := hardware, HostStatus_Identity := identity,
           HostStatus_ClaimRef := claimRef, HostStatus_LastProbedAt := lastProbedAt,
           HostStatus_Conditions := conditions\<rparr>)
       (both (pointer un_Hardware (HostHardware_shape X)) (both (pointer un_Identity flat) (both
           (pointer un_ClaimRef flat) (both (pointer un_time X) (pointer un_conditions (elements
           X))))))"

definition ByotHost_shape where
  "ByotHost_shape X =
     struct (\<lambda>r. (Host_ObjectMeta r, Host_Spec r, Host_Status r))
       (\<lambda>r (objectMeta, spec, status). r\<lparr>Host_ObjectMeta := objectMeta,
           Host_Spec := spec, Host_Status := status\<rparr>)
       (both X (both ByotHostSpec_shape (ByotHostStatus_shape X)))"

definition ByotHostList_shape where
  "ByotHostList_shape X =
     struct (\<lambda>r. (HostList_ListMeta r, HostList_Items r))
       (\<lambda>r (listMeta, items). r\<lparr>HostList_ListMeta := listMeta, HostList_Items := items\<rparr>)
       (both X (pointer un_hosts (elements (ByotHost_shape X))))"

definition ByotMachineSpec_shape where
  "ByotMachineSpec_shape X =
     struct (\<lambda>r. (MachineSpec_HostRef r, MachineSpec_HostSelector r,
         MachineSpec_TalosConfigSecretRef r, MachineSpec_ProviderID r, MachineSpec_FailureDomain r,
         MachineSpec_DesiredTalosVersion r, MachineSpec_InstallDisk r))
       (\<lambda>r (hostRef, hostSelector, talosConfigSecretRef, providerID, failureDomain,
           desiredTalosVersion, installDisk). r\<lparr>MachineSpec_HostRef := hostRef,
           MachineSpec_HostSelector := hostSelector,
           MachineSpec_TalosConfigSecretRef := talosConfigSecretRef,
           MachineSpec_ProviderID := providerID, MachineSpec_FailureDomain := failureDomain,
           MachineSpec_DesiredTalosVersion := desiredTalosVersion,
           MachineSpec_InstallDisk := installDisk\<rparr>)
       (both (pointer un_ref flat) (both (pointer un_selector X) (both (pointer un_ref flat) (both
           (pointer un_string flat) (both (pointer un_string flat) (both (pointer un_string flat)
           (pointer un_string flat)))))))"

definition ByotMachineStatus_shape where
  "ByotMachineStatus_shape X =
     struct (\<lambda>r. (MachineStatus_LastResetAt r, MachineStatus_Addresses r, MachineStatus_Conditions r))
       (\<lambda>r (lastResetAt, addresses,
           conditions). r\<lparr>MachineStatus_LastResetAt := lastResetAt,
           MachineStatus_Addresses := addresses, MachineStatus_Conditions := conditions\<rparr>)
       (both (pointer un_time X) (both (pointer un_addresses (elements flat)) (pointer un_conditions
           (elements X))))"

definition ByotMachine_shape where
  "ByotMachine_shape X =
     struct (\<lambda>r. (Machine_ObjectMeta r, Machine_Spec r, Machine_Status r))
       (\<lambda>r (objectMeta, spec, status). r\<lparr>Machine_ObjectMeta := objectMeta,
           Machine_Spec := spec, Machine_Status := status\<rparr>)
       (both X (both (ByotMachineSpec_shape X) (ByotMachineStatus_shape X)))"

definition ByotMachineList_shape where
  "ByotMachineList_shape X =
     struct (\<lambda>r. (MachineList_ListMeta r, MachineList_Items r))
       (\<lambda>r (listMeta, items). r\<lparr>MachineList_ListMeta := listMeta,
           MachineList_Items := items\<rparr>)
       (both X (pointer un_machines (elements (ByotMachine_shape X))))"

definition ByotMachineTemplateResource_shape where
  "ByotMachineTemplateResource_shape X =
     struct (\<lambda>r. (TemplateResource_ObjectMeta r, TemplateResource_Spec r))
       (\<lambda>r (objectMeta, spec). r\<lparr>TemplateResource_ObjectMeta := objectMeta,
           TemplateResource_Spec := spec\<rparr>)
       (both X (ByotMachineSpec_shape X))"

definition ByotMachineTemplateSpec_shape where
  "ByotMachineTemplateSpec_shape X =
     struct TemplateSpec_Template
       (\<lambda>r v. r\<lparr>TemplateSpec_Template := v\<rparr>)
       (ByotMachineTemplateResource_shape X)"

definition ByotMachineTemplate_shape where
  "ByotMachineTemplate_shape X =
     struct (\<lambda>r. (Template_ObjectMeta r, Template_Spec r))
       (\<lambda>r (objectMeta, spec). r\<lparr>Template_ObjectMeta := objectMeta,
           Template_Spec := spec\<rparr>)
       (both X (ByotMachineTemplateSpec_shape X))"

definition ByotMachineTemplateList_shape where
  "ByotMachineTemplateList_shape X =
     struct (\<lambda>r. (TemplateList_ListMeta r, TemplateList_Items r))
       (\<lambda>r (listMeta, items). r\<lparr>TemplateList_ListMeta := listMeta,
           TemplateList_Items := items\<rparr>)
       (both X (pointer un_templates (elements (ByotMachineTemplate_shape X))))"

definition ByotClusterStatus_shape where
  "ByotClusterStatus_shape X =
     struct ClusterStatus_Conditions
       (\<lambda>r v. r\<lparr>ClusterStatus_Conditions := v\<rparr>)
       (pointer un_conditions (elements X))"

definition ByotCluster_shape where
  "ByotCluster_shape X =
     struct (\<lambda>r. (Cluster_ObjectMeta r, Cluster_Status r))
       (\<lambda>r (objectMeta, status). r\<lparr>Cluster_ObjectMeta := objectMeta,
           Cluster_Status := status\<rparr>)
       (both X (ByotClusterStatus_shape X))"

definition ByotClusterList_shape where
  "ByotClusterList_shape X =
     struct (\<lambda>r. (ClusterList_ListMeta r, ClusterList_Items r))
       (\<lambda>r (listMeta, items). r\<lparr>ClusterList_ListMeta := listMeta,
           ClusterList_Items := items\<rparr>)
       (both X (pointer un_clusters (elements (ByotCluster_shape X))))"


section \<open>They are deep copies\<close>

definition external_ok :: "'x external \<Rightarrow> ('x cell, 'x, 'v) shape \<Rightarrow> bool" where
  "external_ok E X \<longleftrightarrow>
     (\<forall>c \<in> {eObjectMeta E, eListMeta E, eTemplateMeta E, eLabelSelector E, eTime E,
         eCondition E, eQuantity E}.
        deep_copy X c)"

lemma external_copies [copy_intros]:
  assumes "external_ok E X"
  shows "deep_copy X (eObjectMeta E)" "deep_copy X (eListMeta E)" "deep_copy X (eTemplateMeta E)"
    "deep_copy X (eLabelSelector E)" "deep_copy X (eTime E)" "deep_copy X (eCondition E)"
    "deep_copy X (eQuantity E)"
  using assms by (simp_all add: external_ok_def)

text \<open>A sequence of field copies is the copy of the tuple of the fields.\<close>

lemmas copy_parts = copy_both_def ret_def split_def

lemma copy_plain [copy_intros]:
  shows "deep_copy flat LocalObjectReference_DeepCopyInto"
    "deep_copy flat HostCPU_DeepCopyInto"
    "deep_copy flat HostClaimRef_DeepCopyInto"
    "deep_copy flat HostIdentity_DeepCopyInto"
    "deep_copy flat ByotClusterSpec_DeepCopyInto"
  using deep_copy_flat by (simp_all add: fun_eq_iff [symmetric] LocalObjectReference_DeepCopyInto_def
      [abs_def] HostCPU_DeepCopyInto_def [abs_def] HostClaimRef_DeepCopyInto_def [abs_def]
      HostIdentity_DeepCopyInto_def [abs_def] ByotClusterSpec_DeepCopyInto_def [abs_def])

lemma copy_HostDisk [copy_intros]:
  assumes "external_ok E X"
  shows "deep_copy (HostDisk_shape X) (HostDisk_DeepCopyInto E)"
  unfolding HostDisk_shape_def
  by (rule deep_copy_structI [where f =
      "eQuantity E"])
    ((intro copy_intros assms; clarsimp) | simp add: HostDisk_DeepCopyInto_def copy_parts)+

lemma copy_HostGPU [copy_intros]:
  assumes "external_ok E X"
  shows "deep_copy (HostGPU_shape X) (HostGPU_DeepCopyInto E)"
  unfolding HostGPU_shape_def
  by (rule deep_copy_structI [where f =
      "copy_both (eQuantity E) (eQuantity E)"])
    ((intro copy_intros assms; clarsimp) | simp add: HostGPU_DeepCopyInto_def copy_parts)+

lemma copy_HostHardware [copy_intros]:
  assumes "external_ok E X"
  shows "deep_copy (HostHardware_shape X) (HostHardware_DeepCopyInto E)"
  unfolding HostHardware_shape_def
  by (rule deep_copy_structI [where f =
      "copy_both (eQuantity E) (copy_both (copy_pointer DisksCell un_disks (copy_elements
          (HostDisk_DeepCopyInto E))) (copy_both (copy_pointer StringsCell un_strings (copy_elements
          ret)) (copy_pointer GPUCell un_GPU (HostGPU_DeepCopyInto E))))"])
    ((intro copy_intros assms; clarsimp) | simp add: HostHardware_DeepCopyInto_def copy_parts)+

lemma copy_ByotHostSpec [copy_intros]:
  shows "deep_copy ByotHostSpec_shape ByotHostSpec_DeepCopyInto"
  unfolding ByotHostSpec_shape_def
  by (rule deep_copy_structI [where f =
      "copy_pointer StringCell un_string ret"])
    ((intro copy_intros; clarsimp) | simp add: ByotHostSpec_DeepCopyInto_def copy_parts)+

lemma copy_ByotHostStatus [copy_intros]:
  assumes "external_ok E X"
  shows "deep_copy (ByotHostStatus_shape X) (ByotHostStatus_DeepCopyInto E)"
  unfolding ByotHostStatus_shape_def
  by (rule deep_copy_structI [where f =
      "copy_both (copy_pointer HardwareCell un_Hardware (HostHardware_DeepCopyInto E)) (copy_both
          (copy_pointer IdentityCell un_Identity HostIdentity_DeepCopyInto) (copy_both (copy_pointer
          ClaimRefCell un_ClaimRef HostClaimRef_DeepCopyInto) (copy_both (copy_pointer TimeCell un_time
          (eTime E)) (copy_pointer ConditionsCell un_conditions (copy_elements (eCondition E))))))"])
    ((intro copy_intros assms; clarsimp) | simp add: ByotHostStatus_DeepCopyInto_def copy_parts)+

lemma copy_ByotHost [copy_intros]:
  assumes "external_ok E X"
  shows "deep_copy (ByotHost_shape X) (ByotHost_DeepCopyInto E)"
  unfolding ByotHost_shape_def
  by (rule deep_copy_structI [where f =
      "copy_both (eObjectMeta E) (copy_both ByotHostSpec_DeepCopyInto (ByotHostStatus_DeepCopyInto E))"])
    ((intro copy_intros assms; clarsimp) | simp add: ByotHost_DeepCopyInto_def copy_parts)+

lemma copy_ByotHostList [copy_intros]:
  assumes "external_ok E X"
  shows "deep_copy (ByotHostList_shape X) (ByotHostList_DeepCopyInto E)"
  unfolding ByotHostList_shape_def
  by (rule deep_copy_structI [where f =
      "copy_both (eListMeta E) (copy_pointer HostsCell un_hosts (copy_elements (ByotHost_DeepCopyInto E)))"])
    ((intro copy_intros assms; clarsimp) | simp add: ByotHostList_DeepCopyInto_def copy_parts)+

lemma copy_ByotMachineSpec [copy_intros]:
  assumes "external_ok E X"
  shows "deep_copy (ByotMachineSpec_shape X) (ByotMachineSpec_DeepCopyInto E)"
  unfolding ByotMachineSpec_shape_def
  by (rule deep_copy_structI [where f =
      "copy_both (copy_pointer RefCell un_ref LocalObjectReference_DeepCopyInto) (copy_both
          (copy_pointer SelectorCell un_selector (eLabelSelector E)) (copy_both (copy_pointer RefCell
          un_ref LocalObjectReference_DeepCopyInto) (copy_both (copy_pointer StringCell un_string ret)
          (copy_both (copy_pointer StringCell un_string ret) (copy_both (copy_pointer StringCell
          un_string ret) (copy_pointer StringCell un_string ret))))))"])
    ((intro copy_intros assms; clarsimp) | simp add: ByotMachineSpec_DeepCopyInto_def copy_parts)+

lemma copy_ByotMachineStatus [copy_intros]:
  assumes "external_ok E X"
  shows "deep_copy (ByotMachineStatus_shape X) (ByotMachineStatus_DeepCopyInto E)"
  unfolding ByotMachineStatus_shape_def
  by (rule deep_copy_structI [where f =
      "copy_both (copy_pointer TimeCell un_time (eTime E)) (copy_both (copy_pointer AddressesCell
          un_addresses (copy_elements ret)) (copy_pointer ConditionsCell un_conditions (copy_elements
          (eCondition E))))"])
    ((intro copy_intros assms; clarsimp) | simp add: ByotMachineStatus_DeepCopyInto_def copy_parts)+

lemma copy_ByotMachine [copy_intros]:
  assumes "external_ok E X"
  shows "deep_copy (ByotMachine_shape X) (ByotMachine_DeepCopyInto E)"
  unfolding ByotMachine_shape_def
  by (rule deep_copy_structI [where f =
      "copy_both (eObjectMeta E) (copy_both (ByotMachineSpec_DeepCopyInto E)
          (ByotMachineStatus_DeepCopyInto E))"])
    ((intro copy_intros assms; clarsimp) | simp add: ByotMachine_DeepCopyInto_def copy_parts)+

lemma copy_ByotMachineList [copy_intros]:
  assumes "external_ok E X"
  shows "deep_copy (ByotMachineList_shape X) (ByotMachineList_DeepCopyInto E)"
  unfolding ByotMachineList_shape_def
  by (rule deep_copy_structI [where f =
      "copy_both (eListMeta E) (copy_pointer MachinesCell un_machines (copy_elements
          (ByotMachine_DeepCopyInto E)))"])
    ((intro copy_intros assms; clarsimp) | simp add: ByotMachineList_DeepCopyInto_def copy_parts)+

lemma copy_ByotMachineTemplateResource [copy_intros]:
  assumes "external_ok E X"
  shows "deep_copy (ByotMachineTemplateResource_shape X) (ByotMachineTemplateResource_DeepCopyInto E)"
  unfolding ByotMachineTemplateResource_shape_def
  by (rule deep_copy_structI [where f =
      "copy_both (eTemplateMeta E) (ByotMachineSpec_DeepCopyInto E)"])
    ((intro copy_intros assms; clarsimp) | simp add: ByotMachineTemplateResource_DeepCopyInto_def copy_parts)+

lemma copy_ByotMachineTemplateSpec [copy_intros]:
  assumes "external_ok E X"
  shows "deep_copy (ByotMachineTemplateSpec_shape X) (ByotMachineTemplateSpec_DeepCopyInto E)"
  unfolding ByotMachineTemplateSpec_shape_def
  by (rule deep_copy_structI [where f =
      "ByotMachineTemplateResource_DeepCopyInto E"])
    ((intro copy_intros assms; clarsimp) | simp add: ByotMachineTemplateSpec_DeepCopyInto_def copy_parts)+

lemma copy_ByotMachineTemplate [copy_intros]:
  assumes "external_ok E X"
  shows "deep_copy (ByotMachineTemplate_shape X) (ByotMachineTemplate_DeepCopyInto E)"
  unfolding ByotMachineTemplate_shape_def
  by (rule deep_copy_structI [where f =
      "copy_both (eObjectMeta E) (ByotMachineTemplateSpec_DeepCopyInto E)"])
    ((intro copy_intros assms; clarsimp) | simp add: ByotMachineTemplate_DeepCopyInto_def copy_parts)+

lemma copy_ByotMachineTemplateList [copy_intros]:
  assumes "external_ok E X"
  shows "deep_copy (ByotMachineTemplateList_shape X) (ByotMachineTemplateList_DeepCopyInto E)"
  unfolding ByotMachineTemplateList_shape_def
  by (rule deep_copy_structI [where f =
      "copy_both (eListMeta E) (copy_pointer TemplatesCell un_templates (copy_elements
          (ByotMachineTemplate_DeepCopyInto E)))"])
    ((intro copy_intros assms; clarsimp) | simp add: ByotMachineTemplateList_DeepCopyInto_def copy_parts)+

lemma copy_ByotClusterStatus [copy_intros]:
  assumes "external_ok E X"
  shows "deep_copy (ByotClusterStatus_shape X) (ByotClusterStatus_DeepCopyInto E)"
  unfolding ByotClusterStatus_shape_def
  by (rule deep_copy_structI [where f =
      "copy_pointer ConditionsCell un_conditions (copy_elements (eCondition E))"])
    ((intro copy_intros assms; clarsimp) | simp add: ByotClusterStatus_DeepCopyInto_def copy_parts)+

lemma copy_ByotCluster [copy_intros]:
  assumes "external_ok E X"
  shows "deep_copy (ByotCluster_shape X) (ByotCluster_DeepCopyInto E)"
  unfolding ByotCluster_shape_def
  by (rule deep_copy_structI [where f =
      "copy_both (eObjectMeta E) (ByotClusterStatus_DeepCopyInto E)"])
    ((intro copy_intros assms; clarsimp) | simp add: ByotCluster_DeepCopyInto_def copy_parts)+

lemma copy_ByotClusterList [copy_intros]:
  assumes "external_ok E X"
  shows "deep_copy (ByotClusterList_shape X) (ByotClusterList_DeepCopyInto E)"
  unfolding ByotClusterList_shape_def
  by (rule deep_copy_structI [where f =
      "copy_both (eListMeta E) (copy_pointer ClustersCell un_clusters (copy_elements
          (ByotCluster_DeepCopyInto E)))"])
    ((intro copy_intros assms; clarsimp) | simp add: ByotClusterList_DeepCopyInto_def copy_parts)+


section \<open>Objects\<close>

fun object_pointer :: "runtime_object \<Rightarrow> nat option" where
  "object_pointer (ByotHostObject p) = p"
| "object_pointer (ByotHostListObject p) = p"
| "object_pointer (ByotMachineObject p) = p"
| "object_pointer (ByotMachineListObject p) = p"
| "object_pointer (ByotMachineTemplateObject p) = p"
| "object_pointer (ByotMachineTemplateListObject p) = p"
| "object_pointer (ByotClusterObject p) = p"
| "object_pointer (ByotClusterListObject p) = p"

text \<open>An object shows its type and what its pointer shows.\<close>

definition object_shape where
  "object_shape X =
     \<lparr>foot = (\<lambda>s ob. case ob of
          ByotHostObject p \<Rightarrow> foot (pointer un_Host (ByotHost_shape X)) s p
        | ByotHostListObject p \<Rightarrow> foot (pointer un_HostList (ByotHostList_shape X)) s p
        | ByotMachineObject p \<Rightarrow> foot (pointer un_Machine (ByotMachine_shape X)) s p
        | ByotMachineListObject p \<Rightarrow> foot (pointer un_MachineList (ByotMachineList_shape X)) s p
        | ByotMachineTemplateObject p \<Rightarrow> foot (pointer un_Template
            (ByotMachineTemplate_shape X)) s p
        | ByotMachineTemplateListObject p \<Rightarrow> foot (pointer un_TemplateList
            (ByotMachineTemplateList_shape X)) s p
        | ByotClusterObject p \<Rightarrow> foot (pointer un_Cluster (ByotCluster_shape X)) s p
        | ByotClusterListObject p \<Rightarrow> foot (pointer un_ClusterList (ByotClusterList_shape X)) s p
        ),
      view = (\<lambda>s ob. case ob of
          ByotHostObject p \<Rightarrow> Inl (view (pointer un_Host (ByotHost_shape X)) s p)
        | ByotHostListObject p \<Rightarrow> Inr (Inl (view (pointer un_HostList (ByotHostList_shape X)) s p))
        | ByotMachineObject p \<Rightarrow> Inr (Inr (Inl (view (pointer un_Machine (ByotMachine_shape
            X)) s p)))
        | ByotMachineListObject p \<Rightarrow> Inr (Inr (Inr (Inl (view (pointer un_MachineList
            (ByotMachineList_shape X)) s p))))
        | ByotMachineTemplateObject p \<Rightarrow> Inr (Inr (Inr (Inr (Inl (view (pointer un_Template
            (ByotMachineTemplate_shape X)) s p)))))
        | ByotMachineTemplateListObject p \<Rightarrow> Inr (Inr (Inr (Inr (Inr (Inl (view (pointer
            un_TemplateList (ByotMachineTemplateList_shape X)) s p))))))
        | ByotClusterObject p \<Rightarrow> Inr (Inr (Inr (Inr (Inr (Inr (Inl (view (pointer un_Cluster
            (ByotCluster_shape X)) s p)))))))
        | ByotClusterListObject p \<Rightarrow> Inr (Inr (Inr (Inr (Inr (Inr (Inr (view (pointer
            un_ClusterList (ByotClusterList_shape X)) s p)))))))
        )\<rparr>"

text \<open>One kind of object: its pointer is copied and wrapped again.\<close>

lemma object_copied:
  assumes c: "deep_copy A into" and un: "\<And>x. un (cell x) = x"
    and foot: "\<And>s p. foot S s (mk p) = foot (pointer un A) s p"
    and view: "\<And>s p. view S s (mk p) = f (view (pointer un A) s p)"
    and x: "owned S s (mk p)"
    and run: "run_state (do { q \<leftarrow> copy_pointer cell un into p; ret (non_nil mk q) }) s = (res, t)"
  shows "case res of None \<Rightarrow> p = None \<and> t = s | Some ob \<Rightarrow> apart S s (mk p) ob t"
proof -
  have dc: "deep_copy (pointer un A) (copy_pointer cell un into)"
    by (rule deep_copy_pointer [OF c un])
  obtain q u where q: "run_state (copy_pointer cell un into p) s = (q, u)" by fastforce
  with run have res: "res = non_nil mk q" "t = u" by (simp_all add: ret_def)
  have "owned (pointer un A) s p" using x by (simp add: owned_def foot)
  from deep_copy.copy_apart [OF dc this q] have a: "apart (pointer un A) s p q t" by (simp add: res)
  then have q_nil: "q = None \<longleftrightarrow> p = None" by (auto simp: apart_def pointer_def)
  have "apart S s (mk p) (mk q) t"
    using a by (simp add: apart_def foot view)
  moreover have "t = s" if "p = None" using q that by (simp add: copy_pointer_def ret_def res)
  ultimately show ?thesis using q_nil by (simp add: res non_nil_def)
qed

lemmas object_copies =
  copy_ByotHost copy_ByotHostList copy_ByotMachine copy_ByotMachineList copy_ByotMachineTemplate copy_ByotMachineTemplateList copy_ByotCluster copy_ByotClusterList

lemmas object_copy_defs =
  ByotHost_DeepCopyObject_def ByotHost_DeepCopy_def
  ByotHostList_DeepCopyObject_def ByotHostList_DeepCopy_def
  ByotMachine_DeepCopyObject_def ByotMachine_DeepCopy_def
  ByotMachineList_DeepCopyObject_def ByotMachineList_DeepCopy_def
  ByotMachineTemplate_DeepCopyObject_def ByotMachineTemplate_DeepCopy_def
  ByotMachineTemplateList_DeepCopyObject_def ByotMachineTemplateList_DeepCopy_def
  ByotCluster_DeepCopyObject_def ByotCluster_DeepCopy_def
  ByotClusterList_DeepCopyObject_def ByotClusterList_DeepCopy_def

text \<open>C21. \<open>DeepCopyObject\<close>, through the interface, of any of the eight object types: of a nil pointer it
  is nil; of anything else it is an object of the same type that shows the same (every field, down
  every pointer and slice, and what other packages show of theirs). The two share no cell: whatever
  is written afterwards outside the copy, through the original for instance, the copy goes on
  showing this, and whatever is written to the copy, the original does. What is assumed is that the
  original has only allocated cells and that the copies of the other packages' structs are deep.\<close>

theorem DeepCopyObject_isolates:
  assumes "external_ok E X" and "owned (object_shape X) s ob"
    and "run_state (DeepCopyObject E ob) s = (res, t)"
  shows "case res of
      None \<Rightarrow> object_pointer ob = None \<and> t = s
    | Some copy \<Rightarrow> apart (object_shape X) s ob copy t"
  using assms(2,3)
  by (cases ob; (simp only: DeepCopyObject.simps object_pointer.simps object_copy_defs))
     (erule object_copied [rotated 5], rule object_copies [OF assms(1)],
       (simp_all add: object_shape_def)[3], assumption)+

text \<open>Copies that need nothing of other packages.\<close>

interpretation host_spec_copy: deep_copy ByotHostSpec_shape ByotHostSpec_DeepCopyInto
  by (rule copy_ByotHostSpec)

interpretation claim_ref_copy: deep_copy "pointer un_ClaimRef flat" HostClaimRef_DeepCopy
  unfolding HostClaimRef_DeepCopy_def [abs_def] by (intro copy_intros) simp

interpretation identity_copy: deep_copy "pointer un_Identity flat" HostIdentity_DeepCopy
  unfolding HostIdentity_DeepCopy_def [abs_def] by (intro copy_intros) simp


section \<open>Conditions\<close>

text \<open>The accessors the condition functions of Cluster API work through. \<open>GetConditions\<close> returns the
  slice itself, not a copy, and \<open>SetConditions\<close> writes through the pointer.\<close>

definition ByotHost_GetConditions :: "nat \<Rightarrow> ('x cell memory, nat option) state" where
  "ByotHost_GetConditions h =
     do { c \<leftarrow> load h;
          ret (HostStatus_Conditions (Host_Status (un_Host c))) }"

definition ByotHost_SetConditions :: "nat \<Rightarrow> nat option \<Rightarrow> ('x cell memory, unit) state" where
  "ByotHost_SetConditions h conditions =
     do { c \<leftarrow> load h;
          let host = un_Host c;
          save h (HostCell (host\<lparr>Host_Status := (Host_Status host)\<lparr>HostStatus_Conditions := conditions\<rparr>\<rparr>)) }"

definition ByotMachine_GetConditions :: "nat \<Rightarrow> ('x cell memory, nat option) state" where
  "ByotMachine_GetConditions m =
     do { c \<leftarrow> load m;
          ret (MachineStatus_Conditions (Machine_Status (un_Machine c))) }"

definition ByotMachine_SetConditions :: "nat \<Rightarrow> nat option \<Rightarrow> ('x cell memory, unit) state" where
  "ByotMachine_SetConditions m conditions =
     do { c \<leftarrow> load m;
          let machine = un_Machine c;
          save m (MachineCell (machine\<lparr>Machine_Status :=
            (Machine_Status machine)\<lparr>MachineStatus_Conditions := conditions\<rparr>\<rparr>)) }"

definition ByotCluster_GetConditions :: "nat \<Rightarrow> ('x cell memory, nat option) state" where
  "ByotCluster_GetConditions c =
     do { x \<leftarrow> load c;
          ret (ClusterStatus_Conditions (Cluster_Status (un_Cluster x))) }"

definition ByotCluster_SetConditions :: "nat \<Rightarrow> nat option \<Rightarrow> ('x cell memory, unit) state" where
  "ByotCluster_SetConditions c conditions =
     do { x \<leftarrow> load c;
          let cluster = un_Cluster x;
          save c (ClusterCell (cluster\<lparr>Cluster_Status :=
            (Cluster_Status cluster)\<lparr>ClusterStatus_Conditions := conditions\<rparr>\<rparr>)) }"

lemmas accessor_defs =
  ByotHost_GetConditions_def ByotHost_SetConditions_def ByotMachine_GetConditions_def
  ByotMachine_SetConditions_def ByotCluster_GetConditions_def ByotCluster_SetConditions_def

lemma conditions_got_as_set:
  "wp (do { _ \<leftarrow> ByotHost_SetConditions a p; ByotHost_GetConditions a }) (\<lambda>q _. q = p) s"
  "wp (do { _ \<leftarrow> ByotMachine_SetConditions a p; ByotMachine_GetConditions a }) (\<lambda>q _. q = p) s"
  "wp (do { _ \<leftarrow> ByotCluster_SetConditions a p; ByotCluster_GetConditions a }) (\<lambda>q _. q = p) s"
  by (simp_all add: accessor_defs Let_def wp_simps)

text \<open>A write to the struct of a copy is one to a cell of the copy, so the original does not show it;
  the conditions set on a copy taken from the cache never reach the cache.\<close>

lemma copy_written:
  assumes "apart (object_shape X) s ob copy t" and "object_pointer copy = Some a"
  shows "view (object_shape X) (t\<lparr>cells := (cells t)(a := c)\<rparr>) ob = view (object_shape X) s ob"
proof -
  have "a \<in> foot (object_shape X) t copy"
    using assms(2) by (cases copy) (simp_all add: object_shape_def pointer_def)
  then have "same_on (- foot (object_shape X) t copy) t (t\<lparr>cells := (cells t)(a := c)\<rparr>)"
    by (auto simp: same_on_def)
  with assms(1) show ?thesis by (simp add: apart_def)
qed

lemma conditions_set_on_copy:
  "apart (object_shape X) s ob (ByotHostObject (Some a)) t \<Longrightarrow>
     wp (ByotHost_SetConditions a p) (\<lambda>_ u. view (object_shape X) u ob = view (object_shape X) s ob) t"
  "apart (object_shape X) s ob (ByotMachineObject (Some a)) t \<Longrightarrow>
     wp (ByotMachine_SetConditions a p) (\<lambda>_ u. view (object_shape X) u ob = view (object_shape X) s ob) t"
  "apart (object_shape X) s ob (ByotClusterObject (Some a)) t \<Longrightarrow>
     wp (ByotCluster_SetConditions a p) (\<lambda>_ u. view (object_shape X) u ob = view (object_shape X) s ob) t"
  by (simp_all add: accessor_defs Let_def wp_simps copy_written)


section \<open>A host in memory\<close>

text \<open>A struct of another package, as an example: a text and a pointer to one.\<close>

definition memory_shape :: "((string \<times> nat option) cell, string \<times> nat option,
    string \<times> string option) shape" where
  "memory_shape = both flat (pointer (fst \<circ> un_foreign) flat)"

definition memory_copy :: "(string \<times> nat option, string \<times> nat option) copier" where
  "memory_copy = copy_both ret (copy_pointer (\<lambda>n. ForeignCell (n,
      None)) (fst \<circ> un_foreign) ret)"

definition memory_external :: "(string \<times> nat option) external" where
  "memory_external =
     \<lparr>eObjectMeta = memory_copy, eListMeta = memory_copy, eTemplateMeta = memory_copy,
      eLabelSelector = memory_copy, eTime = memory_copy, eCondition = memory_copy,
          eQuantity = memory_copy\<rparr>"

lemma memory_external_ok: "external_ok memory_external memory_shape"
  unfolding external_ok_def memory_external_def memory_shape_def memory_copy_def
  by (simp, intro copy_intros, simp)

definition memory_host :: "(string \<times> nat option) byot_host_m" where
  "memory_host =
     \<lparr>Host_TypeMeta = \<lparr>TypeMeta_Kind = ''ByotHost'', TypeMeta_APIVersion = ''v1alpha1''\<rparr>,
      Host_ObjectMeta = (''host-a'', Some 2),
      Host_Spec = \<lparr>HostSpec_PublicIP = ''192.0.2.1'', HostSpec_FailureDomain = Some 3\<rparr>,
      Host_Status =
        \<lparr>HostStatus_Phase = Claimed, HostStatus_TalosVersion = ''v1.9'', HostStatus_Arch = ''amd64'',
         HostStatus_Platform = ''metal'', HostStatus_Hardware = None, HostStatus_Identity = None,
         HostStatus_MaintenanceMode = True, HostStatus_ClaimRef = Some 1, HostStatus_ProbeFailureCount = 0,
         HostStatus_LastProbedAt = None, HostStatus_Conditions = None\<rparr>\<rparr>"

definition memory_store :: "(string \<times> nat option) cell memory" where
  "memory_store =
     \<lparr>cells = (\<lambda>_. StringCell [])
        (0 := HostCell memory_host,
         1 := ClaimRefCell \<lparr>crKind = ''ByotMachine'', crName = ''m'', crNamespace = ''ns'',
             crUID = ''u''\<rparr>,
         2 := ForeignCell (''labels'', None),
         3 := StringCell ''rack-1''),
      nextFree = 4\<rparr>"

lemmas memory_defs = memory_store_def memory_host_def memory_external_def memory_copy_def memory_shape_def

lemma memory_run:
  "fst (run_state (DeepCopyObject memory_external (ByotHostObject (Some 0))) memory_store) =
     Some (ByotHostObject (Some 4))"
  "owned (object_shape memory_shape) memory_store (ByotHostObject (Some 0))"
proof -
  show "fst (run_state (DeepCopyObject memory_external (ByotHostObject (Some 0))) memory_store) =
     Some (ByotHostObject (Some 4))"
    by (simp add: memory_store_def ByotHost_DeepCopyObject_def ByotHost_DeepCopy_def copy_pointer_def
        allocate_def ret_def non_nil_def split_def)
  show "owned (object_shape memory_shape) memory_store (ByotHostObject (Some 0))"
    by (simp add: owned_def object_shape_def shape_defs memory_defs ByotHost_shape_def ByotHostSpec_shape_def
        ByotHostStatus_shape_def o_def)
qed

lemma DeepCopyObject_isolates_witness:
  "\<exists>t. run_state (DeepCopyObject memory_external (ByotHostObject (Some 0))) memory_store =
      (Some (ByotHostObject (Some 4)), t) \<and>
    apart (object_shape memory_shape) memory_store (ByotHostObject (Some 0)) (ByotHostObject (Some 4)) t"
proof -
  let ?r = "run_state (DeepCopyObject memory_external (ByotHostObject (Some 0))) memory_store"
  have "?r = (Some (ByotHostObject (Some 4)), snd ?r)" using memory_run(1) by (metis prod.collapse)
  moreover from DeepCopyObject_isolates [OF memory_external_ok memory_run(2) this]
  have "apart (object_shape memory_shape) memory_store (ByotHostObject (Some 0)) (ByotHostObject (Some
      4)) (snd ?r)"
    by simp
  ultimately show ?thesis by blast
qed

end
