(* ===== verification/Spec2Isabelle.thy ===== *)
theory Spec2Isabelle
  imports Registry UpgradeState Disruption ClusterController Progress DeepCopy
begin

text \<open>
  A model of the controllers of cluster-api-provider-bringyourowntalos
  (\<open>src/pkg/controller\<close>, \<open>src/api/v1alpha1\<close>) and their correctness.

  \<^bold>\<open>The program.\<close> A Cluster API infrastructure provider for machines that already exist and run
  Talos Linux. A ByotHost stands for a physical machine, a ByotMachine for the use of one by a
  cluster, a ByotCluster for the (unmanaged) cluster. Three reconcilers work on them:

  \<^item> the ByotHost controller probes a host in maintenance mode, discovers its hardware, labels it
    and moves it through the phases Probing, Available, Claimed, Releasing, Unavailable;
  \<^item> the ByotMachine controller claims an Available host, checks what runs on it, edits and
    applies the machine configuration, marks the machine Ready, upgrades Talos, links the Node of
    the workload cluster, and on deletion resets and releases the host;
  \<^item> the ByotCluster controller marks the cluster ready.

  The reconcilers meet in the ByotHost objects: the machine controller writes
  \<open>status.claimRef\<close> with the resource version it has read (a compare and swap), the host
  controller patches the rest of the status, and relabelled hosts wake the machine that claimed
  them.

  \<^bold>\<open>How it is modelled.\<close> A handler is a program of the state monad over the object it mutates and
  the log of its external calls (theory Prelude, record \<open>gst\<close>). A call to the API server, the
  machine, the workload cluster or the clock is an \<open>ask\<close>: its answer is an arbitrary function of
  the log, so every theorem holds for all answers, errors and changes of mind of the outside
  world; its event in the log carries arguments and answer, so the theorems can speak of the
  order of the calls. Third-party code (conditions, finalizers, quantities, YAML, validation,
  SHA-256) is a field of the record \<open>lib\<close>, with the laws a theorem needs as named hypotheses
  (theory World). Errors are values (\<open>goerr\<close>, theory Errors), results are sums, every
  \<open>return err\<close> is a branch. An int32 or int64 is an \<open>int\<close> with its wrap-around written out
  (\<open>i32\<close>, \<open>i64\<close>), a Go map is a finite map, a string a list of bytes. Definitions carry the
  names of the Go functions; a part of a function that was split off is named in its comment.

  \<^bold>\<open>Theories.\<close>
  \<^item> Prelude: strings, integers, the monad, the weakest preconditions (\<open>wp_simps\<close>) and the
    judgements the proofs are written in: \<open>emits\<close> (which calls), \<open>keeps\<close> (object untouched),
    \<open>under\<close> and \<open>moves\<close> (invariants of object and calls), \<open>guards\<close> (calls behind other calls),
    \<open>always\<close>, the locales \<open>stepwise\<close> (relations every update respects) and \<open>trace_law\<close>
    (properties of call sequences).
  \<^item> Errors, Types, World: \<open>errors.go\<close>, \<open>api/v1alpha1\<close>, the outside. Sample: one concrete
    environment, used by the witnesses; it models no code.
  \<^item> Hardware, NetAddr, Labels, Discovery: \<open>discovery.go\<close> and the disk choice of
    \<open>talos_apply.go\<close>. The GPU summary is exact, capacities are rounded to the nearest unit, the
    labelled system disk is the one Talos is installed on, private addresses are those of RFC 1918.
  \<^item> TalosClient: the rest of \<open>talos_apply.go\<close> but its YAML edits (apply, reset, probes, boot id,
    services, lifecycle upgrade). MachineConfig: the YAML edits (install disk, certificate SANs);
    the operator's disk wins, all addresses end up in the SANs, the injection is idempotent.
  \<^item> HostController: \<open>byothost_controller.go\<close>. HostMachine: the abstract phase machine
    \<open>host_step\<close>, which every reconcile refines, with its invariant, the exact length of an outage
    and deletion.
  \<^item> MachineBase, Claim: the reconciler's tunables and secrets, \<open>claim.go\<close>. The choice of a host, what
    a claim is evidence of, when a host is let go, the order of the reset credentials.
  \<^item> Upgrade, UpgradeState: \<open>ensureTalosVersion\<close> and all it calls. An installation is recorded
    before it is started and completes on evidence only; the upgrade status is well typed in
    every write of the controller; polling an unreachable machine ends at the threshold.
  \<^item> Adoption, ServerURL, NodeLink, MachineController: the other handlers of
    \<open>byotmachine_controller.go\<close>, its watches and entry point, and \<open>net/url\<close> as far as the
    rewriting of the kubeconfig needs it.
  \<^item> MachineRuns: properties of whole runs of the machine controller (what comes before an apply,
    before Ready, before the link, before the finalizer is dropped; when nothing is disturbed).
  \<^item> Progress: the other direction. In a world that answers, one reconcile of a fresh machine claims
    the first claimable host, configures it and persists the machine as Ready, in this order;
    a host whose reconcile found it alive is such a host, so the two controllers hand over.
  \<^item> Disruption: every call of \<open>adopt\<close> that disturbs a machine goes to the address of a host the run
    has seen held by this ByotMachine.
  \<^item> Registry: any interleaving of runs of both controllers, crashes and stale reads included,
    against a server with optimistic concurrency and operators that edit hosts; claims are
    exclusive. Its inductive relations \<open>serve\<close> and \<open>history\<close> state what the server does.
  \<^item> ClusterController: \<open>byotcluster_controller.go\<close>.
  \<^item> Memory, DeepCopy: in the theories above an API object is a value. In Go it is a struct whose
    pointers and slices are shared when it is assigned, so a value is only right if the copies the
    client library takes (\<open>zz_generated.deepcopy.go\<close>) are deep. Memory is a store of cells with
    what a Go value shows in it (\<open>view\<close>) and which cells that depends on (\<open>foot\<close>); DeepCopy has the
    types as they lie in memory (records \<open>*_m\<close>, datatype \<open>cell\<close>), every \<open>DeepCopyInto\<close>,
    \<open>DeepCopy\<close> and \<open>DeepCopyObject\<close> and the condition accessors; a copy shows what the original
    shows and shares no cell with it.

  The interfaces are locales, interpreted on the model: \<open>tunable\<close> (getters and options of the
  reconcilers), \<open>disk_chooser\<close> (both system-disk routines), the document edits of
  MachineConfig, \<open>stepwise\<close> and \<open>trace_law\<close>, \<open>framed\<close> and \<open>deep_copy\<close> (what every deep copy promises;
  the rules \<open>copy_intros\<close> build the promise of a struct from those of its fields).

  \<^bold>\<open>Bounds and termination.\<close> No fuel is used: every loop of the program runs over a finite list or
  stream and is structural recursion, except the group loop of the IPv6 parser and the decimal
  printer, which have a measure. Streams end because each is opened under a deadline. What
  repeats across reconciles (probes, polls) is iterated explicitly in the theorems about outages
  and upgrades.

  \<^bold>\<open>Not modelled.\<close> The registration of the types with the scheme (calls of the client library in
  \<open>init\<close> functions), the construction of the managers in \<open>SetupWithManager\<close> beyond the watches of
  the ByotMachine controller, logging, context deadlines and the concurrency of the Go runtime
  inside one reconcile (there is none). The ByotMachineTemplate is read by no controller: it
  occurs in its deep copy only. A merge patch is the event of its two objects; what the server
  stores for it is stated only where a theorem needs it (Registry).

  \<^bold>\<open>What the model shows about the code\<close>, beside what holds: an unchanged configuration is not sent
  to a host claimed later (MachineRuns), a failed upgrade is never retried (MachineRuns), an upgrade
  recorded but never issued stays in flight (Upgrade), a claim whose machine was not patched is
  never resumed or released (Claim), a release does not look at whose claim it drops (Claim), an
  edit during an upgrade is booked as installed (Upgrade), an IPv6 control plane without a port
  breaks the workload URL (ServerURL), a system disk without a device name becomes \<open>/dev/\<close>
  (Hardware), unique local IPv6 addresses count as private (NetAddr).
\<close>

end
